theory Spec2Isabelle
  imports Complex_Main
begin

section \<open>Convolutional sequence-to-sequence model: tensors and torch primitives\<close>

text \<open>
  The notebook computes on torch tensors of 32-bit floats. This theory takes the
  entries as real numbers, so every statement below is about the exact arithmetic the
  floats approximate. The one place where the floats change a sign, the underflow of the
  exponential inside the softmax of the attention, has a section of its own, after the
  model.

  One batch element of a tensor with a length axis and a channel axis is the list of its
  positions, each position the vector of its channels, whether torch holds it as
  [batch, len, channels] or as [batch, channels, len]: \<open>permute(0, 2, 1)\<close> moves between
  the two layouts and changes nothing in this representation. A batch is the list of its
  elements. Every torch operation of the model works on each batch element on its own.

  Only the failures the model's own control flow can reach are values of \<open>error\<close>: the
  assertion of the encoder's constructor, an embedding index outside its table, a
  convolution whose kernel is longer than its padded input, a tensor with a negative
  axis, an addition of two sequences of different lengths, a dropout probability outside
  [0, 1], a local name read before any loop iteration has bound it, a loss over
  mismatched or out-of-range targets, a mean over no batch, and a checkpoint file that
  was never written. The widths of the vectors are the ones the constructors set up;
  torch's checks of them are not part of the model.
\<close>

datatype error =
  AssertionError | IndexError | RuntimeError | ValueError | UnboundLocalError
  | ZeroDivisionError | FileNotFoundError

type_synonym vec = "real list"
type_synonym seq = "vec list"
type_synonym tensor = "seq list"

text \<open>
  The random draws of dropout are an argument: a \<open>mask\<close> says which entries (position,
  channel) one dropout call keeps, an \<open>rng\<close> gives the mask of each dropout call of a
  forward pass on one batch element, and a \<open>batch_rng\<close> gives an \<open>rng\<close> to each batch
  element.
\<close>

type_synonym mask = "nat \<Rightarrow> nat \<Rightarrow> bool"
type_synonym rng = "nat \<Rightarrow> mask"
type_synonym batch_rng = "nat \<Rightarrow> rng"

fun collect :: "(error + 'a) list \<Rightarrow> error + 'a list" where
  \<comment> \<open>the results of a run of calls, or the first exception raised\<close>
  "collect [] = Inr []"
| "collect (x # xs) =
     (case x of
        Inl e \<Rightarrow> Inl e
      | Inr v \<Rightarrow> (case collect xs of Inl e \<Rightarrow> Inl e | Inr vs \<Rightarrow> Inr (v # vs)))"

definition dot :: "vec \<Rightarrow> vec \<Rightarrow> real" where
  "dot x y = sum_list (map2 (*) x y)"

definition vadd :: "vec \<Rightarrow> vec \<Rightarrow> vec" where
  "vadd x y = map2 (+) x y"

definition tensor_add :: "seq \<Rightarrow> seq \<Rightarrow> error + seq" where
  \<comment> \<open>\<open>a + b\<close> on two tensors of one shape; torch raises when the lengths differ
      (it would broadcast an axis of size one, which no addition of the model meets).\<close>
  "tensor_add xs ys =
     (if length xs = length ys then Inr (map2 vadd xs ys) else Inl RuntimeError)"

definition tensor_mul :: "seq \<Rightarrow> real \<Rightarrow> seq" where
  \<comment> \<open>\<open>a * self.scale\<close>\<close>
  "tensor_mul xs c = map (map (\<lambda>x. x * c)) xs"

subsection \<open>nn.Embedding\<close>

definition Embedding_lookup :: "seq \<Rightarrow> int \<Rightarrow> error + vec" where
  "Embedding_lookup table i =
     (if 0 \<le> i \<and> i < int (length table) then Inr (table ! nat i) else Inl IndexError)"

definition Embedding_forward :: "seq \<Rightarrow> int list \<Rightarrow> error + seq" where
  "Embedding_forward table idx = collect (map (Embedding_lookup table) idx)"

subsection \<open>nn.Linear\<close>

record Linear =
  in_features :: nat
  out_features :: nat
  lin_weight :: "real list list"
  lin_bias :: "real list"

definition Linear_forward :: "Linear \<Rightarrow> seq \<Rightarrow> seq" where
  "Linear_forward l xs =
     map (\<lambda>x. map (\<lambda>j. dot (lin_weight l ! j) x + lin_bias l ! j) [0..<out_features l]) xs"

subsection \<open>nn.Dropout\<close>

definition dropout_elem :: "real \<Rightarrow> bool \<Rightarrow> bool \<Rightarrow> real \<Rightarrow> real" where
  \<comment> \<open>in training mode an entry is kept and scaled by 1 / (1 - p), or zeroed; in
      evaluation mode the layer is the identity\<close>
  "dropout_elem p training keep x =
     (if training then (if keep then x / (1 - p) else 0) else x)"

definition Dropout_forward :: "real \<Rightarrow> bool \<Rightarrow> mask \<Rightarrow> seq \<Rightarrow> seq" where
  "Dropout_forward p training m xs =
     map (\<lambda>t. map (\<lambda>c. dropout_elem p training (m t c) (xs ! t ! c)) [0..<length (xs ! t)])
       [0..<length xs]"

subsection \<open>F.glu, F.softmax, torch.matmul\<close>

definition sigmoid :: "real \<Rightarrow> real" where
  "sigmoid x = 1 / (1 + exp (- x))"

definition glu :: "vec \<Rightarrow> vec" where
  \<comment> \<open>F.glu along the channel axis: first half times the sigmoid of the second half\<close>
  "glu v = (let h = length v div 2 in map2 (\<lambda>a b. a * sigmoid b) (take h v) (drop h v))"

definition softmax :: "vec \<Rightarrow> vec" where
  "softmax xs = map (\<lambda>x. exp x / sum_list (map exp xs)) xs"

definition matmul_permuted :: "seq \<Rightarrow> seq \<Rightarrow> seq" where
  \<comment> \<open>\<open>torch.matmul(a, b.permute(0, 2, 1))\<close>: entry [t][s] is the dot product of
      position t of a with position s of b\<close>
  "matmul_permuted a b = map (\<lambda>x. map (\<lambda>y. dot x y) b) a"

definition matmul :: "seq \<Rightarrow> seq \<Rightarrow> seq" where
  \<comment> \<open>\<open>torch.matmul(a, b)\<close>: row t is the sum of the rows of b weighted by row t of a\<close>
  "matmul a b = map (\<lambda>x. map (\<lambda>col. dot x col) (transpose b)) a"

subsection \<open>nn.Conv1d\<close>

record Conv1d =
  in_channels :: nat
  out_channels :: nat
  conv_kernel_size :: nat
  conv_padding :: nat
  conv_weight :: "real list list list"
  conv_bias :: "real list"

definition conv_window :: "Conv1d \<Rightarrow> seq \<Rightarrow> vec" where
  \<comment> \<open>one output position: for each output channel, the bias plus the weighted sum over
      the kernel's positions and the input channels; the weight is indexed
      [output channel][input channel][kernel position]\<close>
  "conv_window c win =
     map (\<lambda>oc. conv_bias c ! oc +
             sum_list (map (\<lambda>j. sum_list (map (\<lambda>ic. conv_weight c ! oc ! ic ! j * win ! j ! ic)
                                             [0..<in_channels c]))
                         [0..<conv_kernel_size c]))
       [0..<out_channels c]"

definition Conv1d_forward :: "Conv1d \<Rightarrow> seq \<Rightarrow> error + seq" where
  \<comment> \<open>zero padding on both sides, then one window per start position; torch raises when
      the kernel is longer than the padded input\<close>
  "Conv1d_forward c xs =
     (let zeros = replicate (conv_padding c) (replicate (in_channels c) 0);
          padded = zeros @ xs @ zeros
      in if length padded < conv_kernel_size c then Inl RuntimeError
         else Inr (map (\<lambda>t. conv_window c (take (conv_kernel_size c) (drop t padded)))
                     [0..<length padded - conv_kernel_size c + 1]))"

section \<open>Construction\<close>

text \<open>
  The constructors draw the initial parameters at random. The draw is an argument: an
  \<open>initializer\<close> gives the initial value of each entry of each parameter tensor.
\<close>

datatype param =
  Tok_embedding | Pos_embedding
  | Emb2hid_weight | Emb2hid_bias | Hid2emb_weight | Hid2emb_bias
  | Attn_hid2emb_weight | Attn_hid2emb_bias | Attn_emb2hid_weight | Attn_emb2hid_bias
  | Fc_out_weight | Fc_out_bias
  | Conv_weight nat | Conv_bias nat

type_synonym initializer = "param \<Rightarrow> nat \<Rightarrow> nat \<Rightarrow> nat \<Rightarrow> real"

definition Embedding_init :: "initializer \<Rightarrow> param \<Rightarrow> nat \<Rightarrow> nat \<Rightarrow> seq" where
  "Embedding_init init name num_embeddings embedding_dim =
     map (\<lambda>i. map (\<lambda>j. init name i j 0) [0..<embedding_dim]) [0..<num_embeddings]"

definition Linear_init :: "initializer \<Rightarrow> param \<Rightarrow> param \<Rightarrow> nat \<Rightarrow> nat \<Rightarrow> Linear" where
  "Linear_init init wname bname n_in n_out =
     \<lparr>in_features = n_in, out_features = n_out,
      lin_weight = map (\<lambda>i. map (\<lambda>j. init wname i j 0) [0..<n_in]) [0..<n_out],
      lin_bias = map (\<lambda>i. init bname i 0 0) [0..<n_out]\<rparr>"

definition Conv1d_init ::
  "initializer \<Rightarrow> nat \<Rightarrow> nat \<Rightarrow> nat \<Rightarrow> int \<Rightarrow> int \<Rightarrow> error + Conv1d" where
  \<comment> \<open>torch allocates the weight [out_channels, in_channels, kernel_size]; it cannot do
      so for a negative kernel size. For kernel size 0 the initialisation of the empty
      weight raises in some releases of torch and only warns in others, which then build
      a layer whose forward pass raises; the model raises at construction in both cases.\<close>
  "Conv1d_init init layer n_in n_out kernel_size padding =
     (if kernel_size \<le> 0 \<or> padding < 0 then Inl RuntimeError
      else Inr \<lparr>in_channels = n_in, out_channels = n_out,
                conv_kernel_size = nat kernel_size, conv_padding = nat padding,
                conv_weight = map (\<lambda>oc. map (\<lambda>ic. map (\<lambda>j. init (Conv_weight layer) oc ic j)
                                                    [0..<nat kernel_size])
                                         [0..<n_in])
                                [0..<n_out],
                conv_bias = map (\<lambda>oc. init (Conv_bias layer) oc 0 0) [0..<n_out]\<rparr>)"

definition Dropout_init :: "real \<Rightarrow> error + real" where
  "Dropout_init p = (if p < 0 \<or> 1 < p then Inl ValueError else Inr p)"

definition default_max_length :: nat where
  \<comment> \<open>\<open>max_length = 100\<close> in the signature of both constructors\<close>
  "default_max_length = 100"

definition scale_constant :: real where
  \<comment> \<open>\<open>torch.sqrt(torch.FloatTensor([0.5]))\<close>\<close>
  "scale_constant = sqrt 0.5"

section \<open>Encoder\<close>

record Encoder =
  enc_scale :: real
  enc_tok_embedding :: seq
  enc_pos_embedding :: seq
  enc_emb2hid :: Linear
  enc_hid2emb :: Linear
  enc_convs :: "Conv1d list"
  enc_dropout :: real
  enc_training :: bool

definition Encoder_init ::
  "nat \<Rightarrow> nat \<Rightarrow> nat \<Rightarrow> nat \<Rightarrow> int \<Rightarrow> real \<Rightarrow> nat \<Rightarrow> initializer \<Rightarrow> error + Encoder" where
  \<comment> \<open>a new nn.Module is in training mode\<close>
  "Encoder_init input_dim emb_dim hid_dim n_layers kernel_size dropout max_length init =
     (if kernel_size mod 2 \<noteq> 1 then Inl AssertionError
      else case collect (map (\<lambda>l. Conv1d_init init l hid_dim (2 * hid_dim) kernel_size
                                     ((kernel_size - 1) div 2))
                           [0..<n_layers]) of
        Inl err \<Rightarrow> Inl err
      | Inr convs \<Rightarrow>
         (case Dropout_init dropout of
            Inl err \<Rightarrow> Inl err
          | Inr p \<Rightarrow>
             Inr \<lparr>enc_scale = scale_constant,
                  enc_tok_embedding = Embedding_init init Tok_embedding input_dim emb_dim,
                  enc_pos_embedding = Embedding_init init Pos_embedding max_length emb_dim,
                  enc_emb2hid = Linear_init init Emb2hid_weight Emb2hid_bias emb_dim hid_dim,
                  enc_hid2emb = Linear_init init Hid2emb_weight Hid2emb_bias hid_dim emb_dim,
                  enc_convs = convs,
                  enc_dropout = p,
                  enc_training = True\<rparr>))"

text \<open>
  The loop over the convolutional blocks. Dropout call 0 is the one on the embeddings,
  block number \<open>i\<close> makes call \<open>i + 1\<close>. The loop's state is \<open>conv_input\<close> and the local
  \<open>conved\<close>, which no value is bound to before the first iteration.
\<close>

fun Encoder_blocks ::
  "Encoder \<Rightarrow> rng \<Rightarrow> nat \<Rightarrow> Conv1d list \<Rightarrow> seq \<Rightarrow> seq option \<Rightarrow> error + seq option" where
  "Encoder_blocks e r i [] conv_input conved = Inr conved"
| "Encoder_blocks e r i (conv # convs) conv_input conved =
     (case Conv1d_forward conv
             (Dropout_forward (enc_dropout e) (enc_training e) (r (i + 1)) conv_input) of
        Inl err \<Rightarrow> Inl err
      | Inr conved1 \<Rightarrow>
         (case tensor_add (map glu conved1) conv_input of
            Inl err \<Rightarrow> Inl err
          | Inr s \<Rightarrow>
             (let conved2 = tensor_mul s (enc_scale e)
              in Encoder_blocks e r (i + 1) convs conved2 (Some conved2))))"

definition Encoder_element :: "Encoder \<Rightarrow> rng \<Rightarrow> int list \<Rightarrow> error + seq \<times> seq" where
  \<comment> \<open>Encoder.forward on one element of the batch\<close>
  "Encoder_element e r src =
     (let src_len = length src;
          pos = map int [0..<src_len]
      in case Embedding_forward (enc_tok_embedding e) src of
        Inl err \<Rightarrow> Inl err
      | Inr tok_embedded \<Rightarrow>
      (case Embedding_forward (enc_pos_embedding e) pos of
        Inl err \<Rightarrow> Inl err
      | Inr pos_embedded \<Rightarrow>
      (case tensor_add tok_embedded pos_embedded of
        Inl err \<Rightarrow> Inl err
      | Inr s \<Rightarrow>
      (let embedded = Dropout_forward (enc_dropout e) (enc_training e) (r 0) s;
           conv_input = Linear_forward (enc_emb2hid e) embedded
       in case Encoder_blocks e r 0 (enc_convs e) conv_input None of
        Inl err \<Rightarrow> Inl err
      | Inr None \<Rightarrow> Inl UnboundLocalError
      | Inr (Some conved) \<Rightarrow>
      (let conved_emb = Linear_forward (enc_hid2emb e) conved
       in case tensor_add conved_emb embedded of
        Inl err \<Rightarrow> Inl err
      | Inr s2 \<Rightarrow> Inr (conved_emb, tensor_mul s2 (enc_scale e)))))))"

definition Encoder_forward ::
  "Encoder \<Rightarrow> batch_rng \<Rightarrow> int list list \<Rightarrow> error + tensor \<times> tensor" where
  "Encoder_forward e r src =
     (case collect (map (\<lambda>b. Encoder_element e (r b) (src ! b)) [0..<length src]) of
        Inl err \<Rightarrow> Inl err
      | Inr outs \<Rightarrow> Inr (map fst outs, map snd outs))"

section \<open>Decoder\<close>

record Decoder =
  dec_kernel_size :: int
  dec_trg_pad_idx :: int
  dec_scale :: real
  dec_tok_embedding :: seq
  dec_pos_embedding :: seq
  dec_emb2hid :: Linear
  dec_hid2emb :: Linear
  dec_attn_hid2emb :: Linear
  dec_attn_emb2hid :: Linear
  dec_fc_out :: Linear
  dec_convs :: "Conv1d list"
  dec_dropout :: real
  dec_training :: bool

definition Decoder_init ::
  "nat \<Rightarrow> nat \<Rightarrow> nat \<Rightarrow> nat \<Rightarrow> int \<Rightarrow> real \<Rightarrow> int \<Rightarrow> nat \<Rightarrow> initializer \<Rightarrow> error + Decoder" where
  "Decoder_init output_dim emb_dim hid_dim n_layers kernel_size dropout trg_pad_idx max_length init =
     (case collect (map (\<lambda>l. Conv1d_init init l hid_dim (2 * hid_dim) kernel_size 0)
                      [0..<n_layers]) of
        Inl err \<Rightarrow> Inl err
      | Inr convs \<Rightarrow>
         (case Dropout_init dropout of
            Inl err \<Rightarrow> Inl err
          | Inr p \<Rightarrow>
             Inr \<lparr>dec_kernel_size = kernel_size,
                  dec_trg_pad_idx = trg_pad_idx,
                  dec_scale = scale_constant,
                  dec_tok_embedding = Embedding_init init Tok_embedding output_dim emb_dim,
                  dec_pos_embedding = Embedding_init init Pos_embedding max_length emb_dim,
                  dec_emb2hid = Linear_init init Emb2hid_weight Emb2hid_bias emb_dim hid_dim,
                  dec_hid2emb = Linear_init init Hid2emb_weight Hid2emb_bias hid_dim emb_dim,
                  dec_attn_hid2emb =
                    Linear_init init Attn_hid2emb_weight Attn_hid2emb_bias hid_dim emb_dim,
                  dec_attn_emb2hid =
                    Linear_init init Attn_emb2hid_weight Attn_emb2hid_bias emb_dim hid_dim,
                  dec_fc_out = Linear_init init Fc_out_weight Fc_out_bias emb_dim output_dim,
                  dec_convs = convs,
                  dec_dropout = p,
                  dec_training = True\<rparr>))"

definition calculate_attention ::
  "Decoder \<Rightarrow> seq \<Rightarrow> seq \<Rightarrow> seq \<Rightarrow> seq \<Rightarrow> error + seq \<times> seq" where
  "calculate_attention d embedded conved encoder_conved encoder_combined =
     (let conved_emb = Linear_forward (dec_attn_hid2emb d) conved
      in case tensor_add conved_emb embedded of
        Inl err \<Rightarrow> Inl err
      | Inr s \<Rightarrow>
      (let combined = tensor_mul s (dec_scale d);
           energy = matmul_permuted combined encoder_conved;
           attention = map softmax energy;
           attended_encoding = matmul attention encoder_combined;
           attended_encoding2 = Linear_forward (dec_attn_emb2hid d) attended_encoding
       in case tensor_add conved attended_encoding2 of
        Inl err \<Rightarrow> Inl err
      | Inr s2 \<Rightarrow> Inr (attention, tensor_mul s2 (dec_scale d))))"

definition decoder_padding :: "Decoder \<Rightarrow> nat \<Rightarrow> error + seq" where
  \<comment> \<open>\<open>torch.zeros(batch_size, hid_dim, self.kernel_size - 1).fill_(self.trg_pad_idx)\<close>:
      kernel_size - 1 positions, every channel the pad index as a number\<close>
  "decoder_padding d hid_dim =
     (if dec_kernel_size d - 1 < 0 then Inl RuntimeError
      else Inr (replicate (nat (dec_kernel_size d - 1))
                  (replicate hid_dim (real_of_int (dec_trg_pad_idx d)))))"

text \<open>
  The decoder's loop over its blocks: dropout call \<open>i + 1\<close> in block \<open>i\<close>; the state is
  \<open>conv_input\<close> and the locals \<open>conved\<close> and \<open>attention\<close>, unbound before the first
  iteration.
\<close>

fun Decoder_blocks ::
  "Decoder \<Rightarrow> rng \<Rightarrow> nat \<Rightarrow> nat \<Rightarrow> seq \<Rightarrow> seq \<Rightarrow> seq \<Rightarrow> Conv1d list \<Rightarrow> seq \<Rightarrow> (seq \<times> seq) option
     \<Rightarrow> error + (seq \<times> seq) option" where
  "Decoder_blocks d r hid_dim i embedded encoder_conved encoder_combined [] conv_input st = Inr st"
| "Decoder_blocks d r hid_dim i embedded encoder_conved encoder_combined (conv # convs) conv_input st =
     (let conv_input1 = Dropout_forward (dec_dropout d) (dec_training d) (r (i + 1)) conv_input
      in case decoder_padding d hid_dim of
        Inl err \<Rightarrow> Inl err
      | Inr padding \<Rightarrow>
      (let padded_conv_input = padding @ conv_input1
       in case Conv1d_forward conv padded_conv_input of
        Inl err \<Rightarrow> Inl err
      | Inr conved1 \<Rightarrow>
      (case calculate_attention d embedded (map glu conved1) encoder_conved encoder_combined of
        Inl err \<Rightarrow> Inl err
      | Inr (attention, conved2) \<Rightarrow>
      (case tensor_add conved2 conv_input1 of
        Inl err \<Rightarrow> Inl err
      | Inr s \<Rightarrow>
      (let conved3 = tensor_mul s (dec_scale d)
       in Decoder_blocks d r hid_dim (i + 1) embedded encoder_conved encoder_combined convs
            conved3 (Some (conved3, attention)))))))"

definition Decoder_element ::
  "Decoder \<Rightarrow> rng \<Rightarrow> int list \<Rightarrow> seq \<Rightarrow> seq \<Rightarrow> error + seq \<times> seq" where
  \<comment> \<open>Decoder.forward on one element of the batch; \<open>conv_input.shape[1]\<close> is the number
      of output features of \<open>emb2hid\<close>, which made \<open>conv_input\<close>\<close>
  "Decoder_element d r trg encoder_conved encoder_combined =
     (let trg_len = length trg;
          pos = map int [0..<trg_len]
      in case Embedding_forward (dec_tok_embedding d) trg of
        Inl err \<Rightarrow> Inl err
      | Inr tok_embedded \<Rightarrow>
      (case Embedding_forward (dec_pos_embedding d) pos of
        Inl err \<Rightarrow> Inl err
      | Inr pos_embedded \<Rightarrow>
      (case tensor_add tok_embedded pos_embedded of
        Inl err \<Rightarrow> Inl err
      | Inr s \<Rightarrow>
      (let embedded = Dropout_forward (dec_dropout d) (dec_training d) (r 0) s;
           conv_input = Linear_forward (dec_emb2hid d) embedded;
           hid_dim = out_features (dec_emb2hid d)
       in case Decoder_blocks d r hid_dim 0 embedded encoder_conved encoder_combined
                 (dec_convs d) conv_input None of
        Inl err \<Rightarrow> Inl err
      | Inr None \<Rightarrow> Inl UnboundLocalError
      | Inr (Some (conved, attention)) \<Rightarrow>
      (let conved_emb = Linear_forward (dec_hid2emb d) conved;
           output = Linear_forward (dec_fc_out d)
                      (Dropout_forward (dec_dropout d) (dec_training d)
                         (r (length (dec_convs d) + 1)) conved_emb)
       in Inr (output, attention))))))"

definition Decoder_forward ::
  "Decoder \<Rightarrow> batch_rng \<Rightarrow> int list list \<Rightarrow> tensor \<Rightarrow> tensor \<Rightarrow> error + tensor \<times> tensor" where
  \<comment> \<open>The encoder outputs have the batch size of \<open>trg\<close>, as in every call the notebook
      makes (Seq2Seq.forward on the two sides of one batch). Any other batch size is an
      error here; torch.matmul raises too, except that it broadcasts a batch of size
      one, a call this model does not follow.\<close>
  "Decoder_forward d r trg encoder_conved encoder_combined =
     (if length encoder_conved \<noteq> length trg \<or> length encoder_combined \<noteq> length trg
      then Inl RuntimeError
      else case collect (map (\<lambda>b. Decoder_element d (r b) (trg ! b)
                                (encoder_conved ! b) (encoder_combined ! b))
                      [0..<length trg]) of
        Inl err \<Rightarrow> Inl err
      | Inr outs \<Rightarrow> Inr (map fst outs, map snd outs))"

section \<open>Seq2Seq\<close>

record Seq2Seq =
  encoder :: Encoder
  decoder :: Decoder

definition Seq2Seq_forward ::
  "Seq2Seq \<Rightarrow> batch_rng \<times> batch_rng \<Rightarrow> int list list \<Rightarrow> int list list \<Rightarrow> error + tensor \<times> tensor" where
  \<comment> \<open>the two dropout layers draw their own masks: one \<open>batch_rng\<close> each\<close>
  "Seq2Seq_forward m r src trg =
     (case Encoder_forward (encoder m) (fst r) src of
        Inl err \<Rightarrow> Inl err
      | Inr (encoder_conved, encoder_combined) \<Rightarrow>
          Decoder_forward (decoder m) (snd r) trg encoder_conved encoder_combined)"

section \<open>Training and evaluation\<close>

record batch =
  batch_src :: "int list list"
  batch_trg :: "int list list"

type_synonym criterion = "seq \<Rightarrow> int list \<Rightarrow> error + real"

definition CrossEntropyLoss :: "int \<Rightarrow> criterion" where
  \<comment> \<open>\<open>nn.CrossEntropyLoss(ignore_index = ...)\<close>: the mean, over the targets that are not
      the ignored index, of minus the logarithm of the softmax at the target. When every
      target is ignored torch returns nan, which the reals do not have: the value here
      is then 0.\<close>
  "CrossEntropyLoss ignore_index output target =
     (if length output \<noteq> length target then Inl ValueError
      else if list_ex (\<lambda>(x, t). t \<noteq> ignore_index \<and> (t < 0 \<or> int (length x) \<le> t))
                (zip output target)
      then Inl IndexError
      else (let kept = filter (\<lambda>(x, t). t \<noteq> ignore_index) (zip output target)
            in Inr (sum_list (map (\<lambda>(x, t). - ln (softmax x ! nat t)) kept)
                    / real (length kept))))"

definition batch_loss ::
  "Seq2Seq \<Rightarrow> criterion \<Rightarrow> batch_rng \<times> batch_rng \<Rightarrow> batch \<Rightarrow> error + real" where
  \<comment> \<open>the body shared by the loops of \<open>train\<close> and \<open>evaluate\<close>: the model on \<open>src\<close> and
      \<open>trg[:, :-1]\<close>, the criterion on the flattened output and the flattened \<open>trg[:, 1:]\<close>\<close>
  "batch_loss m crit r b =
     (case Seq2Seq_forward m r (batch_src b) (map butlast (batch_trg b)) of
        Inl err \<Rightarrow> Inl err
      | Inr (output, attention) \<Rightarrow> crit (concat output) (concat (map tl (batch_trg b))))"

fun evaluate_loop ::
  "Seq2Seq \<Rightarrow> criterion \<Rightarrow> (nat \<Rightarrow> batch_rng \<times> batch_rng) \<Rightarrow> nat \<Rightarrow> batch list \<Rightarrow> real
     \<Rightarrow> error + real" where
  "evaluate_loop m crit r i [] epoch_loss = Inr epoch_loss"
| "evaluate_loop m crit r i (b # bs) epoch_loss =
     (case batch_loss m crit (r i) b of
        Inl err \<Rightarrow> Inl err
      | Inr loss \<Rightarrow> evaluate_loop m crit r (i + 1) bs (epoch_loss + loss))"

definition evaluate ::
  "Seq2Seq \<Rightarrow> (nat \<Rightarrow> batch_rng \<times> batch_rng) \<Rightarrow> batch list \<Rightarrow> criterion \<Rightarrow> error + real" where
  \<comment> \<open>\<open>evaluate\<close> runs the model as it is: it does not touch the module's training flag.
      \<open>r i\<close> are the random draws available to dropout in batch \<open>i\<close>.\<close>
  "evaluate m r iterator crit =
     (case evaluate_loop m crit r 0 iterator 0 of
        Inl err \<Rightarrow> Inl err
      | Inr epoch_loss \<Rightarrow>
          if length iterator = 0 then Inl ZeroDivisionError
          else Inr (epoch_loss / real (length iterator)))"

definition Module_train :: "Seq2Seq \<Rightarrow> Seq2Seq" where
  \<comment> \<open>\<open>model.train()\<close>\<close>
  "Module_train m =
     m\<lparr>encoder := (encoder m)\<lparr>enc_training := True\<rparr>,
       decoder := (decoder m)\<lparr>dec_training := True\<rparr>\<rparr>"

text \<open>
  \<open>loss.backward()\<close>, the gradient clipping and \<open>optimizer.step()\<close> are torch's: together
  they are an argument, an \<open>update\<close> that gives the optimizer's next state and the model's
  next parameters from the current ones, the batch and the random draws of the pass.
\<close>

type_synonym 'o update = "'o \<Rightarrow> Seq2Seq \<Rightarrow> batch \<Rightarrow> batch_rng \<times> batch_rng \<Rightarrow> 'o \<times> Seq2Seq"

fun train_loop ::
  "'o update \<Rightarrow> criterion \<Rightarrow> (nat \<Rightarrow> batch_rng \<times> batch_rng) \<Rightarrow> nat \<Rightarrow> batch list
     \<Rightarrow> Seq2Seq \<Rightarrow> 'o \<Rightarrow> real \<Rightarrow> error + Seq2Seq \<times> 'o \<times> real" where
  "train_loop upd crit r i [] m opt epoch_loss = Inr (m, opt, epoch_loss)"
| "train_loop upd crit r i (b # bs) m opt epoch_loss =
     (case batch_loss m crit (r i) b of
        Inl err \<Rightarrow> Inl err
      | Inr loss \<Rightarrow>
          (case upd opt m b (r i) of
             (opt1, m1) \<Rightarrow> train_loop upd crit r (i + 1) bs m1 opt1 (epoch_loss + loss)))"

definition train ::
  "Seq2Seq \<Rightarrow> 'o \<Rightarrow> 'o update \<Rightarrow> (nat \<Rightarrow> batch_rng \<times> batch_rng) \<Rightarrow> batch list \<Rightarrow> criterion
     \<Rightarrow> error + Seq2Seq \<times> 'o \<times> real" where
  "train m opt upd r iterator crit =
     (case train_loop upd crit r 0 iterator (Module_train m) opt 0 of
        Inl err \<Rightarrow> Inl err
      | Inr (m1, opt1, epoch_loss) \<Rightarrow>
          if length iterator = 0 then Inl ZeroDivisionError
          else Inr (m1, opt1, epoch_loss / real (length iterator)))"

text \<open>
  The epoch loop of the notebook. \<open>best_valid_loss\<close> starts at \<open>float('inf')\<close>, here
  \<open>None\<close>. \<open>checkpoint\<close> is the content of the file \<open>tut5-model.pt\<close>, \<open>None\<close> while it
  does not exist; \<open>written\<close> lists the epochs whose iteration called \<open>torch.save\<close>, and
  \<open>printed\<close> the train and validation losses each epoch prints.
\<close>

record 'o run =
  run_model :: Seq2Seq
  run_optimizer :: 'o
  best_valid_loss :: "real option"
  checkpoint :: "Seq2Seq option"
  written :: "nat list"
  printed :: "(real \<times> real) list"

definition less_best :: "real \<Rightarrow> real option \<Rightarrow> bool" where
  \<comment> \<open>\<open>valid_loss < best_valid_loss\<close>\<close>
  "less_best valid_loss best = (case best of None \<Rightarrow> True | Some b \<Rightarrow> valid_loss < b)"

definition epoch_step ::
  "'o update \<Rightarrow> criterion \<Rightarrow> (nat \<Rightarrow> bool \<Rightarrow> nat \<Rightarrow> batch_rng \<times> batch_rng)
     \<Rightarrow> batch list \<Rightarrow> batch list \<Rightarrow> nat \<Rightarrow> 'o run \<Rightarrow> error + 'o run" where
  \<comment> \<open>one iteration; \<open>r epoch False\<close> are the draws of \<open>train\<close>, \<open>r epoch True\<close> those of
      \<open>evaluate\<close>. The validation loss is \<open>evaluate(model, train_iterator, criterion)\<close>:
      \<open>valid_iterator\<close> is not read.\<close>
  "epoch_step upd crit r train_iterator valid_iterator epoch st =
     (case train (run_model st) (run_optimizer st) upd (r epoch False) train_iterator crit of
        Inl err \<Rightarrow> Inl err
      | Inr (m1, opt1, train_loss) \<Rightarrow>
      (case evaluate m1 (r epoch True) train_iterator crit of
        Inl err \<Rightarrow> Inl err
      | Inr valid_loss \<Rightarrow>
          (let st1 = st\<lparr>run_model := m1, run_optimizer := opt1,
                        printed := printed st @ [(train_loss, valid_loss)]\<rparr>
           in if less_best valid_loss (best_valid_loss st)
              then Inr (st1\<lparr>best_valid_loss := Some valid_loss,
                             checkpoint := Some m1,
                             written := written st @ [epoch]\<rparr>)
              else Inr st1)))"

fun epoch_loop ::
  "'o update \<Rightarrow> criterion \<Rightarrow> (nat \<Rightarrow> bool \<Rightarrow> nat \<Rightarrow> batch_rng \<times> batch_rng)
     \<Rightarrow> batch list \<Rightarrow> batch list \<Rightarrow> nat list \<Rightarrow> 'o run \<Rightarrow> error + 'o run" where
  "epoch_loop upd crit r train_iterator valid_iterator [] st = Inr st"
| "epoch_loop upd crit r train_iterator valid_iterator (epoch # epochs) st =
     (case epoch_step upd crit r train_iterator valid_iterator epoch st of
        Inl err \<Rightarrow> Inl err
      | Inr st1 \<Rightarrow> epoch_loop upd crit r train_iterator valid_iterator epochs st1)"

definition load_state_dict :: "Seq2Seq \<Rightarrow> Seq2Seq \<Rightarrow> Seq2Seq" where
  \<comment> \<open>the parameters of the saved model; the training flags are not part of a state
      dictionary and stay as they are\<close>
  "load_state_dict m saved =
     saved\<lparr>encoder := (encoder saved)\<lparr>enc_training := enc_training (encoder m)\<rparr>,
           decoder := (decoder saved)\<lparr>dec_training := dec_training (decoder m)\<rparr>\<rparr>"

definition training_run ::
  "Seq2Seq \<Rightarrow> 'o \<Rightarrow> 'o update \<Rightarrow> criterion \<Rightarrow> (nat \<Rightarrow> bool \<Rightarrow> nat \<Rightarrow> batch_rng \<times> batch_rng)
     \<Rightarrow> batch list \<Rightarrow> batch list \<Rightarrow> nat \<Rightarrow> error + 'o run" where
  \<comment> \<open>the epoch loop from a fresh state, then \<open>model.load_state_dict(torch.load(...))\<close>\<close>
  "training_run m opt upd crit r train_iterator valid_iterator n_epochs =
     (case epoch_loop upd crit r train_iterator valid_iterator [0..<n_epochs]
             \<lparr>run_model = m, run_optimizer = opt, best_valid_loss = None,
              checkpoint = None, written = [], printed = []\<rparr> of
        Inl err \<Rightarrow> Inl err
      | Inr st \<Rightarrow>
          (case checkpoint st of
             None \<Rightarrow> Inl FileNotFoundError
           | Some saved \<Rightarrow> Inr (st\<lparr>run_model := load_state_dict (run_model st) saved\<rparr>)))"

section \<open>The attention in 32-bit floats\<close>

text \<open>
  Over the reals the exponential is never 0, so every weight of a softmax is positive.
  The tensors of the notebook are 32-bit floats, and there F.softmax returns exactly 0
  for an entry far enough below the largest entry of its row. torch computes the row as
  exp (x - m) divided by the sum of all exp (y - m), where m is the largest entry of
  the row. The float nearest to exp z is 0 as soon as exp z is at most 2 to the power
  -150, half of the least positive float: that is, as soon as z is at most -150 ln 2,
  about -103.97.

  This section repeats the attention and the decoder's forward pass with this one effect
  of the floats. \<open>exp_float32\<close> is 0 at and below the bound and the exact exponential above
  it; all other arithmetic stays exact. So, up to the rounding of the energies
  themselves, a weight these definitions give as 0 is exactly 0 in the floats; a weight
  they give as positive is within rounding of the float, which for a weight close to
  the bound may itself be 0.
\<close>

definition exp_float32 :: "real \<Rightarrow> real" where
  "exp_float32 z = (if z \<le> - 150 * ln 2 then 0 else exp z)"

definition softmax_float32 :: "vec \<Rightarrow> vec" where
  \<comment> \<open>F.softmax along the last axis: the largest entry of the row is subtracted first\<close>
  "softmax_float32 xs =
     (let m = Max (set xs);
          e = map (\<lambda>x. exp_float32 (x - m)) xs
      in map (\<lambda>v. v / sum_list e) e)"






section \<open>Concrete inputs\<close>

text \<open>
  A model small enough to follow by hand: vocabularies of five tokens (0 unknown, 1 pad,
  2 start, 3 end, 4 a word), embedding and hidden width 1, one block with kernel size 1
  in the encoder and in the decoder, dropout probability 1/2, four positions. Every
  initial parameter is 0 except the bias of \<open>hid2emb\<close>, which is 1, and the weight of
  \<open>fc_out\<close> for token 3, which is 1.
\<close>

definition tiny_init :: initializer where
  "tiny_init name i j k =
     (if name = Hid2emb_bias then 1
      else if name = Fc_out_weight \<and> i = 3 then 1
      else 0)"

definition keep_all :: "batch_rng \<times> batch_rng" where
  \<comment> \<open>draws under which dropout keeps every entry\<close>
  "keep_all = (\<lambda>b n t c. True, \<lambda>b n t c. True)"

definition drop_all :: "batch_rng \<times> batch_rng" where
  \<comment> \<open>draws under which dropout zeroes every entry\<close>
  "drop_all = (\<lambda>b n t c. False, \<lambda>b n t c. False)"

definition tiny_batch :: batch where
  \<comment> \<open>one pair: the decoder reads [start] and is to predict [end]\<close>
  "tiny_batch = \<lparr>batch_src = [[2, 3]], batch_trg = [[2, 3]]\<rparr>"

definition held_out_batch :: batch where
  \<comment> \<open>one pair: the decoder reads [start] and is to predict [word]\<close>
  "held_out_batch = \<lparr>batch_src = [[2, 3]], batch_trg = [[2, 4]]\<rparr>"

definition tiny_update :: "nat update" where
  \<comment> \<open>an optimizer that counts its steps and, at step n, leaves \<open>fc_out\<close> with weight 0
      and the bias n on token 3: it moves the prediction towards token 3\<close>
  "tiny_update opt m b r =
     (opt + 1,
      m\<lparr>decoder := (decoder m)\<lparr>dec_fc_out :=
           \<lparr>in_features = 1, out_features = 5,
            lin_weight = [[0], [0], [0], [0], [0]],
            lin_bias = [0, 0, 0, real opt, 0]\<rparr>\<rparr>\<rparr>)"




section \<open>Properties\<close>

subsection \<open>Sequences of calls, embeddings, softmax\<close>

lemma collect_Inr_iff: "collect xs = Inr vs \<longleftrightarrow> xs = map Inr vs"
proof (induction xs arbitrary: vs)
  case Nil
  show ?case by auto
next
  case (Cons x xs)
  show ?case
  proof (cases x)
    case (Inl e)
    then show ?thesis by (cases vs) auto
  next
    case (Inr v)
    show ?thesis
    proof (cases "collect xs")
      case (Inl e)
      with Cons[of "tl vs"] Inr show ?thesis by (cases vs) auto
    next
      case r: (Inr ws)
      with Cons[of ws] Cons[of "tl vs"] Inr show ?thesis by (cases vs) auto
    qed
  qed
qed

lemma collect_map_Inr: "collect (map Inr vs) = Inr vs"
  by (simp add: collect_Inr_iff)

lemma collect_length: "collect xs = Inr vs \<Longrightarrow> length vs = length xs"
  by (auto simp: collect_Inr_iff)

lemma collect_nth: "collect xs = Inr vs \<Longrightarrow> i < length xs \<Longrightarrow> xs ! i = Inr (vs ! i)"
  by (auto simp: collect_Inr_iff)

lemma collect_total:
  assumes "\<And>x. x \<in> set xs \<Longrightarrow> \<exists>v. f x = Inr v"
  shows "\<exists>vs. collect (map f xs) = Inr vs"
  using assms
proof (induction xs)
  case Nil
  show ?case by simp
next
  case (Cons x xs)
  then obtain v where "f x = Inr v" by auto
  moreover from Cons obtain vs where "collect (map f xs) = Inr vs" by auto
  ultimately show ?case by simp
qed

lemma collect_Inl:
  "collect xs = Inl e \<Longrightarrow> \<exists>x\<in>set xs. x = Inl e"
  by (induction xs) (auto split: sum.splits)

lemma Embedding_forward_Inr_iff:
  "Embedding_forward table idx = Inr vs \<longleftrightarrow>
     (\<forall>i\<in>set idx. 0 \<le> i \<and> i < int (length table)) \<and> vs = map (\<lambda>i. table ! nat i) idx"
  unfolding Embedding_forward_def collect_Inr_iff
proof (induction idx arbitrary: vs)
  case Nil
  show ?case by auto
next
  case (Cons i idx)
  show ?case
  proof (cases vs)
    case Nil
    then show ?thesis by simp
  next
    case (Cons w ws)
    with Cons.IH[of ws] show ?thesis
      by (auto simp: Embedding_lookup_def)
  qed
qed

lemma softmax_length [simp]: "length (softmax xs) = length xs"
  by (simp add: softmax_def)

lemma sum_list_exp_pos: "xs \<noteq> [] \<Longrightarrow> 0 < sum_list (map exp (xs :: real list))"
proof -
  assume "xs \<noteq> []"
  then obtain y ys where xs: "xs = y # ys" by (cases xs) auto
  have "0 \<le> sum_list (map exp ys)" by (rule sum_list_nonneg) auto
  moreover have "0 < exp y" by simp
  ultimately show ?thesis unfolding xs by (simp add: add_pos_nonneg)
qed

lemma softmax_nth_pos: "i < length xs \<Longrightarrow> 0 < softmax xs ! i"
proof -
  assume i: "i < length xs"
  then have "xs \<noteq> []" by auto
  then have "0 < sum_list (map exp xs)" by (rule sum_list_exp_pos)
  with i show ?thesis by (simp add: softmax_def)
qed

lemma softmax_sum: "xs \<noteq> [] \<Longrightarrow> sum_list (softmax xs) = 1"
proof -
  assume ne: "xs \<noteq> []"
  then have pos: "0 < sum_list (map exp xs)" by (rule sum_list_exp_pos)
  have "sum_list (map (\<lambda>x. exp x / c) ys) = sum_list (map exp ys) / c" for c :: real and ys
    by (induction ys) (auto simp: add_divide_distrib)
  then have "sum_list (softmax xs) = sum_list (map exp xs) / sum_list (map exp xs)"
    by (simp add: softmax_def)
  with pos show ?thesis by simp
qed

subsection \<open>Attention weights\<close>

lemma tensor_add_Inr_iff:
  "tensor_add xs ys = Inr s \<longleftrightarrow> length xs = length ys \<and> s = map2 vadd xs ys"
  by (auto simp: tensor_add_def)

lemma length_tensor_mul [simp]: "length (tensor_mul xs c) = length xs"
  by (simp add: tensor_mul_def)

lemma length_Linear_forward [simp]: "length (Linear_forward l xs) = length xs"
  by (simp add: Linear_forward_def)

lemma length_matmul_permuted [simp]: "length (matmul_permuted a b) = length a"
  by (simp add: matmul_permuted_def)


lemma calculate_attention_Inr:
  assumes "calculate_attention d embedded conved encoder_conved encoder_combined
             = Inr (attention, attended_combined)"
  shows "length embedded = length conved"
    and "attention = map softmax (matmul_permuted
           (tensor_mul (map2 vadd (Linear_forward (dec_attn_hid2emb d) conved) embedded)
              (dec_scale d)) encoder_conved)"
    and "attended_combined = tensor_mul (map2 vadd conved
           (Linear_forward (dec_attn_emb2hid d) (matmul attention encoder_combined)))
           (dec_scale d)"
  using assms
  by (auto simp: calculate_attention_def Let_def tensor_add_Inr_iff split: sum.splits)

text \<open>
  Claim C4. Whatever \<open>calculate_attention\<close> is called on, for each batch element the
  attention matrix it returns has one row per target position, and over a source of at
  least one position every row has one weight per source position, all of them
  non-negative and summing to 1 (over the reals; the source is never empty, since the
  encoder's convolution rejects an empty sequence).
\<close>

theorem attention_row_stochastic:
  assumes "calculate_attention d embedded conved encoder_conved encoder_combined
             = Inr (attention, attended_combined)"
    and "encoder_conved \<noteq> []"
  shows "length attention = length conved \<and>
         (\<forall>row\<in>set attention. length row = length encoder_conved \<and>
                               (\<forall>w\<in>set row. 0 \<le> w) \<and> sum_list row = 1)"
proof -
  note att = calculate_attention_Inr(1,2)[OF assms(1)]
  have len: "length attention = length conved"
    using att by simp
  have rows: "length row = length encoder_conved \<and> (\<forall>w\<in>set row. 0 \<le> w) \<and> sum_list row = 1"
    if "row \<in> set attention" for row
  proof -
    from that att(2) obtain en where en: "row = softmax en" "length en = length encoder_conved"
      by (auto simp: matmul_permuted_def)
    with assms(2) have ne: "en \<noteq> []" by auto
    have "0 \<le> w" if "w \<in> set row" for w
    proof -
      from that obtain i where "i < length en" "w = softmax en ! i"
        unfolding en(1) by (metis in_set_conv_nth softmax_length)
      then show ?thesis using softmax_nth_pos[of i en] by simp
    qed
    then show ?thesis using en ne by (simp add: softmax_sum)
  qed
  from len rows show ?thesis by blast
qed

subsection \<open>Constructors\<close>

lemma Conv1d_init_Inr:
  assumes "Conv1d_init init l n_in n_out k p = Inr c"
  shows "0 < k" "0 \<le> p" "conv_kernel_size c = nat k" "conv_padding c = nat p"
        "in_channels c = n_in" "out_channels c = n_out"
  using assms by (auto simp: Conv1d_init_def split: if_splits)

lemma Conv1d_init_total:
  "0 < k \<Longrightarrow> 0 \<le> p \<Longrightarrow> \<exists>c. Conv1d_init init l n_in n_out k p = Inr c"
  by (simp add: Conv1d_init_def)

lemma Conv1d_init_fail:
  "\<not> (0 < k \<and> 0 \<le> p) \<Longrightarrow> Conv1d_init init l n_in n_out k p = Inl RuntimeError"
  by (auto simp: Conv1d_init_def)

lemma convs_init_Inr:
  assumes "collect (map (\<lambda>l. Conv1d_init init l n_in n_out k p) [0..<n]) = Inr convs"
  shows "length convs = n"
    and "c \<in> set convs \<Longrightarrow>
           0 < k \<and> 0 \<le> p \<and> conv_kernel_size c = nat k \<and> conv_padding c = nat p \<and>
           in_channels c = n_in \<and> out_channels c = n_out"
proof -
  from assms show len: "length convs = n"
    by (auto dest: collect_length)
  assume "c \<in> set convs"
  then obtain i where i: "i < n" "c = convs ! i"
    using len by (auto simp: in_set_conv_nth)
  with collect_nth[OF assms, of i] have ci: "Conv1d_init init i n_in n_out k p = Inr c"
    by simp
  show "0 < k \<and> 0 \<le> p \<and> conv_kernel_size c = nat k \<and> conv_padding c = nat p \<and>
           in_channels c = n_in \<and> out_channels c = n_out"
    using Conv1d_init_Inr[OF ci] by simp
qed

lemma convs_init_total:
  assumes "0 < k" "0 \<le> p"
  shows "\<exists>convs. collect (map (\<lambda>l. Conv1d_init init l n_in n_out k p) [0..<n]) = Inr convs"
  by (rule collect_total) (use assms in \<open>simp add: Conv1d_init_total\<close>)

lemma Dropout_init_Inr_iff: "Dropout_init p = Inr q \<longleftrightarrow> 0 \<le> p \<and> p \<le> 1 \<and> q = p"
  by (auto simp: Dropout_init_def)

lemma Encoder_init_even:
  "kernel_size mod 2 = 0 \<Longrightarrow>
   Encoder_init input_dim emb_dim hid_dim n_layers kernel_size dropout max_length init
     = Inl AssertionError"
  by (simp add: Encoder_init_def)

lemma Encoder_init_total:
  assumes "kernel_size mod 2 = 1" "0 < kernel_size" "0 \<le> dropout" "dropout \<le> 1"
  shows "\<exists>e. Encoder_init input_dim emb_dim hid_dim n_layers kernel_size dropout max_length init
              = Inr e"
proof -
  from assms(2) have "0 \<le> (kernel_size - 1) div 2" by simp
  from convs_init_total[OF assms(2) this]
  obtain convs where "collect (map (\<lambda>l. Conv1d_init init l hid_dim (2 * hid_dim) kernel_size
                                     ((kernel_size - 1) div 2)) [0..<n_layers]) = Inr convs"
    by blast
  with assms show ?thesis
    by (simp add: Encoder_init_def Dropout_init_def)
qed

lemma Decoder_init_total:
  assumes "0 < kernel_size" "0 \<le> dropout" "dropout \<le> 1"
  shows "\<exists>d. Decoder_init output_dim emb_dim hid_dim n_layers kernel_size dropout trg_pad_idx
              max_length init = Inr d"
proof -
  from convs_init_total[OF assms(1), of 0]
  obtain convs where "collect (map (\<lambda>l. Conv1d_init init l hid_dim (2 * hid_dim) kernel_size 0)
                                 [0..<n_layers]) = Inr convs"
    by blast
  with assms show ?thesis
    by (simp add: Decoder_init_def Dropout_init_def)
qed

text \<open>
  Claim C3. An even kernel size fails the assertion of the encoder's constructor,
  whatever the other arguments. The decoder's constructor has no such check: with an
  even kernel size, positive as a kernel size is, and a dropout probability that
  nn.Dropout accepts, it returns a decoder. With an odd positive kernel size the encoder's
  constructor returns an encoder.
\<close>

theorem kernel_size_validation:
  "(kernel_size mod 2 = 0 \<longrightarrow>
      Encoder_init input_dim emb_dim hid_dim n_layers kernel_size dropout max_length init
        = Inl AssertionError) \<and>
   (kernel_size mod 2 = 0 \<and> 0 < kernel_size \<and> 0 \<le> dropout \<and> dropout \<le> 1 \<longrightarrow>
      (\<exists>d. Decoder_init output_dim emb_dim hid_dim n_layers kernel_size dropout trg_pad_idx
              max_length init = Inr d)) \<and>
   (kernel_size mod 2 = 1 \<and> 0 < kernel_size \<and> 0 \<le> dropout \<and> dropout \<le> 1 \<longrightarrow>
      (\<exists>e. Encoder_init input_dim emb_dim hid_dim n_layers kernel_size dropout max_length init
              = Inr e))"
proof (intro conjI impI)
  assume "kernel_size mod 2 = 0"
  then show "Encoder_init input_dim emb_dim hid_dim n_layers kernel_size dropout max_length init
        = Inl AssertionError"
    by (rule Encoder_init_even)
next
  assume "kernel_size mod 2 = 0 \<and> 0 < kernel_size \<and> 0 \<le> dropout \<and> dropout \<le> 1"
  then show "\<exists>d. Decoder_init output_dim emb_dim hid_dim n_layers kernel_size dropout trg_pad_idx
              max_length init = Inr d"
    by (simp add: Decoder_init_total)
next
  assume "kernel_size mod 2 = 1 \<and> 0 < kernel_size \<and> 0 \<le> dropout \<and> dropout \<le> 1"
  then show "\<exists>e. Encoder_init input_dim emb_dim hid_dim n_layers kernel_size dropout max_length init
              = Inr e"
    by (simp add: Encoder_init_total)
qed

lemma Encoder_init_Inr:
  assumes "Encoder_init input_dim emb_dim hid_dim n_layers kernel_size dropout max_length init
             = Inr e"
  shows "kernel_size mod 2 = 1"
    and "enc_scale e = scale_constant"
    and "enc_tok_embedding e = Embedding_init init Tok_embedding input_dim emb_dim"
    and "enc_pos_embedding e = Embedding_init init Pos_embedding max_length emb_dim"
    and "enc_emb2hid e = Linear_init init Emb2hid_weight Emb2hid_bias emb_dim hid_dim"
    and "enc_hid2emb e = Linear_init init Hid2emb_weight Hid2emb_bias hid_dim emb_dim"
    and "length (enc_convs e) = n_layers"
    and "c \<in> set (enc_convs e) \<Longrightarrow>
           0 < kernel_size \<and> conv_kernel_size c = nat kernel_size \<and>
           conv_padding c = nat ((kernel_size - 1) div 2) \<and>
           in_channels c = hid_dim \<and> out_channels c = 2 * hid_dim"
    and "enc_dropout e = dropout" and "enc_training e"
proof -
  from assms have odd: "kernel_size mod 2 = 1"
    by (auto simp: Encoder_init_def split: if_splits)
  from assms odd obtain convs p where
    convs: "collect (map (\<lambda>l. Conv1d_init init l hid_dim (2 * hid_dim) kernel_size
                                 ((kernel_size - 1) div 2)) [0..<n_layers]) = Inr convs"
    and p: "Dropout_init dropout = Inr p"
    and e: "e = \<lparr>enc_scale = scale_constant,
                  enc_tok_embedding = Embedding_init init Tok_embedding input_dim emb_dim,
                  enc_pos_embedding = Embedding_init init Pos_embedding max_length emb_dim,
                  enc_emb2hid = Linear_init init Emb2hid_weight Emb2hid_bias emb_dim hid_dim,
                  enc_hid2emb = Linear_init init Hid2emb_weight Hid2emb_bias hid_dim emb_dim,
                  enc_convs = convs,
                  enc_dropout = p,
                  enc_training = True\<rparr>"
    by (auto simp: Encoder_init_def split: if_splits sum.splits)
  show "kernel_size mod 2 = 1" by (rule odd)
  show "enc_scale e = scale_constant"
    "enc_tok_embedding e = Embedding_init init Tok_embedding input_dim emb_dim"
    "enc_pos_embedding e = Embedding_init init Pos_embedding max_length emb_dim"
    "enc_emb2hid e = Linear_init init Emb2hid_weight Emb2hid_bias emb_dim hid_dim"
    "enc_hid2emb e = Linear_init init Hid2emb_weight Hid2emb_bias hid_dim emb_dim"
    "enc_training e"
    by (simp_all add: e)
  show "length (enc_convs e) = n_layers"
    using convs_init_Inr(1)[OF convs] by (simp add: e)
  show "enc_dropout e = dropout"
    using p by (simp add: e Dropout_init_Inr_iff)
  show "0 < kernel_size \<and> conv_kernel_size c = nat kernel_size \<and>
           conv_padding c = nat ((kernel_size - 1) div 2) \<and>
           in_channels c = hid_dim \<and> out_channels c = 2 * hid_dim"
    if "c \<in> set (enc_convs e)"
    using convs_init_Inr(2)[OF convs, of c] that by (simp add: e)
qed

lemma Decoder_init_Inr:
  assumes "Decoder_init output_dim emb_dim hid_dim n_layers kernel_size dropout trg_pad_idx
             max_length init = Inr d"
  shows "dec_kernel_size d = kernel_size"
    and "dec_trg_pad_idx d = trg_pad_idx"
    and "dec_scale d = scale_constant"
    and "dec_tok_embedding d = Embedding_init init Tok_embedding output_dim emb_dim"
    and "dec_pos_embedding d = Embedding_init init Pos_embedding max_length emb_dim"
    and "dec_emb2hid d = Linear_init init Emb2hid_weight Emb2hid_bias emb_dim hid_dim"
    and "dec_hid2emb d = Linear_init init Hid2emb_weight Hid2emb_bias hid_dim emb_dim"
    and "dec_fc_out d = Linear_init init Fc_out_weight Fc_out_bias emb_dim output_dim"
    and "length (dec_convs d) = n_layers"
    and "c \<in> set (dec_convs d) \<Longrightarrow>
           0 < kernel_size \<and> conv_kernel_size c = nat kernel_size \<and> conv_padding c = 0 \<and>
           in_channels c = hid_dim \<and> out_channels c = 2 * hid_dim"
    and "dec_dropout d = dropout" and "dec_training d"
proof -
  from assms obtain convs p where
    convs: "collect (map (\<lambda>l. Conv1d_init init l hid_dim (2 * hid_dim) kernel_size 0)
                       [0..<n_layers]) = Inr convs"
    and p: "Dropout_init dropout = Inr p"
    and d: "d = \<lparr>dec_kernel_size = kernel_size,
                  dec_trg_pad_idx = trg_pad_idx,
                  dec_scale = scale_constant,
                  dec_tok_embedding = Embedding_init init Tok_embedding output_dim emb_dim,
                  dec_pos_embedding = Embedding_init init Pos_embedding max_length emb_dim,
                  dec_emb2hid = Linear_init init Emb2hid_weight Emb2hid_bias emb_dim hid_dim,
                  dec_hid2emb = Linear_init init Hid2emb_weight Hid2emb_bias hid_dim emb_dim,
                  dec_attn_hid2emb =
                    Linear_init init Attn_hid2emb_weight Attn_hid2emb_bias hid_dim emb_dim,
                  dec_attn_emb2hid =
                    Linear_init init Attn_emb2hid_weight Attn_emb2hid_bias emb_dim hid_dim,
                  dec_fc_out = Linear_init init Fc_out_weight Fc_out_bias emb_dim output_dim,
                  dec_convs = convs,
                  dec_dropout = p,
                  dec_training = True\<rparr>"
    by (auto simp: Decoder_init_def split: sum.splits)
  show "dec_kernel_size d = kernel_size" "dec_trg_pad_idx d = trg_pad_idx"
    "dec_scale d = scale_constant"
    "dec_tok_embedding d = Embedding_init init Tok_embedding output_dim emb_dim"
    "dec_pos_embedding d = Embedding_init init Pos_embedding max_length emb_dim"
    "dec_emb2hid d = Linear_init init Emb2hid_weight Emb2hid_bias emb_dim hid_dim"
    "dec_hid2emb d = Linear_init init Hid2emb_weight Hid2emb_bias hid_dim emb_dim"
    "dec_fc_out d = Linear_init init Fc_out_weight Fc_out_bias emb_dim output_dim"
    "dec_training d"
    by (simp_all add: d)
  show "length (dec_convs d) = n_layers"
    using convs_init_Inr(1)[OF convs] by (simp add: d)
  show "dec_dropout d = dropout"
    using p by (simp add: d Dropout_init_Inr_iff)
  show "0 < kernel_size \<and> conv_kernel_size c = nat kernel_size \<and> conv_padding c = 0 \<and>
           in_channels c = hid_dim \<and> out_channels c = 2 * hid_dim"
    if "c \<in> set (dec_convs d)"
    using convs_init_Inr(2)[OF convs, of c] that by (simp add: d)
qed

theorem kernel_size_validation_witness:
  "(2::int) mod 2 = 0 \<and> (0::int) < 2 \<and> (0::real) \<le> 1/4 \<and> (1/4::real) \<le> 1 \<and>
   (3::int) mod 2 = 1 \<and> (0::int) < 3 \<and>
   Encoder_init 5 4 3 2 2 (1/4) 100 (\<lambda>p i j k. 1) = Inl AssertionError \<and>
   (\<exists>d. Decoder_init 5 4 3 2 2 (1/4) 1 100 (\<lambda>p i j k. 1) = Inr d) \<and>
   (\<exists>e. Encoder_init 5 4 3 2 3 (1/4) 100 (\<lambda>p i j k. 1) = Inr e)"
  using kernel_size_validation[of 2 5 4 3 2 "1/4" 100 "\<lambda>p i j k. 1" 5 1]
        kernel_size_validation[of 3 5 4 3 2 "1/4" 100 "\<lambda>p i j k. 1" 5 1]
  by simp

subsection \<open>Convolution and the encoder\<close>

lemma calculate_attention_total:
  assumes "length embedded = length conved"
  shows "\<exists>attention attended_combined.
           calculate_attention d embedded conved encoder_conved encoder_combined
             = Inr (attention, attended_combined)"
  using assms
  by (simp add: calculate_attention_def Let_def tensor_add_def matmul_def)

theorem attention_row_stochastic_witness:
  "\<exists>d attention attended_combined.
     Decoder_init 3 1 1 1 2 0 1 4 (\<lambda>name i j k. 1 / 2) = Inr d \<and>
     calculate_attention d [[1]] [[2]] [[1], [2]] [[3], [4]] = Inr (attention, attended_combined) \<and>
     [[1], [2 :: real]] \<noteq> [] \<and>
     length attention = 1 \<and> length (attention ! 0) = 2 \<and>
     0 \<le> attention ! 0 ! 0 \<and> 0 \<le> attention ! 0 ! 1 \<and> sum_list (attention ! 0) = 1"
proof -
  obtain d where d: "Decoder_init 3 1 1 1 2 0 1 4 (\<lambda>name i j k. 1 / 2) = Inr d"
    using Decoder_init_total[of 2 0 3 1 1 1 1 4 "\<lambda>name i j k. 1 / 2"] by auto
  obtain attention attended_combined where
    a: "calculate_attention d [[1]] [[2]] [[1], [2]] [[3], [4]] = Inr (attention, attended_combined)"
    using calculate_attention_total[of "[[1]]" "[[2]]" d "[[1], [2]]" "[[3], [4]]"] by auto
  have ne: "[[1], [2 :: real]] \<noteq> []" by simp
  from attention_row_stochastic[OF a ne]
  have len: "length attention = 1"
    and rows: "\<forall>row\<in>set attention. length row = 2 \<and> (\<forall>w\<in>set row. 0 \<le> w) \<and> sum_list row = 1"
    by simp_all
  from len have "attention ! 0 \<in> set attention" by simp
  with rows have r0: "length (attention ! 0) = 2" "\<forall>w\<in>set (attention ! 0). 0 \<le> w"
    "sum_list (attention ! 0) = 1"
    by blast+
  from r0(1) have "attention ! 0 ! 0 \<in> set (attention ! 0)" "attention ! 0 ! 1 \<in> set (attention ! 0)"
    by simp_all
  with r0(2) have "0 \<le> attention ! 0 ! 0" "0 \<le> attention ! 0 ! 1" by blast+
  with d a ne len r0 show ?thesis by blast
qed

lemma Conv1d_forward_Inr_iff:
  "Conv1d_forward c xs = Inr ys \<longleftrightarrow>
     conv_kernel_size c \<le> length xs + 2 * conv_padding c \<and>
     ys = map (\<lambda>t. conv_window c (take (conv_kernel_size c)
                 (drop t (replicate (conv_padding c) (replicate (in_channels c) 0) @ xs @
                          replicate (conv_padding c) (replicate (in_channels c) 0)))))
            [0..<length xs + 2 * conv_padding c - conv_kernel_size c + 1]"
proof -
  let ?z = "replicate (conv_padding c) (replicate (in_channels c) (0::real))"
  let ?p = "?z @ xs @ ?z"
  let ?f = "\<lambda>t. conv_window c (take (conv_kernel_size c) (drop t ?p))"
  have len: "length ?p = length xs + 2 * conv_padding c" by simp
  have unfold: "Conv1d_forward c xs =
      (if length ?p < conv_kernel_size c then Inl RuntimeError
       else Inr (map ?f [0..<length ?p - conv_kernel_size c + 1]))"
    by (simp only: Conv1d_forward_def Let_def)
  show ?thesis
  proof (cases "length xs + 2 * conv_padding c < conv_kernel_size c")
    case True
    then show ?thesis unfolding unfold len by simp
  next
    case False
    then have "conv_kernel_size c \<le> length xs + 2 * conv_padding c" by simp
    with False show ?thesis
      unfolding unfold len by (simp only: if_False sum.inject simp_thms) blast
  qed
qed

lemma Conv1d_forward_length:
  "Conv1d_forward c xs = Inr ys \<Longrightarrow>
     length ys = length xs + 2 * conv_padding c + 1 - conv_kernel_size c"
  by (auto simp: Conv1d_forward_Inr_iff)

lemma Conv1d_forward_symmetric:
  assumes "conv_kernel_size c = 2 * conv_padding c + 1" "xs \<noteq> []"
  shows "\<exists>ys. Conv1d_forward c xs = Inr ys \<and> length ys = length xs"
proof -
  from assms(2) have "1 \<le> length xs" by (cases xs) auto
  with assms(1) show ?thesis by (simp add: Conv1d_forward_Inr_iff)
qed

lemma Encoder_blocks_shape:
  assumes "\<forall>c\<in>set convs. conv_kernel_size c = 2 * conv_padding c + 1" "x \<noteq> []"
  shows "\<exists>res. Encoder_blocks e r i convs x st = Inr res \<and>
           (convs = [] \<longrightarrow> res = st) \<and>
           (convs \<noteq> [] \<longrightarrow> (\<exists>y. res = Some y \<and> length y = length x))"
  using assms
proof (induction convs arbitrary: x st i)
  case Nil
  show ?case by simp
next
  case (Cons conv convs)
  let ?dx = "Dropout_forward (enc_dropout e) (enc_training e) (r (i + 1)) x"
  have ldx: "length ?dx = length x" by (simp add: Dropout_forward_def)
  with Cons.prems have "?dx \<noteq> []" by auto
  moreover from Cons.prems have "conv_kernel_size conv = 2 * conv_padding conv + 1" by simp
  ultimately obtain ys where ys: "Conv1d_forward conv ?dx = Inr ys" "length ys = length x"
    using Conv1d_forward_symmetric[of conv ?dx] ldx by auto
  let ?y = "tensor_mul (map2 vadd (map glu ys) x) (enc_scale e)"
  have add: "tensor_add (map glu ys) x = Inr (map2 vadd (map glu ys) x)"
    using ys(2) by (simp add: tensor_add_def)
  have ly: "length ?y = length x" using ys(2) by simp
  with Cons.prems(2) have yne: "?y \<noteq> []" by (metis length_0_conv)
  from Cons.prems have rest: "\<forall>c\<in>set convs. conv_kernel_size c = 2 * conv_padding c + 1" by simp
  from Cons.IH[OF rest yne, of "i + 1" "Some ?y"]
  obtain res where res: "Encoder_blocks e r (i + 1) convs ?y (Some ?y) = Inr res"
    "convs = [] \<longrightarrow> res = Some ?y"
    "convs \<noteq> [] \<longrightarrow> (\<exists>z. res = Some z \<and> length z = length ?y)"
    by blast
  have step: "Encoder_blocks e r i (conv # convs) x st = Inr res"
    using ys(1) add res(1) by (simp add: Let_def)
  from res(2,3) ly have "\<exists>z. res = Some z \<and> length z = length x"
    by (cases "convs = []") auto
  with step show ?case by simp
qed

lemma length_Dropout_forward [simp]: "length (Dropout_forward p tr m xs) = length xs"
  by (simp add: Dropout_forward_def)

lemma Dropout_forward_nth_length:
  "t < length xs \<Longrightarrow> length (Dropout_forward p tr m xs ! t) = length (xs ! t)"
  by (simp add: Dropout_forward_def)

lemma Dropout_forward_width:
  assumes "\<forall>v\<in>set xs. length v = n"
  shows "\<forall>v\<in>set (Dropout_forward p tr m xs). length v = n"
proof
  fix v assume "v \<in> set (Dropout_forward p tr m xs)"
  then obtain t where t: "t < length xs" "v = Dropout_forward p tr m xs ! t"
    by (auto simp: in_set_conv_nth)
  then have "length v = length (xs ! t)" by (simp add: Dropout_forward_nth_length)
  with t(1) assms show "length v = n" by simp
qed

lemma Linear_forward_width: "v \<in> set (Linear_forward l xs) \<Longrightarrow> length v = out_features l"
  by (auto simp: Linear_forward_def)

lemma tensor_mul_width:
  "\<forall>v\<in>set xs. length v = n \<Longrightarrow> \<forall>v\<in>set (tensor_mul xs c). length v = n"
  by (auto simp: tensor_mul_def)

lemma map2_vadd_width:
  assumes "\<forall>v\<in>set xs. length v = n" "\<forall>v\<in>set ys. length v = n"
  shows "\<forall>v\<in>set (map2 vadd xs ys). length v = n"
proof
  fix v assume "v \<in> set (map2 vadd xs ys)"
  then obtain a b where "(a, b) \<in> set (zip xs ys)" "v = vadd a b" by auto
  moreover from this have "a \<in> set xs" "b \<in> set ys" by (auto dest: set_zip_leftD set_zip_rightD)
  ultimately show "length v = n" using assms by (simp add: vadd_def)
qed

lemma Embedding_init_shape:
  "length (Embedding_init init name rows cols) = rows"
  "v \<in> set (Embedding_init init name rows cols) \<Longrightarrow> length v = cols"
  by (auto simp: Embedding_init_def)

lemma Encoder_element_shape:
  assumes tok: "\<forall>t\<in>set src. 0 \<le> t \<and> t < int (length (enc_tok_embedding e))"
    and tokw: "\<forall>v\<in>set (enc_tok_embedding e). length v = emb_dim"
    and pos: "length src \<le> length (enc_pos_embedding e)"
    and posw: "\<forall>v\<in>set (enc_pos_embedding e). length v = emb_dim"
    and convs: "enc_convs e \<noteq> []"
      "\<forall>c\<in>set (enc_convs e). conv_kernel_size c = 2 * conv_padding c + 1"
    and out: "out_features (enc_hid2emb e) = emb_dim"
    and ne: "src \<noteq> []"
  shows "\<exists>conved combined. Encoder_element e r src = Inr (conved, combined) \<and>
           length conved = length src \<and> length combined = length src \<and>
           (\<forall>v\<in>set conved. length v = emb_dim) \<and> (\<forall>v\<in>set combined. length v = emb_dim)"
proof -
  let ?tok = "map (\<lambda>i. enc_tok_embedding e ! nat i) src"
  let ?pos = "map (\<lambda>i. enc_pos_embedding e ! nat i) (map int [0..<length src])"
  have tok_eq: "Embedding_forward (enc_tok_embedding e) src = Inr ?tok"
    using tok by (simp add: Embedding_forward_Inr_iff)
  have pos_eq: "Embedding_forward (enc_pos_embedding e) (map int [0..<length src]) = Inr ?pos"
    using pos by (simp add: Embedding_forward_Inr_iff)
  let ?s = "map2 vadd ?tok ?pos"
  have add_eq: "tensor_add ?tok ?pos = Inr ?s"
    by (simp add: tensor_add_def)
  have tok_w: "\<forall>v\<in>set ?tok. length v = emb_dim"
    using tok tokw by auto
  have pos_w: "\<forall>v\<in>set ?pos. length v = emb_dim"
    using pos posw by auto
  have s_w: "\<forall>v\<in>set ?s. length v = emb_dim"
    by (rule map2_vadd_width[OF tok_w pos_w])
  have s_len: "length ?s = length src" by simp
  let ?emb = "Dropout_forward (enc_dropout e) (enc_training e) (r 0) ?s"
  have emb_len: "length ?emb = length src" by simp
  have emb_w: "\<forall>v\<in>set ?emb. length v = emb_dim"
    by (rule Dropout_forward_width[OF s_w])
  let ?ci = "Linear_forward (enc_emb2hid e) ?emb"
  have ci_len: "length ?ci = length src" by simp
  with ne have ci_ne: "?ci \<noteq> []" by (metis length_0_conv)
  from Encoder_blocks_shape[OF convs(2) ci_ne, of e r 0 None] convs(1)
  obtain y where y: "Encoder_blocks e r 0 (enc_convs e) ?ci None = Inr (Some y)"
    "length y = length ?ci"
    by auto
  let ?ce = "Linear_forward (enc_hid2emb e) y"
  have ce_len: "length ?ce = length src" using y(2) ci_len by simp
  have ce_w: "\<forall>v\<in>set ?ce. length v = emb_dim"
    using out by (auto dest: Linear_forward_width)
  let ?s2 = "map2 vadd ?ce ?emb"
  have add2: "tensor_add ?ce ?emb = Inr ?s2"
    using ce_len emb_len by (simp add: tensor_add_def)
  have s2_w: "\<forall>v\<in>set ?s2. length v = emb_dim"
    by (rule map2_vadd_width[OF ce_w emb_w])
  have s2_len: "length ?s2 = length src"
    using ce_len emb_len by simp
  let ?cb = "tensor_mul ?s2 (enc_scale e)"
  have res: "Encoder_element e r src = Inr (?ce, ?cb)"
    unfolding Encoder_element_def Let_def
    by (simp only: tok_eq pos_eq add_eq y(1) add2 sum.case option.case)
  have "length ?cb = length src" using s2_len by simp
  moreover have "\<forall>v\<in>set ?cb. length v = emb_dim"
    by (rule tensor_mul_width[OF s2_w])
  ultimately show ?thesis using res ce_len ce_w by blast
qed

lemma collect_map_total:
  assumes "\<And>x. x \<in> set xs \<Longrightarrow> \<exists>v. f x = Inr v \<and> P x v"
  shows "\<exists>vs. collect (map f xs) = Inr vs \<and> length vs = length xs \<and>
              (\<forall>i<length xs. P (xs ! i) (vs ! i))"
proof -
  from assms have "\<exists>vs. collect (map f xs) = Inr vs"
    by (intro collect_total) blast
  then obtain vs where vs: "collect (map f xs) = Inr vs" by blast
  then have eq: "map f xs = map Inr vs" by (simp add: collect_Inr_iff)
  then have len: "length vs = length xs" by (metis length_map)
  have "P (xs ! i) (vs ! i)" if "i < length xs" for i
  proof -
    from that assms obtain v where v: "f (xs ! i) = Inr v" "P (xs ! i) v" by (meson nth_mem)
    from eq that len have "f (xs ! i) = Inr (vs ! i)" by (metis nth_map)
    with v show ?thesis by simp
  qed
  with vs len show ?thesis by blast
qed

lemma odd_kernel_padding:
  assumes "kernel_size mod 2 = 1" "0 < (kernel_size :: int)"
  shows "nat kernel_size = 2 * nat ((kernel_size - 1) div 2) + 1"
proof -
  define m where "m = (kernel_size - 1) div 2"
  have k: "kernel_size = 2 * m + 1" and m: "0 \<le> m"
    unfolding m_def using assms by presburger+
  show ?thesis unfolding m_def[symmetric] unfolding k using m by (simp add: nat_add_distrib nat_mult_distrib)
qed

lemma Encoder_forward_shape:
  assumes tok: "\<forall>s\<in>set src. \<forall>t\<in>set s. 0 \<le> t \<and> t < int (length (enc_tok_embedding e))"
    and tokw: "\<forall>v\<in>set (enc_tok_embedding e). length v = emb_dim"
    and pos: "\<forall>s\<in>set src. s \<noteq> [] \<and> length s \<le> length (enc_pos_embedding e)"
    and posw: "\<forall>v\<in>set (enc_pos_embedding e). length v = emb_dim"
    and convs: "enc_convs e \<noteq> []"
      "\<forall>c\<in>set (enc_convs e). conv_kernel_size c = 2 * conv_padding c + 1"
    and out: "out_features (enc_hid2emb e) = emb_dim"
  shows "\<exists>conved combined. Encoder_forward e r src = Inr (conved, combined) \<and>
           length conved = length src \<and> length combined = length src \<and>
           (\<forall>b<length src. length (conved ! b) = length (src ! b) \<and>
                             length (combined ! b) = length (src ! b) \<and>
                             (\<forall>v\<in>set (conved ! b). length v = emb_dim) \<and>
                             (\<forall>v\<in>set (combined ! b). length v = emb_dim))"
proof -
  let ?P = "\<lambda>b out. length (fst out) = length (src ! b) \<and> length (snd out) = length (src ! b) \<and>
                     (\<forall>v\<in>set (fst out). length v = emb_dim) \<and>
                     (\<forall>v\<in>set (snd out). length v = emb_dim)"
  have "\<exists>out. Encoder_element e (r b) (src ! b) = Inr out \<and> ?P b out"
    if "b \<in> set [0..<length src]" for b
  proof -
    from that have mem: "src ! b \<in> set src" by simp
    have "\<forall>t\<in>set (src ! b). 0 \<le> t \<and> t < int (length (enc_tok_embedding e))"
      using tok mem by blast
    moreover have "length (src ! b) \<le> length (enc_pos_embedding e)" "src ! b \<noteq> []"
      using pos mem by blast+
    ultimately obtain conved combined where
      "Encoder_element e (r b) (src ! b) = Inr (conved, combined)"
      "length conved = length (src ! b)" "length combined = length (src ! b)"
      "\<forall>v\<in>set conved. length v = emb_dim" "\<forall>v\<in>set combined. length v = emb_dim"
      using Encoder_element_shape[of "src ! b" e emb_dim "r b", OF _ tokw _ posw convs out]
      by blast
    then show ?thesis by simp
  qed
  from collect_map_total[of "[0..<length src]" "\<lambda>b. Encoder_element e (r b) (src ! b)" ?P,
      OF this]
  obtain outs where outs:
    "collect (map (\<lambda>b. Encoder_element e (r b) (src ! b)) [0..<length src]) = Inr outs"
    "length outs = length src" "\<forall>i<length src. ?P i (outs ! i)"
    by auto
  have "Encoder_forward e r src = Inr (map fst outs, map snd outs)"
    by (simp add: Encoder_forward_def outs(1))
  moreover have "length (map fst outs) = length src" "length (map snd outs) = length src"
    using outs(2) by simp_all
  moreover have "\<forall>b<length src. length (map fst outs ! b) = length (src ! b) \<and>
                             length (map snd outs ! b) = length (src ! b) \<and>
                             (\<forall>v\<in>set (map fst outs ! b). length v = emb_dim) \<and>
                             (\<forall>v\<in>set (map snd outs ! b). length v = emb_dim)"
    using outs(2,3) by simp
  ultimately show ?thesis by blast
qed

lemma Encoder_init_forward_shape:
  assumes e0: "Encoder_init input_dim emb_dim hid_dim n_layers kernel_size dropout max_length init
                 = Inr e0"
    and layers: "0 < n_layers"
    and src: "\<forall>s\<in>set src. length s = src_len \<and> (\<forall>tok\<in>set s. 0 \<le> tok \<and> tok < int input_dim)"
    and len: "0 < src_len" "src_len \<le> max_length"
  shows "\<exists>conved combined.
           Encoder_forward (e0\<lparr>enc_training := training\<rparr>) r src = Inr (conved, combined) \<and>
           length conved = length src \<and> length combined = length src \<and>
           (\<forall>b<length src. length (conved ! b) = src_len \<and> length (combined ! b) = src_len \<and>
                             (\<forall>v\<in>set (conved ! b). length v = emb_dim) \<and>
                             (\<forall>v\<in>set (combined ! b). length v = emb_dim))"
proof -
  note f = Encoder_init_Inr[OF e0]
  let ?e = "e0\<lparr>enc_training := training\<rparr>"
  have tok: "\<forall>s\<in>set src. \<forall>t\<in>set s. 0 \<le> t \<and> t < int (length (enc_tok_embedding ?e))"
    using src by (simp add: f(3) Embedding_init_shape)
  have tokw: "\<forall>v\<in>set (enc_tok_embedding ?e). length v = emb_dim"
    by (simp add: f(3) Embedding_init_shape)
  have pos: "\<forall>s\<in>set src. s \<noteq> [] \<and> length s \<le> length (enc_pos_embedding ?e)"
    using src len by (auto simp: f(4) Embedding_init_shape)
  have posw: "\<forall>v\<in>set (enc_pos_embedding ?e). length v = emb_dim"
    by (simp add: f(4) Embedding_init_shape)
  have c1: "enc_convs ?e \<noteq> []" using f(7) layers by auto
  then obtain c where "c \<in> set (enc_convs e0)" by (cases "enc_convs e0") auto
  from f(8)[OF this] have k: "0 < kernel_size" by simp
  have c2: "\<forall>c\<in>set (enc_convs ?e). conv_kernel_size c = 2 * conv_padding c + 1"
    using f(8) odd_kernel_padding[OF f(1) k] by simp
  have out: "out_features (enc_hid2emb ?e) = emb_dim"
    by (simp add: f(6) Linear_init_def)
  from Encoder_forward_shape[OF tok tokw pos posw c1 c2 out, of r]
  obtain conved combined where cc:
    "Encoder_forward ?e r src = Inr (conved, combined)"
    "length conved = length src" "length combined = length src"
    "\<forall>b<length src. length (conved ! b) = length (src ! b) \<and>
                           length (combined ! b) = length (src ! b) \<and>
                           (\<forall>v\<in>set (conved ! b). length v = emb_dim) \<and>
                           (\<forall>v\<in>set (combined ! b). length v = emb_dim)"
    by blast
  from cc(4) src have "\<forall>b<length src. length (conved ! b) = src_len \<and>
                           length (combined ! b) = src_len \<and>
                           (\<forall>v\<in>set (conved ! b). length v = emb_dim) \<and>
                           (\<forall>v\<in>set (combined ! b). length v = emb_dim)"
    by simp
  with cc(1-3) show ?thesis by blast
qed

text \<open>
  Claim C2. With an odd kernel size (positive, and a dropout probability nn.Dropout
  accepts) the constructor returns an encoder. Each of its convolutions pads
  (kernel_size - 1) div 2 zero positions on each side and returns, on a sequence that
  is not empty, a sequence of the same length. The encoder, in either mode and with at
  least one convolutional block, returns on every batch of shape (batch, src_len) with
  1 \<le> src_len \<le> max_length and tokens of the vocabulary: conved and combined both have
  one element per batch element, src_len positions per element and emb_dim entries per
  position.
\<close>

theorem encoder_output_shape:
  assumes odd: "kernel_size mod 2 = 1" "0 < kernel_size"
    and drop: "0 \<le> dropout" "dropout \<le> 1"
    and layers: "0 < n_layers"
    and src: "\<forall>s\<in>set src. length s = src_len \<and> (\<forall>tok\<in>set s. 0 \<le> tok \<and> tok < int input_dim)"
    and len: "0 < src_len" "src_len \<le> max_length"
  shows "\<exists>e0. Encoder_init input_dim emb_dim hid_dim n_layers kernel_size dropout max_length init
                = Inr e0 \<and>
           (\<forall>c\<in>set (enc_convs e0).
              conv_padding c = nat ((kernel_size - 1) div 2) \<and>
              (\<forall>x. x \<noteq> [] \<longrightarrow> (\<exists>y. Conv1d_forward c x = Inr y \<and> length y = length x))) \<and>
           (\<forall>training r. \<exists>conved combined.
              Encoder_forward (e0\<lparr>enc_training := training\<rparr>) r src = Inr (conved, combined) \<and>
              length conved = length src \<and> length combined = length src \<and>
              (\<forall>b<length src. length (conved ! b) = src_len \<and> length (combined ! b) = src_len \<and>
                                (\<forall>v\<in>set (conved ! b). length v = emb_dim) \<and>
                                (\<forall>v\<in>set (combined ! b). length v = emb_dim)))"
proof -
  from Encoder_init_total[OF odd drop]
  obtain e0 where e0: "Encoder_init input_dim emb_dim hid_dim n_layers kernel_size dropout
                         max_length init = Inr e0"
    by blast
  have "conv_padding c = nat ((kernel_size - 1) div 2) \<and>
        (\<forall>x. x \<noteq> [] \<longrightarrow> (\<exists>y. Conv1d_forward c x = Inr y \<and> length y = length x))"
    if "c \<in> set (enc_convs e0)" for c
  proof -
    from Encoder_init_Inr(8)[OF e0 that]
    have p: "conv_padding c = nat ((kernel_size - 1) div 2)"
      and k: "conv_kernel_size c = 2 * conv_padding c + 1"
      using odd_kernel_padding[OF odd] by simp_all
    from Conv1d_forward_symmetric[OF k] p show ?thesis by blast
  qed
  with Encoder_init_forward_shape[OF e0 layers src len] e0 show ?thesis by blast
qed

theorem encoder_output_shape_witness:
  "\<exists>e0 conved combined.
     (3::int) mod 2 = 1 \<and> (0::int) < 3 \<and> (0::real) \<le> 1 / 4 \<and> (1 / 4 :: real) \<le> 1 \<and> (0::nat) < 2 \<and>
     Encoder_init 5 2 3 2 3 (1 / 4) 4 (\<lambda>name i j k. 1 / 2) = Inr e0 \<and>
     length (enc_convs e0) = 2 \<and> conv_padding (enc_convs e0 ! 1) = 1 \<and>
     (\<exists>y. Conv1d_forward (enc_convs e0 ! 1) [[1, 2, 3], [4, 5, 6]] = Inr y \<and> length y = 2) \<and>
     Encoder_forward (e0\<lparr>enc_training := False\<rparr>) (\<lambda>b n t c. True) [[1, 2, 3], [0, 4, 4]]
       = Inr (conved, combined) \<and>
     length conved = 2 \<and> length combined = 2 \<and>
     length (conved ! 0) = 3 \<and> length (combined ! 1) = 3 \<and>
     length (conved ! 0 ! 0) = 2 \<and> length (combined ! 1 ! 2) = 2"
proof -
  define src :: "int list list" where "src = [[1, 2, 3], [0, 4, 4]]"
  have src: "\<forall>s\<in>set src. length s = 3 \<and> (\<forall>tok\<in>set s. 0 \<le> tok \<and> tok < int 5)"
    by (simp add: src_def)
  have ls: "length src = 2" by (simp add: src_def)
  have "\<exists>e0. Encoder_init 5 2 3 2 3 (1 / 4) 4 (\<lambda>name i j k. 1 / 2) = Inr e0 \<and>
           (\<forall>c\<in>set (enc_convs e0).
              conv_padding c = nat ((3 - 1) div 2) \<and>
              (\<forall>x. x \<noteq> [] \<longrightarrow> (\<exists>y. Conv1d_forward c x = Inr y \<and> length y = length x))) \<and>
           (\<forall>training r. \<exists>conved combined.
              Encoder_forward (e0\<lparr>enc_training := training\<rparr>) r src = Inr (conved, combined) \<and>
              length conved = length src \<and> length combined = length src \<and>
              (\<forall>b<length src. length (conved ! b) = 3 \<and> length (combined ! b) = 3 \<and>
                                (\<forall>v\<in>set (conved ! b). length v = 2) \<and>
                                (\<forall>v\<in>set (combined ! b). length v = 2)))"
    by (rule encoder_output_shape[OF _ _ _ _ _ src]) simp_all
  then obtain e0 where
    e0: "Encoder_init 5 2 3 2 3 (1 / 4) 4 (\<lambda>name i j k. 1 / 2) = Inr e0"
    and cv: "\<forall>c\<in>set (enc_convs e0).
              conv_padding c = nat ((3 - 1) div 2) \<and>
              (\<forall>x. x \<noteq> [] \<longrightarrow> (\<exists>y. Conv1d_forward c x = Inr y \<and> length y = length x))"
    and all: "\<And>training r. \<exists>conved combined.
              Encoder_forward (e0\<lparr>enc_training := training\<rparr>) r src = Inr (conved, combined) \<and>
              length conved = length src \<and> length combined = length src \<and>
              (\<forall>b<length src. length (conved ! b) = 3 \<and> length (combined ! b) = 3 \<and>
                                (\<forall>v\<in>set (conved ! b). length v = 2) \<and>
                                (\<forall>v\<in>set (combined ! b). length v = 2))"
    by blast
  from all[of False "\<lambda>b n t c. True"] obtain conved combined where
    fw: "Encoder_forward (e0\<lparr>enc_training := False\<rparr>) (\<lambda>b n t c. True) src
           = Inr (conved, combined)"
    and l: "length conved = 2" "length combined = 2"
    and sh: "\<forall>b<2. length (conved ! b) = 3 \<and> length (combined ! b) = 3 \<and>
                     (\<forall>v\<in>set (conved ! b). length v = 2) \<and>
                     (\<forall>v\<in>set (combined ! b). length v = 2)"
    unfolding ls by blast
  have "(0::nat) < 2" "(1::nat) < 2" by simp_all
  with sh have a: "length (conved ! 0) = 3" "length (combined ! 1) = 3"
    "\<forall>v\<in>set (conved ! 0). length v = 2" "\<forall>v\<in>set (combined ! 1). length v = 2"
    by blast+
  from a have b: "length (conved ! 0 ! 0) = 2" "length (combined ! 1 ! 2) = 2"
    by simp_all
  have lc: "length (enc_convs e0) = 2"
    by (rule Encoder_init_Inr(7)[OF e0])
  then have "enc_convs e0 ! 1 \<in> set (enc_convs e0)" by simp
  with cv have c1: "conv_padding (enc_convs e0 ! 1) = 1"
    "\<exists>y. Conv1d_forward (enc_convs e0 ! 1) [[1, 2, 3], [4, 5, 6]] = Inr y \<and> length y = 2"
    by fastforce+
  show ?thesis
    using e0 lc c1 fw[unfolded src_def] l a(1,2) b
    by (intro exI[of _ e0] exI[of _ conved] exI[of _ combined]) simp
qed

subsection \<open>Causality of the decoder\<close>

lemma Dropout_forward_eval: "\<not> tr \<Longrightarrow> Dropout_forward p tr m xs = xs"
proof -
  assume "\<not> tr"
  then have "Dropout_forward p tr m xs =
      map (\<lambda>t. map (\<lambda>c. xs ! t ! c) [0..<length (xs ! t)]) [0..<length xs]"
    by (simp add: Dropout_forward_def dropout_elem_def)
  also have "\<dots> = map (\<lambda>t. xs ! t) [0..<length xs]"
    by (simp add: map_nth)
  also have "\<dots> = xs" by (rule map_nth)
  finally show ?thesis .
qed

lemma decoder_padding_Inr:
  "1 \<le> dec_kernel_size d \<Longrightarrow>
   decoder_padding d hid_dim =
     Inr (replicate (nat (dec_kernel_size d - 1))
            (replicate hid_dim (real_of_int (dec_trg_pad_idx d))))"
  by (simp add: decoder_padding_def)

lemma window_take:
  "t + k \<le> m \<Longrightarrow> take k (drop t (take m ys)) = take k (drop t ys)"
  by (simp add: drop_take min_def)

lemma Conv1d_forward_left_padded:
  assumes "conv_padding c = 0" "0 < conv_kernel_size c" "length padding = conv_kernel_size c - 1"
  shows "Conv1d_forward c (padding @ x) =
           (if x = [] then Inl RuntimeError
            else Inr (map (\<lambda>t. conv_window c (take (conv_kernel_size c) (drop t (padding @ x))))
                        [0..<length x]))"
proof (cases "x = []")
  case True
  then show ?thesis using assms by (simp add: Conv1d_forward_def)
next
  case False
  then have "1 \<le> length x" by (cases x) auto
  with assms have "length (padding @ x) - conv_kernel_size c + 1 = length x"
    "\<not> length (padding @ x) < conv_kernel_size c"
    by simp_all
  with False assms(1) show ?thesis
    by (simp add: Conv1d_forward_def del: length_append)
qed

lemma Conv1d_forward_prefix:
  assumes "conv_padding c = 0" "0 < conv_kernel_size c" "length padding = conv_kernel_size c - 1"
    and "Conv1d_forward c (padding @ x) = Inr ys" "0 < n" "n \<le> length x"
  shows "Conv1d_forward c (padding @ take n x) = Inr (take n ys)"
proof -
  let ?k = "conv_kernel_size c"
  from assms(5,6) have xne: "x \<noteq> []" "take n x \<noteq> []" by auto
  from assms(4) xne have ys: "ys = map (\<lambda>t. conv_window c (take ?k (drop t (padding @ x))))
                        [0..<length x]"
    by (simp add: Conv1d_forward_left_padded[OF assms(1-3)])
  have pre: "padding @ take n x = take (?k - 1 + n) (padding @ x)"
    using assms(3) by simp
  have win: "take ?k (drop t (padding @ take n x)) = take ?k (drop t (padding @ x))" if "t < n" for t
    unfolding pre using that assms(2) by (intro window_take) simp
  have "Conv1d_forward c (padding @ take n x) =
          Inr (map (\<lambda>t. conv_window c (take ?k (drop t (padding @ take n x)))) [0..<n])"
    using xne(2) assms(6) by (simp add: Conv1d_forward_left_padded[OF assms(1-3)])
  also have "map (\<lambda>t. conv_window c (take ?k (drop t (padding @ take n x)))) [0..<n] =
             map (\<lambda>t. conv_window c (take ?k (drop t (padding @ x)))) [0..<n]"
  proof (rule map_cong[OF refl])
    fix t assume "t \<in> set [0..<n]"
    then have "t < n" by simp
    from win[OF this]
    show "conv_window c (take ?k (drop t (padding @ take n x))) =
          conv_window c (take ?k (drop t (padding @ x)))"
      by (simp only:)
  qed
  also have "\<dots> = take n ys"
    using assms(6) by (simp add: ys take_map)
  finally show ?thesis .
qed

lemma tensor_add_prefix:
  assumes "tensor_add xs ys = Inr s"
  shows "tensor_add (take n xs) (take n ys) = Inr (take n s)"
proof -
  from assms have "length xs = length ys" "s = map2 vadd xs ys"
    by (simp_all add: tensor_add_Inr_iff)
  then show ?thesis by (simp add: tensor_add_def take_map take_zip)
qed

lemma tensor_mul_prefix: "tensor_mul (take n xs) c = take n (tensor_mul xs c)"
  by (simp add: tensor_mul_def take_map)

lemma Linear_forward_prefix: "Linear_forward l (take n xs) = take n (Linear_forward l xs)"
  by (simp add: Linear_forward_def take_map)

lemma calculate_attention_prefix:
  assumes "calculate_attention d embedded conved encoder_conved encoder_combined
             = Inr (attention, attended_combined)"
  shows "calculate_attention d (take n embedded) (take n conved) encoder_conved encoder_combined
             = Inr (take n attention, take n attended_combined)"
proof -
  note f = calculate_attention_Inr[OF assms]
  have len: "length (Linear_forward (dec_attn_hid2emb d) (take n conved)) = length (take n embedded)"
    using f(1) by simp
  show ?thesis
    unfolding f(2,3)
    using f(1)
    by (simp add: calculate_attention_def Let_def tensor_add_def tensor_mul_def
        matmul_permuted_def matmul_def Linear_forward_def take_map take_zip)
qed

lemma Decoder_blocks_prefix:
  assumes "\<not> dec_training d"
    and "\<forall>c\<in>set convs. conv_padding c = 0 \<and> conv_kernel_size c = nat (dec_kernel_size d)"
    and "1 \<le> dec_kernel_size d" "0 < n" "n \<le> length x"
    and "Decoder_blocks d r h i emb ec ecb convs x st = Inr res"
  shows "Decoder_blocks d r' h i' (take n emb) ec ecb convs (take n x) (map_option (\<lambda>(c, a). (take n c, take n a)) st)
           = Inr (map_option (\<lambda>(c, a). (take n c, take n a)) res)"
  using assms(2,5,6)
proof (induction convs arbitrary: x st i i')
  case Nil
  then show ?case by simp
next
  case (Cons conv convs)
  let ?pad = "replicate (nat (dec_kernel_size d - 1)) (replicate h (real_of_int (dec_trg_pad_idx d)))"
  have pad: "decoder_padding d h = Inr ?pad"
    by (rule decoder_padding_Inr[OF assms(3)])
  have drop: "Dropout_forward (dec_dropout d) (dec_training d) m y = y" for m y
    by (rule Dropout_forward_eval[OF assms(1)])
  from Cons.prems(1) have cv: "conv_padding conv = 0" "conv_kernel_size conv = nat (dec_kernel_size d)"
    by simp_all
  from cv(2) assms(3) have k: "0 < conv_kernel_size conv" "length ?pad = conv_kernel_size conv - 1"
    by simp_all
  from Cons.prems(3) obtain conved1 where c1: "Conv1d_forward conv (?pad @ x) = Inr conved1"
    by (simp add: pad drop Let_def split: sum.splits)
  from Cons.prems(3) c1 obtain attention conved2 where
    att: "calculate_attention d emb (map glu conved1) ec ecb = Inr (attention, conved2)"
    by (simp add: pad drop Let_def split: sum.splits prod.splits)
  from Cons.prems(3) c1 att obtain s where s: "tensor_add conved2 x = Inr s"
    by (simp add: pad drop Let_def split: sum.splits)
  let ?c3 = "tensor_mul s (dec_scale d)"
  from Cons.prems(3) c1 att s have rest:
    "Decoder_blocks d r h (i + 1) emb ec ecb convs ?c3 (Some (?c3, attention)) = Inr res"
    by (simp add: pad drop Let_def)
  have len: "length ?c3 = length x"
    using s by (simp add: tensor_add_Inr_iff)
  have c1': "Conv1d_forward conv (?pad @ take n x) = Inr (take n conved1)"
    by (rule Conv1d_forward_prefix[OF cv(1) k c1 assms(4) Cons.prems(2)])
  have att': "calculate_attention d (take n emb) (map glu (take n conved1)) ec ecb
                = Inr (take n attention, take n conved2)"
    using calculate_attention_prefix[OF att, of n] by (simp add: take_map)
  have s': "tensor_add (take n conved2) (take n x) = Inr (take n s)"
    by (rule tensor_add_prefix[OF s])
  from Cons.prems(1) have convs: "\<forall>c\<in>set convs. conv_padding c = 0 \<and>
      conv_kernel_size c = nat (dec_kernel_size d)"
    by simp
  from Cons.prems(2) len have n3: "n \<le> length ?c3" by simp
  from Cons.IH[OF convs n3 rest, of "i' + 1"]
  have "Decoder_blocks d r' h (i' + 1) (take n emb) ec ecb convs (take n ?c3)
          (Some (take n ?c3, take n attention)) = Inr (map_option (\<lambda>(c, a). (take n c, take n a)) res)"
    by simp
  then show ?case
    by (simp add: pad drop Let_def c1' att' s' tensor_mul_prefix)
qed

lemma Embedding_forward_prefix:
  assumes "Embedding_forward table idx = Inr vs"
  shows "Embedding_forward table (take n idx) = Inr (take n vs)"
proof -
  from assms have "\<forall>i\<in>set idx. 0 \<le> i \<and> i < int (length table)"
    "vs = map (\<lambda>i. table ! nat i) idx"
    by (simp_all add: Embedding_forward_Inr_iff)
  moreover have "set (take n idx) \<subseteq> set idx" by (rule set_take_subset)
  ultimately show ?thesis
    by (auto simp: Embedding_forward_Inr_iff take_map)
qed

lemma Decoder_element_prefix:
  assumes "\<not> dec_training d"
    and "\<forall>c\<in>set (dec_convs d). conv_padding c = 0 \<and>
           conv_kernel_size c = nat (dec_kernel_size d)"
    and "1 \<le> dec_kernel_size d" "0 < n" "n \<le> length trg"
    and "Decoder_element d r trg ec ecb = Inr (output, attention)"
  shows "Decoder_element d r' (take n trg) ec ecb = Inr (take n output, take n attention)"
proof -
  have drop: "Dropout_forward (dec_dropout d) (dec_training d) m y = y" for m y
    by (rule Dropout_forward_eval[OF assms(1)])
  let ?pos = "map int [0..<length trg]"
  from assms(6) obtain tok where tok: "Embedding_forward (dec_tok_embedding d) trg = Inr tok"
    by (simp add: Decoder_element_def Let_def split: sum.splits)
  from assms(6) tok obtain pe where pe: "Embedding_forward (dec_pos_embedding d) ?pos = Inr pe"
    by (simp add: Decoder_element_def Let_def split: sum.splits)
  from assms(6) tok pe obtain emb where emb: "tensor_add tok pe = Inr emb"
    by (simp add: Decoder_element_def Let_def split: sum.splits)
  let ?ci = "Linear_forward (dec_emb2hid d) emb"
  let ?h = "out_features (dec_emb2hid d)"
  from assms(6) tok pe emb obtain conved att where
    blocks: "Decoder_blocks d r ?h 0 emb ec ecb (dec_convs d) ?ci None = Inr (Some (conved, att))"
    by (simp add: Decoder_element_def Let_def drop split: sum.splits option.splits prod.splits)
  from assms(6) tok pe emb blocks have out:
    "output = Linear_forward (dec_fc_out d) (Linear_forward (dec_hid2emb d) conved)"
    "attention = att"
    by (simp_all add: Decoder_element_def Let_def drop)
  have lemb: "length emb = length trg"
    using emb tok by (auto simp: tensor_add_Inr_iff Embedding_forward_Inr_iff)
  have tok': "Embedding_forward (dec_tok_embedding d) (take n trg) = Inr (take n tok)"
    by (rule Embedding_forward_prefix[OF tok])
  have "map int [0..<length (take n trg)] = take n ?pos"
    using assms(5) by (simp add: take_map min_def)
  with Embedding_forward_prefix[OF pe, of n]
  have pe': "Embedding_forward (dec_pos_embedding d) (map int [0..<length (take n trg)])
               = Inr (take n pe)"
    by simp
  have emb': "tensor_add (take n tok) (take n pe) = Inr (take n emb)"
    by (rule tensor_add_prefix[OF emb])
  have nci: "n \<le> length ?ci" using assms(5) lemb by simp
  from Decoder_blocks_prefix[OF assms(1,2,3,4) nci blocks, of r' 0]
  have blocks': "Decoder_blocks d r' ?h 0 (take n emb) ec ecb (dec_convs d) (take n ?ci) None
                 = Inr (Some (take n conved, take n att))"
    by simp
  show ?thesis
    unfolding out
    by (simp add: Decoder_element_def Let_def drop tok' pe' emb' blocks' Linear_forward_prefix
        del: length_take)
qed

lemma Decoder_forward_Inr:
  assumes "Decoder_forward d r trg ec ecb = Inr (output, attention)"
  shows "length ec = length trg" "length ecb = length trg"
    and "length output = length trg" "length attention = length trg"
    and "b < length trg \<Longrightarrow>
           Decoder_element d (r b) (trg ! b) (ec ! b) (ecb ! b) = Inr (output ! b, attention ! b)"
proof -
  from assms show l: "length ec = length trg" "length ecb = length trg"
    by (auto simp: Decoder_forward_def split: if_splits)
  with assms obtain outs where
    outs: "collect (map (\<lambda>b. Decoder_element d (r b) (trg ! b) (ec ! b) (ecb ! b))
                      [0..<length trg]) = Inr outs"
    and res: "output = map fst outs" "attention = map snd outs"
    by (auto simp: Decoder_forward_def split: sum.splits)
  from collect_length[OF outs] have lo: "length outs = length trg" by simp
  then show "length output = length trg" "length attention = length trg"
    by (simp_all add: res)
  assume b: "b < length trg"
  with collect_nth[OF outs, of b]
  have "Decoder_element d (r b) (trg ! b) (ec ! b) (ecb ! b) = Inr (outs ! b)" by simp
  then show "Decoder_element d (r b) (trg ! b) (ec ! b) (ecb ! b) = Inr (output ! b, attention ! b)"
    using lo b by (simp add: res)
qed

lemma Decoder_element_convs:
  assumes "Decoder_element d r trg ec ecb = Inr out"
  shows "dec_convs d \<noteq> []"
proof
  assume "dec_convs d = []"
  with assms show False
    by (simp add: Decoder_element_def Let_def split: sum.splits)
qed

text \<open>
  Claim C1. Take a decoder the constructor returns, with any parameter values, in
  evaluation mode, and encoder outputs that stay fixed. Two target batches on which the
  forward pass returns, whose element b holds the same tokens at the positions up to i,
  get the same logits at position i of element b, whatever the tokens after position i
  and whatever random draws dropout is offered.
\<close>

theorem decoder_causal:
  assumes init: "Decoder_init output_dim emb_dim hid_dim n_layers kernel_size dropout trg_pad_idx
                   max_length init = Inr d0"
    and run: "Decoder_forward (d0\<lparr>dec_training := False\<rparr>) r trg ec ecb = Inr (output, attention)"
    and run': "Decoder_forward (d0\<lparr>dec_training := False\<rparr>) r' trg' ec ecb
                 = Inr (output', attention')"
    and b: "b < length trg"
    and i: "i < length (trg ! b)" "i < length (trg' ! b)"
    and same: "take (Suc i) (trg' ! b) = take (Suc i) (trg ! b)"
  shows "output' ! b ! i = output ! b ! i"
proof -
  let ?d = "d0\<lparr>dec_training := False\<rparr>"
  note f = Decoder_init_Inr[OF init]
  note e = Decoder_forward_Inr(5)[OF run b]
  from Decoder_forward_Inr(1)[OF run'] Decoder_forward_Inr(1)[OF run] b
  have b': "b < length trg'" by simp
  note e' = Decoder_forward_Inr(5)[OF run' b']
  have eval: "\<not> dec_training ?d" by simp
  from Decoder_element_convs[OF e] obtain c where c: "c \<in> set (dec_convs d0)"
    by (cases "dec_convs d0") auto
  from f(10)[OF c] f(1) have k: "1 \<le> dec_kernel_size ?d" by simp
  have convs: "\<forall>c\<in>set (dec_convs ?d). conv_padding c = 0 \<and>
                 conv_kernel_size c = nat (dec_kernel_size ?d)"
    using f(10) f(1) by simp
  have n: "0 < Suc i" "Suc i \<le> length (trg ! b)" "Suc i \<le> length (trg' ! b)"
    using i by simp_all
  from Decoder_element_prefix[OF eval convs k n(1) n(2) e, of "r b"]
  have p: "Decoder_element ?d (r b) (take (Suc i) (trg ! b)) (ec ! b) (ecb ! b)
             = Inr (take (Suc i) (output ! b), take (Suc i) (attention ! b))" .
  from Decoder_element_prefix[OF eval convs k n(1) n(3) e', of "r b"]
  have p': "Decoder_element ?d (r b) (take (Suc i) (trg' ! b)) (ec ! b) (ecb ! b)
             = Inr (take (Suc i) (output' ! b), take (Suc i) (attention' ! b))" .
  from p p' same have "take (Suc i) (output' ! b) = take (Suc i) (output ! b)"
    by simp
  then have "take (Suc i) (output' ! b) ! i = take (Suc i) (output ! b) ! i"
    by simp
  then show ?thesis by simp
qed

lemma calculate_attention_length:
  assumes "calculate_attention d embedded conved encoder_conved encoder_combined
             = Inr (attention, attended_combined)"
  shows "length attention = length conved" "length attended_combined = length conved"
proof -
  note f = calculate_attention_Inr[OF assms]
  show a: "length attention = length conved" using f(1,2) by simp
  show "length attended_combined = length conved"
    unfolding f(3) using a by (simp add: matmul_def)
qed

lemma Decoder_blocks_total:
  assumes "\<forall>c\<in>set convs. conv_padding c = 0 \<and> conv_kernel_size c = nat (dec_kernel_size d)"
    and "1 \<le> dec_kernel_size d" "x \<noteq> []" "length emb = length x"
  shows "\<exists>res. Decoder_blocks d r h i emb ec ecb convs x st = Inr res \<and>
           (convs = [] \<longrightarrow> res = st) \<and>
           (convs \<noteq> [] \<longrightarrow> (\<exists>y a. res = Some (y, a) \<and> length y = length x))"
  using assms(1,3,4)
proof (induction convs arbitrary: x st i)
  case Nil
  show ?case by simp
next
  case (Cons conv convs)
  let ?pad = "replicate (nat (dec_kernel_size d - 1)) (replicate h (real_of_int (dec_trg_pad_idx d)))"
  let ?x1 = "Dropout_forward (dec_dropout d) (dec_training d) (r (i + 1)) x"
  have pad: "decoder_padding d h = Inr ?pad"
    by (rule decoder_padding_Inr[OF assms(2)])
  from Cons.prems(1) have cv: "conv_padding conv = 0" "conv_kernel_size conv = nat (dec_kernel_size d)"
    by simp_all
  from cv(2) assms(2) have k: "0 < conv_kernel_size conv" "length ?pad = conv_kernel_size conv - 1"
    by simp_all
  have lx1: "length ?x1 = length x" by simp
  with Cons.prems(2) have x1ne: "?x1 \<noteq> []" by (metis length_0_conv)
  let ?c1 = "map (\<lambda>t. conv_window conv (take (conv_kernel_size conv) (drop t (?pad @ ?x1))))
               [0..<length ?x1]"
  have c1: "Conv1d_forward conv (?pad @ ?x1) = Inr ?c1"
    using Conv1d_forward_left_padded[OF cv(1) k, of ?x1] x1ne by simp
  have lc1: "length (map glu ?c1) = length x" by simp
  with Cons.prems(3) have "length emb = length (map glu ?c1)" by simp
  from calculate_attention_total[OF this, of d ec ecb]
  obtain attention conved2 where
    att: "calculate_attention d emb (map glu ?c1) ec ecb = Inr (attention, conved2)"
    by blast
  from calculate_attention_length(2)[OF att] lc1 have l2: "length conved2 = length x"
    by simp
  let ?s = "map2 vadd conved2 ?x1"
  have s: "tensor_add conved2 ?x1 = Inr ?s"
    using l2 by (simp add: tensor_add_def)
  let ?c3 = "tensor_mul ?s (dec_scale d)"
  have l3: "length ?c3 = length x" using l2 by simp
  with Cons.prems(2) have c3ne: "?c3 \<noteq> []" by (metis length_0_conv)
  from Cons.prems(1) have convs: "\<forall>c\<in>set convs. conv_padding c = 0 \<and>
      conv_kernel_size c = nat (dec_kernel_size d)"
    by simp
  from Cons.prems(3) l3 have lemb: "length emb = length ?c3" by simp
  from Cons.IH[OF convs c3ne lemb, of "i + 1" "Some (?c3, attention)"]
  obtain res where res:
    "Decoder_blocks d r h (i + 1) emb ec ecb convs ?c3 (Some (?c3, attention)) = Inr res"
    "convs = [] \<longrightarrow> res = Some (?c3, attention)"
    "convs \<noteq> [] \<longrightarrow> (\<exists>y a. res = Some (y, a) \<and> length y = length ?c3)"
    by blast
  have step: "Decoder_blocks d r h i emb ec ecb (conv # convs) x st = Inr res"
    by (simp only: Decoder_blocks.simps Let_def pad c1 att s res(1) sum.case prod.case)
  from res(2,3) l3 have "\<exists>y a. res = Some (y, a) \<and> length y = length x"
    by (cases "convs = []") auto
  with step show ?case by simp
qed

lemma Decoder_element_total:
  assumes tok: "\<forall>t\<in>set trg. 0 \<le> t \<and> t < int (length (dec_tok_embedding d))"
    and pos: "length trg \<le> length (dec_pos_embedding d)"
    and convs: "dec_convs d \<noteq> []"
      "\<forall>c\<in>set (dec_convs d). conv_padding c = 0 \<and> conv_kernel_size c = nat (dec_kernel_size d)"
      "1 \<le> dec_kernel_size d"
    and ne: "trg \<noteq> []"
  shows "\<exists>output attention. Decoder_element d r trg ec ecb = Inr (output, attention) \<and>
           length output = length trg"
proof -
  let ?tok = "map (\<lambda>i. dec_tok_embedding d ! nat i) trg"
  let ?pos = "map (\<lambda>i. dec_pos_embedding d ! nat i) (map int [0..<length trg])"
  have tok_eq: "Embedding_forward (dec_tok_embedding d) trg = Inr ?tok"
    using tok by (simp add: Embedding_forward_Inr_iff)
  have pos_eq: "Embedding_forward (dec_pos_embedding d) (map int [0..<length trg]) = Inr ?pos"
    using pos by (simp add: Embedding_forward_Inr_iff)
  let ?s = "map2 vadd ?tok ?pos"
  have add_eq: "tensor_add ?tok ?pos = Inr ?s"
    by (simp add: tensor_add_def)
  let ?emb = "Dropout_forward (dec_dropout d) (dec_training d) (r 0) ?s"
  let ?ci = "Linear_forward (dec_emb2hid d) ?emb"
  have ci_len: "length ?ci = length trg" by simp
  with ne have ci_ne: "?ci \<noteq> []" by (metis length_0_conv)
  have emb_len: "length ?emb = length ?ci" by simp
  from Decoder_blocks_total[OF convs(2,3) ci_ne emb_len,
      of r "out_features (dec_emb2hid d)" 0 ec ecb None] convs(1)
  obtain y a where y:
    "Decoder_blocks d r (out_features (dec_emb2hid d)) 0 ?emb ec ecb (dec_convs d) ?ci None
       = Inr (Some (y, a))"
    "length y = length ?ci"
    by auto
  let ?out = "Linear_forward (dec_fc_out d)
                (Dropout_forward (dec_dropout d) (dec_training d) (r (length (dec_convs d) + 1))
                   (Linear_forward (dec_hid2emb d) y))"
  have "Decoder_element d r trg ec ecb = Inr (?out, a)"
    unfolding Decoder_element_def Let_def
    by (simp only: tok_eq pos_eq add_eq y(1) sum.case option.case prod.case)
  moreover have "length ?out = length trg" using y(2) ci_len by simp
  ultimately show ?thesis by blast
qed

lemma Decoder_forward_total:
  assumes tok: "\<forall>s\<in>set trg. \<forall>t\<in>set s. 0 \<le> t \<and> t < int (length (dec_tok_embedding d))"
    and pos: "\<forall>s\<in>set trg. s \<noteq> [] \<and> length s \<le> length (dec_pos_embedding d)"
    and convs: "dec_convs d \<noteq> []"
      "\<forall>c\<in>set (dec_convs d). conv_padding c = 0 \<and> conv_kernel_size c = nat (dec_kernel_size d)"
      "1 \<le> dec_kernel_size d"
    and batch: "length ec = length trg" "length ecb = length trg"
  shows "\<exists>output attention. Decoder_forward d r trg ec ecb = Inr (output, attention)"
proof -
  have "\<exists>out. Decoder_element d (r b) (trg ! b) (ec ! b) (ecb ! b) = Inr out \<and> True"
    if "b \<in> set [0..<length trg]" for b
  proof -
    from that have mem: "trg ! b \<in> set trg" by simp
    have "\<forall>t\<in>set (trg ! b). 0 \<le> t \<and> t < int (length (dec_tok_embedding d))"
      using tok mem by blast
    moreover have "length (trg ! b) \<le> length (dec_pos_embedding d)" "trg ! b \<noteq> []"
      using pos mem by blast+
    ultimately show ?thesis
      using Decoder_element_total[of "trg ! b" d "r b" "ec ! b" "ecb ! b", OF _ _ convs]
      by auto
  qed
  from collect_map_total[of "[0..<length trg]"
      "\<lambda>b. Decoder_element d (r b) (trg ! b) (ec ! b) (ecb ! b)" "\<lambda>b out. True", OF this]
  obtain outs where
    "collect (map (\<lambda>b. Decoder_element d (r b) (trg ! b) (ec ! b) (ecb ! b)) [0..<length trg])
       = Inr outs"
    by auto
  then show ?thesis using batch by (simp add: Decoder_forward_def)
qed

lemma Decoder_init_forward_total:
  assumes init: "Decoder_init output_dim emb_dim hid_dim n_layers kernel_size dropout trg_pad_idx
                   max_length init = Inr d0"
    and layers: "0 < n_layers"
    and trg: "\<forall>s\<in>set trg. s \<noteq> [] \<and> length s \<le> max_length \<and>
                (\<forall>tok\<in>set s. 0 \<le> tok \<and> tok < int output_dim)"
    and batch: "length ec = length trg" "length ecb = length trg"
  shows "\<exists>output attention.
           Decoder_forward (d0\<lparr>dec_training := training\<rparr>) r trg ec ecb = Inr (output, attention)"
proof -
  let ?d = "d0\<lparr>dec_training := training\<rparr>"
  note f = Decoder_init_Inr[OF init]
  have tok: "\<forall>s\<in>set trg. \<forall>t\<in>set s. 0 \<le> t \<and> t < int (length (dec_tok_embedding ?d))"
    using trg by (simp add: f(4) Embedding_init_shape)
  have pos: "\<forall>s\<in>set trg. s \<noteq> [] \<and> length s \<le> length (dec_pos_embedding ?d)"
    using trg by (simp add: f(5) Embedding_init_shape)
  have c1: "dec_convs ?d \<noteq> []" using f(9) layers by auto
  then obtain c where "c \<in> set (dec_convs d0)" by (cases "dec_convs d0") auto
  from f(10)[OF this] f(1) have k: "1 \<le> dec_kernel_size ?d" by simp
  have c2: "\<forall>c\<in>set (dec_convs ?d). conv_padding c = 0 \<and>
              conv_kernel_size c = nat (dec_kernel_size ?d)"
    using f(10) f(1) by simp
  show ?thesis
    by (rule Decoder_forward_total[OF tok pos c1 c2 k batch])
qed

theorem decoder_causal_witness:
  "\<exists>d0 output attention output' attention'.
     Decoder_init 5 2 3 2 2 (1 / 4) 1 4 (\<lambda>name i j k. 1 / 2) = Inr d0 \<and>
     Decoder_forward (d0\<lparr>dec_training := False\<rparr>) (\<lambda>b n t c. True) [[2, 3, 4]]
       [[[1, 2], [3, 4]]] [[[5, 6], [7, 8]]] = Inr (output, attention) \<and>
     Decoder_forward (d0\<lparr>dec_training := False\<rparr>) (\<lambda>b n t c. False) [[2, 3, 0]]
       [[[1, 2], [3, 4]]] [[[5, 6], [7, 8]]] = Inr (output', attention') \<and>
     (0::nat) < length [[2, 3, 4 :: int]] \<and>
     (1::nat) < length ([[2, 3, 4 :: int]] ! 0) \<and> (1::nat) < length ([[2, 3, 0 :: int]] ! 0) \<and>
     take (Suc 1) ([[2, 3, 0 :: int]] ! 0) = take (Suc 1) ([[2, 3, 4]] ! 0) \<and>
     output' ! 0 ! 1 = output ! 0 ! 1"
proof -
  define trg :: "int list list" where "trg = [[2, 3, 4]]"
  define trg' :: "int list list" where "trg' = [[2, 3, 0]]"
  define ec :: tensor where "ec = [[[1, 2], [3, 4]]]"
  define ecb :: tensor where "ecb = [[[5, 6], [7, 8]]]"
  obtain d0 where d0: "Decoder_init 5 2 3 2 2 (1 / 4) 1 4 (\<lambda>name i j k. 1 / 2) = Inr d0"
    using Decoder_init_total[of 2 "1 / 4" 5 2 3 2 1 4 "\<lambda>name i j k. 1 / 2"] by auto
  have v: "\<forall>s\<in>set trg. s \<noteq> [] \<and> length s \<le> 4 \<and> (\<forall>tok\<in>set s. 0 \<le> tok \<and> tok < int 5)"
    "\<forall>s\<in>set trg'. s \<noteq> [] \<and> length s \<le> 4 \<and> (\<forall>tok\<in>set s. 0 \<le> tok \<and> tok < int 5)"
    by (simp_all add: trg_def trg'_def)
  have l: "length ec = length trg" "length ecb = length trg"
    "length ec = length trg'" "length ecb = length trg'"
    by (simp_all add: trg_def trg'_def ec_def ecb_def)
  from Decoder_init_forward_total[OF d0 _ v(1) l(1,2), of False "\<lambda>b n t c. True"]
  obtain out att where
    run: "Decoder_forward (d0\<lparr>dec_training := False\<rparr>) (\<lambda>b n t c. True) trg ec ecb
            = Inr (out, att)"
    by auto
  from Decoder_init_forward_total[OF d0 _ v(2) l(3,4), of False "\<lambda>b n t c. False"]
  obtain out' att' where
    run': "Decoder_forward (d0\<lparr>dec_training := False\<rparr>) (\<lambda>b n t c. False) trg' ec ecb
            = Inr (out', att')"
    by auto
  have h: "0 < length trg" "1 < length (trg ! 0)" "1 < length (trg' ! 0)"
    "take (Suc 1) (trg' ! 0) = take (Suc 1) (trg ! 0)"
    by (simp_all add: trg_def trg'_def)
  from decoder_causal[OF d0 run run' h]
  have "out' ! 0 ! 1 = out ! 0 ! 1" .
  with d0 run run' h show ?thesis
    unfolding trg_def trg'_def ec_def ecb_def by blast
qed

lemma Encoder_blocks_length:
  assumes "Encoder_blocks e r i convs x st = Inr (Some y)"
    and "\<forall>y0. st = Some y0 \<longrightarrow> length y0 = length x"
  shows "length y = length x"
  using assms
proof (induction convs arbitrary: x st i)
  case Nil
  then show ?case by simp
next
  case (Cons conv convs)
  from Cons.prems(1) obtain conved1 s where
    c1: "Conv1d_forward conv (Dropout_forward (enc_dropout e) (enc_training e) (r (i + 1)) x)
           = Inr conved1"
    and s: "tensor_add (map glu conved1) x = Inr s"
    and rest: "Encoder_blocks e r (i + 1) convs (tensor_mul s (enc_scale e))
                 (Some (tensor_mul s (enc_scale e))) = Inr (Some y)"
    by (auto simp: Let_def split: sum.splits)
  from s have ls: "length (tensor_mul s (enc_scale e)) = length x"
    by (auto simp: tensor_add_Inr_iff)
  from Cons.IH[OF rest] ls show ?case by simp
qed

lemma Encoder_element_length:
  assumes "Encoder_element e r src = Inr (conved, combined)"
  shows "length conved = length src" "length combined = length src"
proof -
  let ?pos = "map int [0..<length src]"
  from assms obtain tok where tok: "Embedding_forward (enc_tok_embedding e) src = Inr tok"
    by (simp add: Encoder_element_def Let_def split: sum.splits)
  from assms tok obtain pe where pe: "Embedding_forward (enc_pos_embedding e) ?pos = Inr pe"
    by (simp add: Encoder_element_def Let_def split: sum.splits)
  from assms tok pe obtain s where s: "tensor_add tok pe = Inr s"
    by (simp add: Encoder_element_def Let_def split: sum.splits)
  let ?emb = "Dropout_forward (enc_dropout e) (enc_training e) (r 0) s"
  let ?ci = "Linear_forward (enc_emb2hid e) ?emb"
  from assms tok pe s obtain y where
    y: "Encoder_blocks e r 0 (enc_convs e) ?ci None = Inr (Some y)"
    by (simp add: Encoder_element_def Let_def split: sum.splits option.splits)
  from assms tok pe s y obtain s2 where
    s2: "tensor_add (Linear_forward (enc_hid2emb e) y) ?emb = Inr s2"
    and res: "conved = Linear_forward (enc_hid2emb e) y" "combined = tensor_mul s2 (enc_scale e)"
    by (auto simp: Encoder_element_def Let_def split: sum.splits)
  have ls: "length s = length src"
    using s tok by (auto simp: tensor_add_Inr_iff Embedding_forward_Inr_iff)
  from Encoder_blocks_length[OF y] have ly: "length y = length src"
    using ls by simp
  then show "length conved = length src" by (simp add: res)
  from s2 ly show "length combined = length src"
    by (auto simp: res tensor_add_Inr_iff)
qed

lemma Encoder_forward_Inr:
  assumes "Encoder_forward e r src = Inr (conved, combined)"
  shows "length conved = length src" "length combined = length src"
    and "b < length src \<Longrightarrow>
           Encoder_element e (r b) (src ! b) = Inr (conved ! b, combined ! b)"
proof -
  from assms obtain outs where
    outs: "collect (map (\<lambda>b. Encoder_element e (r b) (src ! b)) [0..<length src]) = Inr outs"
    and res: "conved = map fst outs" "combined = map snd outs"
    by (auto simp: Encoder_forward_def split: sum.splits)
  from collect_length[OF outs] have lo: "length outs = length src" by simp
  then show "length conved = length src" "length combined = length src"
    by (simp_all add: res)
  assume b: "b < length src"
  with collect_nth[OF outs, of b]
  have "Encoder_element e (r b) (src ! b) = Inr (outs ! b)" by simp
  then show "Encoder_element e (r b) (src ! b) = Inr (conved ! b, combined ! b)"
    using lo b by (simp add: res)
qed

lemma attention_rows_positive:
  assumes "calculate_attention d embedded conved encoder_conved encoder_combined
             = Inr (attention, attended_combined)"
    and "row \<in> set attention"
  shows "length row = length encoder_conved" "w \<in> set row \<Longrightarrow> 0 < w"
proof -
  from calculate_attention_Inr(2)[OF assms(1)] assms(2)
  obtain en where en: "row = softmax en" "length en = length encoder_conved"
    by (auto simp: matmul_permuted_def)
  then show "length row = length encoder_conved" by simp
  assume "w \<in> set row"
  then obtain i where "i < length en" "w = softmax en ! i"
    unfolding en(1) by (metis in_set_conv_nth softmax_length)
  then show "0 < w" by (simp add: softmax_nth_pos)
qed

lemma Decoder_blocks_attention:
  assumes "Decoder_blocks d r h i emb ec ecb convs x st = Inr (Some (y, a))"
    and "length x = length emb"
    and "\<forall>y0 a0. st = Some (y0, a0) \<longrightarrow>
           length a0 = length emb \<and> (\<forall>row\<in>set a0. length row = length ec \<and> (\<forall>w\<in>set row. 0 < w))"
  shows "length a = length emb \<and> (\<forall>row\<in>set a. length row = length ec \<and> (\<forall>w\<in>set row. 0 < w))"
  using assms
proof (induction convs arbitrary: x st i)
  case Nil
  then show ?case by simp
next
  case (Cons conv convs)
  let ?x1 = "Dropout_forward (dec_dropout d) (dec_training d) (r (i + 1)) x"
  from Cons.prems(1) obtain padding conved1 attention conved2 s where
    c1: "Conv1d_forward conv (padding @ ?x1) = Inr conved1"
    and att: "calculate_attention d emb (map glu conved1) ec ecb = Inr (attention, conved2)"
    and s: "tensor_add conved2 ?x1 = Inr s"
    and rest: "Decoder_blocks d r h (i + 1) emb ec ecb convs (tensor_mul s (dec_scale d))
                 (Some (tensor_mul s (dec_scale d), attention)) = Inr (Some (y, a))"
    by (auto simp: Let_def split: sum.splits prod.splits)
  from s Cons.prems(2) have ls: "length (tensor_mul s (dec_scale d)) = length emb"
    by (auto simp: tensor_add_Inr_iff)
  from s have "length conved2 = length x" by (auto simp: tensor_add_Inr_iff)
  with calculate_attention_length[OF att] Cons.prems(2)
  have la: "length attention = length emb" by simp
  have "\<forall>row\<in>set attention. length row = length ec \<and> (\<forall>w\<in>set row. 0 < w)"
    using attention_rows_positive[OF att] by blast
  with la have "\<forall>y0 a0. Some (tensor_mul s (dec_scale d), attention) = Some (y0, a0) \<longrightarrow>
           length a0 = length emb \<and> (\<forall>row\<in>set a0. length row = length ec \<and> (\<forall>w\<in>set row. 0 < w))"
    by simp
  from Cons.IH[OF rest ls this] show ?case .
qed

lemma Decoder_element_attention:
  assumes "Decoder_element d r trg ec ecb = Inr (output, attention)"
  shows "length attention = length trg"
    and "row \<in> set attention \<Longrightarrow> length row = length ec \<and> (\<forall>w\<in>set row. 0 < w)"
proof -
  let ?pos = "map int [0..<length trg]"
  from assms obtain tok where tok: "Embedding_forward (dec_tok_embedding d) trg = Inr tok"
    by (simp add: Decoder_element_def Let_def split: sum.splits)
  from assms tok obtain pe where pe: "Embedding_forward (dec_pos_embedding d) ?pos = Inr pe"
    by (simp add: Decoder_element_def Let_def split: sum.splits)
  from assms tok pe obtain s where s: "tensor_add tok pe = Inr s"
    by (simp add: Decoder_element_def Let_def split: sum.splits)
  let ?emb = "Dropout_forward (dec_dropout d) (dec_training d) (r 0) s"
  let ?ci = "Linear_forward (dec_emb2hid d) ?emb"
  from assms tok pe s obtain conved where
    blocks: "Decoder_blocks d r (out_features (dec_emb2hid d)) 0 ?emb ec ecb (dec_convs d) ?ci None
               = Inr (Some (conved, attention))"
    by (auto simp: Decoder_element_def Let_def split: sum.splits option.splits prod.splits)
  have ls: "length s = length trg"
    using s tok by (auto simp: tensor_add_Inr_iff Embedding_forward_Inr_iff)
  have "length ?ci = length ?emb" by simp
  from Decoder_blocks_attention[OF blocks this]
  have a: "length attention = length ?emb"
    "\<forall>row\<in>set attention. length row = length ec \<and> (\<forall>w\<in>set row. 0 < w)"
    by simp_all
  from a(1) ls show "length attention = length trg" by simp
  assume "row \<in> set attention"
  with a(2) show "length row = length ec \<and> (\<forall>w\<in>set row. 0 < w)" by blast
qed

text \<open>
  Over the reals the attention the model returns has, for every batch element and every
  target position, one weight for each position of the source sequence, and each weight
  is positive. The section on 32-bit floats has what remains of this in the floats.
\<close>

lemma attention_positive_over_reals:
  assumes run: "Seq2Seq_forward m r src trg = Inr (output, attention)"
    and b: "b < length src" and t: "t < length (trg ! b)" and s: "s < length (src ! b)"
  shows "length (attention ! b) = length (trg ! b) \<and>
         length (attention ! b ! t) = length (src ! b) \<and>
         0 < attention ! b ! t ! s"
proof -
  from run obtain ec ecb where
    enc: "Encoder_forward (encoder m) (fst r) src = Inr (ec, ecb)"
    and dec: "Decoder_forward (decoder m) (snd r) trg ec ecb = Inr (output, attention)"
    by (auto simp: Seq2Seq_forward_def split: sum.splits)
  note e = Encoder_forward_Inr[OF enc]
  note d = Decoder_forward_Inr[OF dec]
  from b e(1) d(1) have b': "b < length trg" by simp
  from Encoder_element_length(1)[OF e(3)[OF b]] have lec: "length (ec ! b) = length (src ! b)" .
  note a = Decoder_element_attention[OF d(5)[OF b']]
  from a(1) t have row: "attention ! b ! t \<in> set (attention ! b)" by simp
  from a(2)[OF row] lec have r: "length (attention ! b ! t) = length (src ! b)"
    "\<forall>w\<in>set (attention ! b ! t). 0 < w"
    by simp_all
  from r(1) s have "attention ! b ! t ! s \<in> set (attention ! b ! t)" by simp
  with r(2) have "0 < attention ! b ! t ! s" by blast
  with a(1) r(1) show ?thesis by simp
qed

subsection \<open>The whole model, position lookups\<close>

lemma Seq2Seq_forward_total:
  assumes e0: "Encoder_init input_dim emb_dim hid_dim n_layers kernel_size dropout max_length init
                 = Inr e0"
    and d0: "Decoder_init output_dim emb_dim' hid_dim' n_layers' kernel_size' dropout' trg_pad_idx
               max_length' init' = Inr d0"
    and layers: "0 < n_layers" "0 < n_layers'"
    and src: "\<forall>s\<in>set src. length s = src_len \<and> (\<forall>tok\<in>set s. 0 \<le> tok \<and> tok < int input_dim)"
    and len: "0 < src_len" "src_len \<le> max_length"
    and trg: "\<forall>s\<in>set trg. s \<noteq> [] \<and> length s \<le> max_length' \<and>
                (\<forall>tok\<in>set s. 0 \<le> tok \<and> tok < int output_dim)"
    and batch: "length trg = length src"
  shows "\<exists>out att.
           Seq2Seq_forward \<lparr>encoder = e0\<lparr>enc_training := tr\<rparr>, decoder = d0\<lparr>dec_training := tr'\<rparr>\<rparr>
             r src trg = Inr (out, att)"
proof -
  from Encoder_init_forward_shape[OF e0 layers(1) src len, of tr "fst r"]
  obtain ec ecb where enc:
    "Encoder_forward (e0\<lparr>enc_training := tr\<rparr>) (fst r) src = Inr (ec, ecb)"
    "length ec = length src" "length ecb = length src"
    by blast
  from enc(2,3) batch have l: "length ec = length trg" "length ecb = length trg" by simp_all
  from Decoder_init_forward_total[OF d0 layers(2) trg l, of tr' "snd r"]
  obtain out att where
    "Decoder_forward (d0\<lparr>dec_training := tr'\<rparr>) (snd r) trg ec ecb = Inr (out, att)"
    by blast
  with enc(1) show ?thesis by (simp add: Seq2Seq_forward_def)
qed

lemma Embedding_forward_Inl:
  "Embedding_forward table idx = Inl err \<Longrightarrow> err = IndexError"
  by (auto simp: Embedding_forward_def Embedding_lookup_def dest!: collect_Inl split: if_splits)

lemma position_lookup_ok:
  assumes "n \<le> length table"
  shows "\<forall>p\<in>set (map int [0..<n]). 0 \<le> p \<and> p < int (length table)"
    and "Embedding_forward table (map int [0..<n]) = Inr (take n table)"
proof -
  show a: "\<forall>p\<in>set (map int [0..<n]). 0 \<le> p \<and> p < int (length table)"
    using assms by auto
  have "map (\<lambda>i. table ! nat i) (map int [0..<n]) = take n table"
    using assms by (auto intro!: nth_equalityI)
  with a show "Embedding_forward table (map int [0..<n]) = Inr (take n table)"
    by (simp add: Embedding_forward_Inr_iff)
qed

lemma position_lookup_fails:
  assumes "length table < n"
  shows "Embedding_forward table (map int [0..<n]) = Inl IndexError"
proof (cases "Embedding_forward table (map int [0..<n])")
  case (Inl err)
  with Embedding_forward_Inl[OF Inl] show ?thesis by simp
next
  case (Inr vs)
  then have "\<forall>i\<in>set (map int [0..<n]). 0 \<le> i \<and> i < int (length table)"
    by (simp add: Embedding_forward_Inr_iff)
  moreover from assms have "int (length table) \<in> set (map int [0..<n])" by simp
  ultimately show ?thesis by force
qed

lemma Encoder_element_too_long:
  assumes "length (enc_pos_embedding e) < length src"
  shows "Encoder_element e r src = Inl IndexError"
proof (cases "Embedding_forward (enc_tok_embedding e) src")
  case (Inl err)
  with Embedding_forward_Inl[OF Inl] show ?thesis
    by (simp add: Encoder_element_def Let_def)
next
  case (Inr tok)
  with position_lookup_fails[OF assms] show ?thesis
    by (simp add: Encoder_element_def Let_def)
qed

lemma Decoder_element_too_long:
  assumes "length (dec_pos_embedding d) < length trg"
  shows "Decoder_element d r trg ec ecb = Inl IndexError"
proof (cases "Embedding_forward (dec_tok_embedding d) trg")
  case (Inl err)
  with Embedding_forward_Inl[OF Inl] show ?thesis
    by (simp add: Decoder_element_def Let_def)
next
  case (Inr tok)
  with position_lookup_fails[OF assms] show ?thesis
    by (simp add: Decoder_element_def Let_def)
qed

lemma tensor_add_Inl: "tensor_add xs ys = Inl err \<Longrightarrow> err = RuntimeError"
  by (auto simp: tensor_add_def split: if_splits)

lemma Conv1d_forward_Inl: "Conv1d_forward c xs = Inl err \<Longrightarrow> err = RuntimeError"
  by (auto simp: Conv1d_forward_def Let_def split: if_splits)

lemma decoder_padding_Inl: "decoder_padding d h = Inl err \<Longrightarrow> err = RuntimeError"
  by (auto simp: decoder_padding_def split: if_splits)

lemma calculate_attention_Inl:
  "calculate_attention d embedded conved ec ecb = Inl err \<Longrightarrow> err = RuntimeError"
  by (auto simp: calculate_attention_def Let_def split: sum.splits dest: tensor_add_Inl)

lemma Encoder_blocks_Inl:
  "Encoder_blocks e r i convs x st = Inl err \<Longrightarrow> err = RuntimeError"
proof (induction convs arbitrary: x st i)
  case Nil
  then show ?case by simp
next
  case (Cons conv convs)
  from Cons.prems show ?case
    by (auto simp: Let_def split: sum.splits
        dest: Conv1d_forward_Inl tensor_add_Inl Cons.IH)
qed

lemma Decoder_blocks_Inl:
  "Decoder_blocks d r h i emb ec ecb convs x st = Inl err \<Longrightarrow> err = RuntimeError"
proof (induction convs arbitrary: x st i)
  case Nil
  then show ?case by simp
next
  case (Cons conv convs)
  from Cons.prems show ?case
    by (auto simp: Let_def split: sum.splits prod.splits
        dest: Conv1d_forward_Inl tensor_add_Inl decoder_padding_Inl calculate_attention_Inl
          Cons.IH)
qed

lemma Encoder_element_lookups_return:
  assumes tok: "\<forall>t\<in>set src. 0 \<le> t \<and> t < int (length (enc_tok_embedding e))"
    and pos: "length src \<le> length (enc_pos_embedding e)"
  shows "Encoder_element e r src \<noteq> Inl IndexError"
proof
  assume f: "Encoder_element e r src = Inl IndexError"
  let ?tok = "map (\<lambda>i. enc_tok_embedding e ! nat i) src"
  let ?pos = "take (length src) (enc_pos_embedding e)"
  have tok_eq: "Embedding_forward (enc_tok_embedding e) src = Inr ?tok"
    using tok by (simp add: Embedding_forward_Inr_iff)
  have pos_eq: "Embedding_forward (enc_pos_embedding e) (map int [0..<length src]) = Inr ?pos"
    by (rule position_lookup_ok(2)[OF pos])
  have add_eq: "tensor_add ?tok ?pos = Inr (map2 vadd ?tok ?pos)"
    using pos by (simp add: tensor_add_def)
  from f show False
    unfolding Encoder_element_def Let_def tok_eq pos_eq add_eq sum.case
    by (auto split: sum.splits option.splits dest: Encoder_blocks_Inl tensor_add_Inl)
qed

lemma Decoder_element_lookups_return:
  assumes tok: "\<forall>t\<in>set trg. 0 \<le> t \<and> t < int (length (dec_tok_embedding d))"
    and pos: "length trg \<le> length (dec_pos_embedding d)"
  shows "Decoder_element d r trg ec ecb \<noteq> Inl IndexError"
proof
  assume f: "Decoder_element d r trg ec ecb = Inl IndexError"
  let ?tok = "map (\<lambda>i. dec_tok_embedding d ! nat i) trg"
  let ?pos = "take (length trg) (dec_pos_embedding d)"
  have tok_eq: "Embedding_forward (dec_tok_embedding d) trg = Inr ?tok"
    using tok by (simp add: Embedding_forward_Inr_iff)
  have pos_eq: "Embedding_forward (dec_pos_embedding d) (map int [0..<length trg]) = Inr ?pos"
    by (rule position_lookup_ok(2)[OF pos])
  have add_eq: "tensor_add ?tok ?pos = Inr (map2 vadd ?tok ?pos)"
    using pos by (simp add: tensor_add_def)
  from f show False
    unfolding Decoder_element_def Let_def tok_eq pos_eq add_eq sum.case
    by (auto split: sum.splits option.splits prod.splits dest: Decoder_blocks_Inl)
qed

lemma position_lookup_Inr:
  assumes "Embedding_forward table (map int [0..<n]) = Inr pe"
  shows "n \<le> length table" "pe = take n table"
proof -
  show le: "n \<le> length table"
  proof (rule ccontr)
    assume "\<not> n \<le> length table"
    then have "length table < n" by simp
    from position_lookup_fails[OF this] assms show False by simp
  qed
  from position_lookup_ok(2)[OF le] assms show "pe = take n table" by simp
qed

lemma Encoder_element_positions:
  assumes "Encoder_element e r src = Inr (conved, combined)"
  shows "length src \<le> length (enc_pos_embedding e)"
    and "\<exists>tok_embedded y.
           Embedding_forward (enc_tok_embedding e) src = Inr tok_embedded \<and>
           Encoder_blocks e r 0 (enc_convs e)
             (Linear_forward (enc_emb2hid e)
                (Dropout_forward (enc_dropout e) (enc_training e) (r 0)
                   (map2 vadd tok_embedded (take (length src) (enc_pos_embedding e))))) None
             = Inr (Some y) \<and>
           conved = Linear_forward (enc_hid2emb e) y \<and>
           combined = tensor_mul
                        (map2 vadd conved
                           (Dropout_forward (enc_dropout e) (enc_training e) (r 0)
                              (map2 vadd tok_embedded (take (length src) (enc_pos_embedding e)))))
                        (enc_scale e)"
proof -
  let ?pos = "map int [0..<length src]"
  from assms obtain tok where tok: "Embedding_forward (enc_tok_embedding e) src = Inr tok"
    by (simp add: Encoder_element_def Let_def split: sum.splits)
  from assms tok obtain pe where pe: "Embedding_forward (enc_pos_embedding e) ?pos = Inr pe"
    by (simp add: Encoder_element_def Let_def split: sum.splits)
  note p = position_lookup_Inr[OF pe]
  show "length src \<le> length (enc_pos_embedding e)" by (rule p(1))
  from assms tok pe obtain s where s: "tensor_add tok pe = Inr s"
    by (simp add: Encoder_element_def Let_def split: sum.splits)
  let ?emb = "Dropout_forward (enc_dropout e) (enc_training e) (r 0) s"
  let ?ci = "Linear_forward (enc_emb2hid e) ?emb"
  from assms tok pe s obtain y where
    y: "Encoder_blocks e r 0 (enc_convs e) ?ci None = Inr (Some y)"
    by (simp add: Encoder_element_def Let_def split: sum.splits option.splits)
  from assms tok pe s y obtain s2 where
    s2: "tensor_add (Linear_forward (enc_hid2emb e) y) ?emb = Inr s2"
    and res: "conved = Linear_forward (enc_hid2emb e) y" "combined = tensor_mul s2 (enc_scale e)"
    by (auto simp: Encoder_element_def Let_def split: sum.splits)
  from s have seq: "s = map2 vadd tok (take (length src) (enc_pos_embedding e))"
    by (simp add: tensor_add_Inr_iff p(2))
  from s2 have "s2 = map2 vadd conved ?emb" by (simp add: tensor_add_Inr_iff res)
  with tok y res show "\<exists>tok_embedded y.
           Embedding_forward (enc_tok_embedding e) src = Inr tok_embedded \<and>
           Encoder_blocks e r 0 (enc_convs e)
             (Linear_forward (enc_emb2hid e)
                (Dropout_forward (enc_dropout e) (enc_training e) (r 0)
                   (map2 vadd tok_embedded (take (length src) (enc_pos_embedding e))))) None
             = Inr (Some y) \<and>
           conved = Linear_forward (enc_hid2emb e) y \<and>
           combined = tensor_mul
                        (map2 vadd conved
                           (Dropout_forward (enc_dropout e) (enc_training e) (r 0)
                              (map2 vadd tok_embedded (take (length src) (enc_pos_embedding e)))))
                        (enc_scale e)"
    unfolding seq by blast
qed

lemma Decoder_element_positions:
  assumes "Decoder_element d r trg ec ecb = Inr (output, attention)"
  shows "length trg \<le> length (dec_pos_embedding d)"
    and "\<exists>tok_embedded conved.
           Embedding_forward (dec_tok_embedding d) trg = Inr tok_embedded \<and>
           Decoder_blocks d r (out_features (dec_emb2hid d)) 0
             (Dropout_forward (dec_dropout d) (dec_training d) (r 0)
                (map2 vadd tok_embedded (take (length trg) (dec_pos_embedding d))))
             ec ecb (dec_convs d)
             (Linear_forward (dec_emb2hid d)
                (Dropout_forward (dec_dropout d) (dec_training d) (r 0)
                   (map2 vadd tok_embedded (take (length trg) (dec_pos_embedding d))))) None
             = Inr (Some (conved, attention)) \<and>
           output = Linear_forward (dec_fc_out d)
                      (Dropout_forward (dec_dropout d) (dec_training d)
                         (r (length (dec_convs d) + 1))
                         (Linear_forward (dec_hid2emb d) conved))"
proof -
  let ?pos = "map int [0..<length trg]"
  from assms obtain tok where tok: "Embedding_forward (dec_tok_embedding d) trg = Inr tok"
    by (simp add: Decoder_element_def Let_def split: sum.splits)
  from assms tok obtain pe where pe: "Embedding_forward (dec_pos_embedding d) ?pos = Inr pe"
    by (simp add: Decoder_element_def Let_def split: sum.splits)
  note p = position_lookup_Inr[OF pe]
  show "length trg \<le> length (dec_pos_embedding d)" by (rule p(1))
  from assms tok pe obtain s where s: "tensor_add tok pe = Inr s"
    by (simp add: Decoder_element_def Let_def split: sum.splits)
  let ?emb = "Dropout_forward (dec_dropout d) (dec_training d) (r 0) s"
  let ?ci = "Linear_forward (dec_emb2hid d) ?emb"
  from assms tok pe s obtain conved where
    blocks: "Decoder_blocks d r (out_features (dec_emb2hid d)) 0 ?emb ec ecb (dec_convs d) ?ci None
               = Inr (Some (conved, attention))"
    by (auto simp: Decoder_element_def Let_def split: sum.splits option.splits prod.splits)
  from assms tok pe s blocks have out:
    "output = Linear_forward (dec_fc_out d)
                (Dropout_forward (dec_dropout d) (dec_training d) (r (length (dec_convs d) + 1))
                   (Linear_forward (dec_hid2emb d) conved))"
    by (simp add: Decoder_element_def Let_def)
  from s have seq: "s = map2 vadd tok (take (length trg) (dec_pos_embedding d))"
    by (simp add: tensor_add_Inr_iff p(2))
  from tok blocks out show "\<exists>tok_embedded conved.
           Embedding_forward (dec_tok_embedding d) trg = Inr tok_embedded \<and>
           Decoder_blocks d r (out_features (dec_emb2hid d)) 0
             (Dropout_forward (dec_dropout d) (dec_training d) (r 0)
                (map2 vadd tok_embedded (take (length trg) (dec_pos_embedding d))))
             ec ecb (dec_convs d)
             (Linear_forward (dec_emb2hid d)
                (Dropout_forward (dec_dropout d) (dec_training d) (r 0)
                   (map2 vadd tok_embedded (take (length trg) (dec_pos_embedding d))))) None
             = Inr (Some (conved, attention)) \<and>
           output = Linear_forward (dec_fc_out d)
                      (Dropout_forward (dec_dropout d) (dec_training d)
                         (r (length (dec_convs d) + 1))
                         (Linear_forward (dec_hid2emb d) conved))"
    unfolding seq by blast
qed

text \<open>
  Claim C9. The position table of a constructed encoder or decoder has max_length rows,
  and the forward pass looks up the positions 0, ..., len - 1. For a sequence of length
  at most max_length every position is inside the table, the lookup returns rows
  0, ..., len - 1 of the table, and the forward pass on tokens of the vocabulary does
  not end in an IndexError. Every forward pass that returns was on a sequence of length
  at most max_length and computed on exactly these rows. The model has no check of its
  own on the length: on a longer sequence the forward pass is the IndexError of a
  lookup, neither a truncated result nor another rejection. All of this in either mode.
\<close>

theorem position_lookup_in_range:
  assumes e0: "Encoder_init input_dim emb_dim hid_dim n_layers kernel_size dropout max_length init
                 = Inr e0"
    and d0: "Decoder_init output_dim emb_dim' hid_dim' n_layers' kernel_size' dropout' trg_pad_idx
               max_length' init' = Inr d0"
    and e: "e = e0\<lparr>enc_training := tr\<rparr>" and d: "d = d0\<lparr>dec_training := tr'\<rparr>"
  shows "(length src \<le> max_length \<longrightarrow>
            (\<forall>p\<in>set (map int [0..<length src]). 0 \<le> p \<and> p < int max_length) \<and>
            Embedding_forward (enc_pos_embedding e) (map int [0..<length src])
              = Inr (take (length src) (enc_pos_embedding e)) \<and>
            ((\<forall>t\<in>set src. 0 \<le> t \<and> t < int input_dim) \<longrightarrow>
               Encoder_element e r src \<noteq> Inl IndexError)) \<and>
         (\<forall>conved combined. Encoder_element e r src = Inr (conved, combined) \<longrightarrow>
            length src \<le> max_length \<and>
            (\<exists>tok_embedded y.
               Embedding_forward (enc_tok_embedding e) src = Inr tok_embedded \<and>
               Encoder_blocks e r 0 (enc_convs e)
                 (Linear_forward (enc_emb2hid e)
                    (Dropout_forward (enc_dropout e) (enc_training e) (r 0)
                       (map2 vadd tok_embedded (take (length src) (enc_pos_embedding e))))) None
                 = Inr (Some y) \<and>
               conved = Linear_forward (enc_hid2emb e) y \<and>
               combined = tensor_mul
                            (map2 vadd conved
                               (Dropout_forward (enc_dropout e) (enc_training e) (r 0)
                                  (map2 vadd tok_embedded
                                     (take (length src) (enc_pos_embedding e)))))
                            (enc_scale e))) \<and>
         (max_length < length src \<longrightarrow> Encoder_element e r src = Inl IndexError) \<and>
         (length trg \<le> max_length' \<longrightarrow>
            (\<forall>p\<in>set (map int [0..<length trg]). 0 \<le> p \<and> p < int max_length') \<and>
            Embedding_forward (dec_pos_embedding d) (map int [0..<length trg])
              = Inr (take (length trg) (dec_pos_embedding d)) \<and>
            ((\<forall>t\<in>set trg. 0 \<le> t \<and> t < int output_dim) \<longrightarrow>
               Decoder_element d r' trg ec ecb \<noteq> Inl IndexError)) \<and>
         (\<forall>out attention. Decoder_element d r' trg ec ecb = Inr (out, attention) \<longrightarrow>
            length trg \<le> max_length' \<and>
            (\<exists>tok_embedded conved.
               Embedding_forward (dec_tok_embedding d) trg = Inr tok_embedded \<and>
               Decoder_blocks d r' (out_features (dec_emb2hid d)) 0
                 (Dropout_forward (dec_dropout d) (dec_training d) (r' 0)
                    (map2 vadd tok_embedded (take (length trg) (dec_pos_embedding d))))
                 ec ecb (dec_convs d)
                 (Linear_forward (dec_emb2hid d)
                    (Dropout_forward (dec_dropout d) (dec_training d) (r' 0)
                       (map2 vadd tok_embedded (take (length trg) (dec_pos_embedding d))))) None
                 = Inr (Some (conved, attention)) \<and>
               out = Linear_forward (dec_fc_out d)
                       (Dropout_forward (dec_dropout d) (dec_training d)
                          (r' (length (dec_convs d) + 1))
                          (Linear_forward (dec_hid2emb d) conved)))) \<and>
         (max_length' < length trg \<longrightarrow> Decoder_element d r' trg ec ecb = Inl IndexError)"
proof -
  have le: "length (enc_pos_embedding e) = max_length"
    by (simp add: e Encoder_init_Inr(4)[OF e0] Embedding_init_shape)
  have ld: "length (dec_pos_embedding d) = max_length'"
    by (simp add: d Decoder_init_Inr(5)[OF d0] Embedding_init_shape)
  have te: "length (enc_tok_embedding e) = input_dim"
    by (simp add: e Encoder_init_Inr(3)[OF e0] Embedding_init_shape)
  have td: "length (dec_tok_embedding d) = output_dim"
    by (simp add: d Decoder_init_Inr(4)[OF d0] Embedding_init_shape)
  have 1: "(\<forall>p\<in>set (map int [0..<length src]). 0 \<le> p \<and> p < int max_length) \<and>
            Embedding_forward (enc_pos_embedding e) (map int [0..<length src])
              = Inr (take (length src) (enc_pos_embedding e)) \<and>
            ((\<forall>t\<in>set src. 0 \<le> t \<and> t < int input_dim) \<longrightarrow>
               Encoder_element e r src \<noteq> Inl IndexError)"
    if "length src \<le> max_length"
    using position_lookup_ok[of "length src" "enc_pos_embedding e"]
      Encoder_element_lookups_return[of src e r] that le te
    by auto
  have 2: "length src \<le> max_length \<and>
            (\<exists>tok_embedded y.
               Embedding_forward (enc_tok_embedding e) src = Inr tok_embedded \<and>
               Encoder_blocks e r 0 (enc_convs e)
                 (Linear_forward (enc_emb2hid e)
                    (Dropout_forward (enc_dropout e) (enc_training e) (r 0)
                       (map2 vadd tok_embedded (take (length src) (enc_pos_embedding e))))) None
                 = Inr (Some y) \<and>
               conved = Linear_forward (enc_hid2emb e) y \<and>
               combined = tensor_mul
                            (map2 vadd conved
                               (Dropout_forward (enc_dropout e) (enc_training e) (r 0)
                                  (map2 vadd tok_embedded
                                     (take (length src) (enc_pos_embedding e)))))
                            (enc_scale e))"
    if "Encoder_element e r src = Inr (conved, combined)" for conved combined
    using Encoder_element_positions[OF that] le by simp
  have 3: "Encoder_element e r src = Inl IndexError" if "max_length < length src"
    using Encoder_element_too_long[of e src r] that le by simp
  have 4: "(\<forall>p\<in>set (map int [0..<length trg]). 0 \<le> p \<and> p < int max_length') \<and>
            Embedding_forward (dec_pos_embedding d) (map int [0..<length trg])
              = Inr (take (length trg) (dec_pos_embedding d)) \<and>
            ((\<forall>t\<in>set trg. 0 \<le> t \<and> t < int output_dim) \<longrightarrow>
               Decoder_element d r' trg ec ecb \<noteq> Inl IndexError)"
    if "length trg \<le> max_length'"
    using position_lookup_ok[of "length trg" "dec_pos_embedding d"]
      Decoder_element_lookups_return[of trg d r' ec ecb] that ld td
    by auto
  have 5: "length trg \<le> max_length' \<and>
            (\<exists>tok_embedded conved.
               Embedding_forward (dec_tok_embedding d) trg = Inr tok_embedded \<and>
               Decoder_blocks d r' (out_features (dec_emb2hid d)) 0
                 (Dropout_forward (dec_dropout d) (dec_training d) (r' 0)
                    (map2 vadd tok_embedded (take (length trg) (dec_pos_embedding d))))
                 ec ecb (dec_convs d)
                 (Linear_forward (dec_emb2hid d)
                    (Dropout_forward (dec_dropout d) (dec_training d) (r' 0)
                       (map2 vadd tok_embedded (take (length trg) (dec_pos_embedding d))))) None
                 = Inr (Some (conved, attention)) \<and>
               out = Linear_forward (dec_fc_out d)
                       (Dropout_forward (dec_dropout d) (dec_training d)
                          (r' (length (dec_convs d) + 1))
                          (Linear_forward (dec_hid2emb d) conved)))"
    if "Decoder_element d r' trg ec ecb = Inr (out, attention)" for out attention
    using Decoder_element_positions[OF that] ld by simp
  have 6: "Decoder_element d r' trg ec ecb = Inl IndexError" if "max_length' < length trg"
    using Decoder_element_too_long[of d trg r' ec ecb] that ld by simp
  from 1 2 3 4 5 6 show ?thesis by blast
qed

subsection \<open>Padding and scale of the blocks\<close>

lemma Encoder_block_Inr:
  assumes "Encoder_blocks e r i [conv] x st = Inr res"
  shows "\<exists>conved. Conv1d_forward conv
                     (Dropout_forward (enc_dropout e) (enc_training e) (r (i + 1)) x) = Inr conved \<and>
                   length conved = length x \<and>
                   res = Some (tensor_mul (map2 vadd (map glu conved) x) (enc_scale e))"
  using assms
  by (auto simp: Let_def tensor_add_Inr_iff split: sum.splits)




lemma Encoder_element_Inr:
  assumes "Encoder_element e r src = Inr (conved, combined)"
  shows "\<exists>tok_embedded pos_embedded y.
           Embedding_forward (enc_tok_embedding e) src = Inr tok_embedded \<and>
           Embedding_forward (enc_pos_embedding e) (map int [0..<length src]) = Inr pos_embedded \<and>
           Encoder_blocks e r 0 (enc_convs e)
             (Linear_forward (enc_emb2hid e)
                (Dropout_forward (enc_dropout e) (enc_training e) (r 0)
                   (map2 vadd tok_embedded pos_embedded))) None = Inr (Some y) \<and>
           conved = Linear_forward (enc_hid2emb e) y \<and>
           combined = tensor_mul
                        (map2 vadd conved
                           (Dropout_forward (enc_dropout e) (enc_training e) (r 0)
                              (map2 vadd tok_embedded pos_embedded)))
                        (enc_scale e)"
proof -
  let ?pos = "map int [0..<length src]"
  from assms obtain tok where tok: "Embedding_forward (enc_tok_embedding e) src = Inr tok"
    by (simp add: Encoder_element_def Let_def split: sum.splits)
  from assms tok obtain pe where pe: "Embedding_forward (enc_pos_embedding e) ?pos = Inr pe"
    by (simp add: Encoder_element_def Let_def split: sum.splits)
  from assms tok pe obtain s where s: "tensor_add tok pe = Inr s"
    by (simp add: Encoder_element_def Let_def split: sum.splits)
  let ?emb = "Dropout_forward (enc_dropout e) (enc_training e) (r 0) s"
  let ?ci = "Linear_forward (enc_emb2hid e) ?emb"
  from assms tok pe s obtain y where
    y: "Encoder_blocks e r 0 (enc_convs e) ?ci None = Inr (Some y)"
    by (simp add: Encoder_element_def Let_def split: sum.splits option.splits)
  from assms tok pe s y obtain s2 where
    s2: "tensor_add (Linear_forward (enc_hid2emb e) y) ?emb = Inr s2"
    and res: "conved = Linear_forward (enc_hid2emb e) y" "combined = tensor_mul s2 (enc_scale e)"
    by (auto simp: Encoder_element_def Let_def split: sum.splits)
  from s have seq: "s = map2 vadd tok pe" by (simp add: tensor_add_Inr_iff)
  from s2 have "s2 = map2 vadd conved ?emb" by (simp add: tensor_add_Inr_iff res)
  with tok pe y res show ?thesis unfolding seq by blast
qed

lemma Encoder_blocks_step:
  assumes "Encoder_blocks e r i (conv # convs) x st = Inr res"
  shows "\<exists>conved. Conv1d_forward conv
                     (Dropout_forward (enc_dropout e) (enc_training e) (r (i + 1)) x) = Inr conved \<and>
                   Encoder_blocks e r (i + 1) convs
                     (tensor_mul (map2 vadd (map glu conved) x) (enc_scale e))
                     (Some (tensor_mul (map2 vadd (map glu conved) x) (enc_scale e))) = Inr res"
proof -
  from assms obtain conved where
    c: "Conv1d_forward conv (Dropout_forward (enc_dropout e) (enc_training e) (r (i + 1)) x)
          = Inr conved"
    by (simp split: sum.splits)
  from assms c obtain s where s: "tensor_add (map glu conved) x = Inr s"
    by (simp split: sum.splits)
  from s have "s = map2 vadd (map glu conved) x" by (simp add: tensor_add_Inr_iff)
  with assms c s show ?thesis by (simp add: Let_def)
qed

lemma Decoder_blocks_step:
  assumes "Decoder_blocks d r h i emb ec ecb (conv # convs) x st = Inr res"
  shows "\<exists>padding conved a c2.
           decoder_padding d h = Inr padding \<and>
           Conv1d_forward conv
             (padding @ Dropout_forward (dec_dropout d) (dec_training d) (r (i + 1)) x)
             = Inr conved \<and>
           calculate_attention d emb (map glu conved) ec ecb = Inr (a, c2) \<and>
           Decoder_blocks d r h (i + 1) emb ec ecb convs
             (tensor_mul
                (map2 vadd c2 (Dropout_forward (dec_dropout d) (dec_training d) (r (i + 1)) x))
                (dec_scale d))
             (Some (tensor_mul
                      (map2 vadd c2
                         (Dropout_forward (dec_dropout d) (dec_training d) (r (i + 1)) x))
                      (dec_scale d), a)) = Inr res"
proof -
  let ?x1 = "Dropout_forward (dec_dropout d) (dec_training d) (r (i + 1)) x"
  from assms obtain padding where pad: "decoder_padding d h = Inr padding"
    by (simp add: Let_def split: sum.splits)
  from assms pad obtain conved where c1: "Conv1d_forward conv (padding @ ?x1) = Inr conved"
    by (simp add: Let_def split: sum.splits)
  from assms pad c1 obtain a c2 where
    att: "calculate_attention d emb (map glu conved) ec ecb = Inr (a, c2)"
    by (simp add: Let_def split: sum.splits prod.splits)
  from assms pad c1 att obtain s where s: "tensor_add c2 ?x1 = Inr s"
    by (simp add: Let_def split: sum.splits)
  from s have "s = map2 vadd c2 ?x1" by (simp add: tensor_add_Inr_iff)
  with assms pad c1 att s have
    "Decoder_blocks d r h (i + 1) emb ec ecb convs (tensor_mul (map2 vadd c2 ?x1) (dec_scale d))
       (Some (tensor_mul (map2 vadd c2 ?x1) (dec_scale d), a)) = Inr res"
    by (simp add: Let_def)
  with pad c1 att show ?thesis by blast
qed

lemma scale_constant_eq: "scale_constant = sqrt 0.5"
  by (simp add: scale_constant_def)

text \<open>
  Claim C8. Both constructors set the scale to the square root of 0.5, so the encoder,
  the decoder and the attention computation, which reads the decoder's scale, use one
  constant. Each of the five residual sums is multiplied by it, in either mode: in
  every iteration of the encoder's block loop (the convolution's gated output plus the
  block's input), in the encoder's combined output (conved plus the embedding), in the
  query of the attention computation (the projected conved plus the embedding), in its
  result (conved plus the projected attended encoding), and in every iteration of the
  decoder's block loop (the attention's result plus the block's input). Each iteration
  hands the scaled sum to the rest of the loop.
\<close>

theorem scale_after_every_residual_sum:
  assumes e0: "Encoder_init input_dim emb_dim hid_dim n_layers kernel_size dropout max_length init
                 = Inr e0"
    and d0: "Decoder_init output_dim emb_dim' hid_dim' n_layers' kernel_size' dropout' trg_pad_idx
               max_length' init' = Inr d0"
    and e: "e = e0\<lparr>enc_training := tr\<rparr>" and d: "d = d0\<lparr>dec_training := tr'\<rparr>"
  shows "enc_scale e = sqrt 0.5 \<and> dec_scale d = sqrt 0.5 \<and>
    (\<forall>res. Encoder_blocks e r i (conv # convs) x st = Inr res \<longrightarrow>
       (\<exists>conved. Conv1d_forward conv
                    (Dropout_forward (enc_dropout e) (enc_training e) (r (i + 1)) x) = Inr conved \<and>
                  Encoder_blocks e r (i + 1) convs
                    (tensor_mul (map2 vadd (map glu conved) x) (sqrt 0.5))
                    (Some (tensor_mul (map2 vadd (map glu conved) x) (sqrt 0.5))) = Inr res)) \<and>
    (\<forall>conved combined. Encoder_element e r src = Inr (conved, combined) \<longrightarrow>
       (\<exists>tok_embedded pos_embedded y.
          Embedding_forward (enc_tok_embedding e) src = Inr tok_embedded \<and>
          Embedding_forward (enc_pos_embedding e) (map int [0..<length src]) = Inr pos_embedded \<and>
          Encoder_blocks e r 0 (enc_convs e)
            (Linear_forward (enc_emb2hid e)
               (Dropout_forward (enc_dropout e) (enc_training e) (r 0)
                  (map2 vadd tok_embedded pos_embedded))) None = Inr (Some y) \<and>
          conved = Linear_forward (enc_hid2emb e) y \<and>
          combined = tensor_mul
                       (map2 vadd conved
                          (Dropout_forward (enc_dropout e) (enc_training e) (r 0)
                             (map2 vadd tok_embedded pos_embedded)))
                       (sqrt 0.5))) \<and>
    (\<forall>attention attended_combined.
       calculate_attention d embedded cv ec ecb = Inr (attention, attended_combined) \<longrightarrow>
       attention = map softmax (matmul_permuted
                     (tensor_mul (map2 vadd (Linear_forward (dec_attn_hid2emb d) cv) embedded)
                        (sqrt 0.5)) ec) \<and>
       attended_combined = tensor_mul
                             (map2 vadd cv
                                (Linear_forward (dec_attn_emb2hid d) (matmul attention ecb)))
                             (sqrt 0.5)) \<and>
    (\<forall>res. Decoder_blocks d r' h i' emb ec ecb (conv' # convs') x' st' = Inr res \<longrightarrow>
       (\<exists>padding conved a c2.
          decoder_padding d h = Inr padding \<and>
          Conv1d_forward conv'
            (padding @ Dropout_forward (dec_dropout d) (dec_training d) (r' (i' + 1)) x')
            = Inr conved \<and>
          calculate_attention d emb (map glu conved) ec ecb = Inr (a, c2) \<and>
          Decoder_blocks d r' h (i' + 1) emb ec ecb convs'
            (tensor_mul
               (map2 vadd c2 (Dropout_forward (dec_dropout d) (dec_training d) (r' (i' + 1)) x'))
               (sqrt 0.5))
            (Some (tensor_mul
                     (map2 vadd c2
                        (Dropout_forward (dec_dropout d) (dec_training d) (r' (i' + 1)) x'))
                     (sqrt 0.5), a)) = Inr res))"
proof -
  have se: "enc_scale e = sqrt 0.5"
    by (simp add: e Encoder_init_Inr(2)[OF e0] scale_constant_eq)
  have sd: "dec_scale d = sqrt 0.5"
    by (simp add: d Decoder_init_Inr(3)[OF d0] scale_constant_eq)
  have 1: "\<exists>conved. Conv1d_forward conv
                    (Dropout_forward (enc_dropout e) (enc_training e) (r (i + 1)) x) = Inr conved \<and>
                  Encoder_blocks e r (i + 1) convs
                    (tensor_mul (map2 vadd (map glu conved) x) (sqrt 0.5))
                    (Some (tensor_mul (map2 vadd (map glu conved) x) (sqrt 0.5))) = Inr res"
    if "Encoder_blocks e r i (conv # convs) x st = Inr res" for res
    using Encoder_blocks_step[OF that] unfolding se .
  have 2: "\<exists>tok_embedded pos_embedded y.
          Embedding_forward (enc_tok_embedding e) src = Inr tok_embedded \<and>
          Embedding_forward (enc_pos_embedding e) (map int [0..<length src]) = Inr pos_embedded \<and>
          Encoder_blocks e r 0 (enc_convs e)
            (Linear_forward (enc_emb2hid e)
               (Dropout_forward (enc_dropout e) (enc_training e) (r 0)
                  (map2 vadd tok_embedded pos_embedded))) None = Inr (Some y) \<and>
          conved = Linear_forward (enc_hid2emb e) y \<and>
          combined = tensor_mul
                       (map2 vadd conved
                          (Dropout_forward (enc_dropout e) (enc_training e) (r 0)
                             (map2 vadd tok_embedded pos_embedded)))
                       (sqrt 0.5)"
    if "Encoder_element e r src = Inr (conved, combined)" for conved combined
    using Encoder_element_Inr[OF that] unfolding se .
  have 3: "attention = map softmax (matmul_permuted
                     (tensor_mul (map2 vadd (Linear_forward (dec_attn_hid2emb d) cv) embedded)
                        (sqrt 0.5)) ec) \<and>
       attended_combined = tensor_mul
                             (map2 vadd cv
                                (Linear_forward (dec_attn_emb2hid d) (matmul attention ecb)))
                             (sqrt 0.5)"
    if "calculate_attention d embedded cv ec ecb = Inr (attention, attended_combined)"
    for attention attended_combined
    using calculate_attention_Inr(2,3)[OF that] unfolding sd by blast
  have 4: "\<exists>padding conved a c2.
          decoder_padding d h = Inr padding \<and>
          Conv1d_forward conv'
            (padding @ Dropout_forward (dec_dropout d) (dec_training d) (r' (i' + 1)) x')
            = Inr conved \<and>
          calculate_attention d emb (map glu conved) ec ecb = Inr (a, c2) \<and>
          Decoder_blocks d r' h (i' + 1) emb ec ecb convs'
            (tensor_mul
               (map2 vadd c2 (Dropout_forward (dec_dropout d) (dec_training d) (r' (i' + 1)) x'))
               (sqrt 0.5))
            (Some (tensor_mul
                     (map2 vadd c2
                        (Dropout_forward (dec_dropout d) (dec_training d) (r' (i' + 1)) x'))
                     (sqrt 0.5), a)) = Inr res"
    if "Decoder_blocks d r' h i' emb ec ecb (conv' # convs') x' st' = Inr res" for res
    using Decoder_blocks_step[OF that] unfolding sd .
  from se sd 1 2 3 4 show ?thesis by blast
qed

theorem scale_after_every_residual_sum_witness:
  "\<exists>e0 d0 conv conv' res cv conved combined tok_embedded pos_embedded attention
      attended_combined res' padding cv' a c2.
     Encoder_init 5 2 3 1 3 (1 / 4) 4 (\<lambda>name i j k. 1 / 2) = Inr e0 \<and>
     Decoder_init 5 2 3 1 2 (1 / 4) 1 4 (\<lambda>name i j k. 1 / 2) = Inr d0 \<and>
     enc_scale (e0\<lparr>enc_training := False\<rparr>) = sqrt 0.5 \<and>
     dec_scale (d0\<lparr>dec_training := False\<rparr>) = sqrt 0.5 \<and>
     Encoder_blocks (e0\<lparr>enc_training := False\<rparr>) (\<lambda>n t c. True) 0 [conv] [[1, 2, 3]] None
       = Inr res \<and>
     Conv1d_forward conv
       (Dropout_forward (enc_dropout (e0\<lparr>enc_training := False\<rparr>))
          (enc_training (e0\<lparr>enc_training := False\<rparr>)) (\<lambda>t c. True) [[1, 2, 3]]) = Inr cv \<and>
     res = Some (tensor_mul (map2 vadd (map glu cv) [[1, 2, 3]]) (sqrt 0.5)) \<and>
     Encoder_element (e0\<lparr>enc_training := False\<rparr>) (\<lambda>n t c. True) [2, 3]
       = Inr (conved, combined) \<and>
     Embedding_forward (enc_tok_embedding (e0\<lparr>enc_training := False\<rparr>)) [2, 3]
       = Inr tok_embedded \<and>
     Embedding_forward (enc_pos_embedding (e0\<lparr>enc_training := False\<rparr>))
       (map int [0..<length [2, 3 :: int]]) = Inr pos_embedded \<and>
     combined = tensor_mul
                  (map2 vadd conved
                     (Dropout_forward (enc_dropout (e0\<lparr>enc_training := False\<rparr>))
                        (enc_training (e0\<lparr>enc_training := False\<rparr>)) (\<lambda>t c. True)
                        (map2 vadd tok_embedded pos_embedded)))
                  (sqrt 0.5) \<and>
     calculate_attention (d0\<lparr>dec_training := False\<rparr>) [[1, 1]] [[1, 2, 3]] [[1, 2]] [[3, 4]]
       = Inr (attention, attended_combined) \<and>
     attention = map softmax (matmul_permuted
                   (tensor_mul
                      (map2 vadd
                         (Linear_forward (dec_attn_hid2emb (d0\<lparr>dec_training := False\<rparr>))
                            [[1, 2, 3]]) [[1, 1]])
                      (sqrt 0.5)) [[1, 2]]) \<and>
     attended_combined = tensor_mul
                           (map2 vadd [[1, 2, 3]]
                              (Linear_forward (dec_attn_emb2hid (d0\<lparr>dec_training := False\<rparr>))
                                 (matmul attention [[3, 4]])))
                           (sqrt 0.5) \<and>
     Decoder_blocks (d0\<lparr>dec_training := False\<rparr>) (\<lambda>n t c. True) 3 0 [[1, 1]] [[1, 2]] [[3, 4]]
       [conv'] [[1, 2, 3]] None = Inr res' \<and>
     decoder_padding (d0\<lparr>dec_training := False\<rparr>) 3 = Inr padding \<and>
     Conv1d_forward conv'
       (padding @ Dropout_forward (dec_dropout (d0\<lparr>dec_training := False\<rparr>))
                    (dec_training (d0\<lparr>dec_training := False\<rparr>)) (\<lambda>t c. True) [[1, 2, 3]])
       = Inr cv' \<and>
     calculate_attention (d0\<lparr>dec_training := False\<rparr>) [[1, 1]] (map glu cv') [[1, 2]] [[3, 4]]
       = Inr (a, c2) \<and>
     res' = Some (tensor_mul
                    (map2 vadd c2
                       (Dropout_forward (dec_dropout (d0\<lparr>dec_training := False\<rparr>))
                          (dec_training (d0\<lparr>dec_training := False\<rparr>)) (\<lambda>t c. True)
                          [[1, 2, 3]]))
                    (sqrt 0.5), a)"
proof -
  define r :: rng where "r = (\<lambda>n t c. True)"
  define x :: seq where "x = [[1, 2, 3]]"
  obtain e0 where e0: "Encoder_init 5 2 3 1 3 (1 / 4) 4 (\<lambda>name i j k. 1 / 2) = Inr e0"
    using Encoder_init_total[of 3 "1 / 4" 5 2 3 1 4 "\<lambda>name i j k. 1 / 2"] by auto
  obtain d0 where d0: "Decoder_init 5 2 3 1 2 (1 / 4) 1 4 (\<lambda>name i j k. 1 / 2) = Inr d0"
    using Decoder_init_total[of 2 "1 / 4" 5 2 3 1 1 4 "\<lambda>name i j k. 1 / 2"] by auto
  define e where "e = e0\<lparr>enc_training := False\<rparr>"
  define d where "d = d0\<lparr>dec_training := False\<rparr>"
  note fe = Encoder_init_Inr[OF e0]
  note fd = Decoder_init_Inr[OF d0]
  from fe(7) obtain conv where conv: "conv \<in> set (enc_convs e0)"
    by (cases "enc_convs e0") auto
  from fd(9) obtain conv' where conv': "conv' \<in> set (dec_convs d0)"
    by (cases "dec_convs d0") auto
  have xne: "x \<noteq> []" by (simp add: x_def)
  have r1: "r (0 + 1) = (\<lambda>t c. True)" "r 0 = (\<lambda>t c. True)" by (simp_all add: r_def)
  \<comment> \<open>one block of the encoder\<close>
  have "conv_kernel_size conv = 2 * conv_padding conv + 1"
    using fe(8)[OF conv] odd_kernel_padding[of 3] by simp
  then have "\<forall>c\<in>set [conv]. conv_kernel_size c = 2 * conv_padding c + 1" by simp
  from Encoder_blocks_shape[OF this xne, of e r 0 None]
  obtain res where res: "Encoder_blocks e r 0 [conv] x None = Inr res" by blast
  \<comment> \<open>the encoder on one sequence\<close>
  have "\<forall>s\<in>set [[2, 3 :: int]]. length s = 2 \<and> (\<forall>tok\<in>set s. 0 \<le> tok \<and> tok < int 5)"
    by simp
  from Encoder_init_forward_shape[OF e0 _ this, of False "\<lambda>b. r"]
  obtain cs cbs where fw: "Encoder_forward e (\<lambda>b. r) [[2, 3]] = Inr (cs, cbs)"
    unfolding e_def by auto
  from Encoder_forward_Inr(3)[OF fw, of 0]
  have el: "Encoder_element e r [2, 3] = Inr (cs ! 0, cbs ! 0)" by simp
  \<comment> \<open>the attention computation\<close>
  from calculate_attention_total[of "[[1, 1]]" x d "[[1, 2]]" "[[3, 4]]"]
  obtain attention attended_combined where
    att: "calculate_attention d [[1, 1]] x [[1, 2]] [[3, 4]] = Inr (attention, attended_combined)"
    by (auto simp: x_def)
  \<comment> \<open>one block of the decoder\<close>
  have wf: "\<forall>c\<in>set [conv']. conv_padding c = 0 \<and> conv_kernel_size c = nat (dec_kernel_size d)"
    using fd(10)[OF conv'] fd(1) by (simp add: d_def)
  have k: "1 \<le> dec_kernel_size d" by (simp add: d_def fd(1))
  have l: "length [[1, 1 :: real]] = length x" by (simp add: x_def)
  from Decoder_blocks_total[OF wf k xne l, of r 3 0 "[[1, 2]]" "[[3, 4]]" None]
  obtain res' where
    res': "Decoder_blocks d r 3 0 [[1, 1]] [[1, 2]] [[3, 4]] [conv'] x None = Inr res'"
    by blast
  note th = scale_after_every_residual_sum[OF e0 d0 e_def d_def,
      of r 0 conv "[]" x None "[2, 3]" "[[1, 1]]" x "[[1, 2]]" "[[3, 4]]" r 3 0 "[[1, 1]]" conv'
         "[]" x None]
  from th have sc: "enc_scale e = sqrt 0.5" "dec_scale d = sqrt 0.5" by blast+
  from th res obtain cv where cv:
    "Conv1d_forward conv (Dropout_forward (enc_dropout e) (enc_training e) (r (0 + 1)) x) = Inr cv"
    "Encoder_blocks e r (0 + 1) [] (tensor_mul (map2 vadd (map glu cv) x) (sqrt 0.5))
       (Some (tensor_mul (map2 vadd (map glu cv) x) (sqrt 0.5))) = Inr res"
    by blast
  from cv(2) have resv: "res = Some (tensor_mul (map2 vadd (map glu cv) x) (sqrt 0.5))"
    by simp
  from th el obtain tok_embedded pos_embedded where te:
    "Embedding_forward (enc_tok_embedding e) [2, 3] = Inr tok_embedded"
    "Embedding_forward (enc_pos_embedding e) (map int [0..<length [2, 3 :: int]]) = Inr pos_embedded"
    "cbs ! 0 = tensor_mul
                 (map2 vadd (cs ! 0)
                    (Dropout_forward (enc_dropout e) (enc_training e) (r 0)
                       (map2 vadd tok_embedded pos_embedded)))
                 (sqrt 0.5)"
    by blast
  from th att have at:
    "attention = map softmax (matmul_permuted
                   (tensor_mul (map2 vadd (Linear_forward (dec_attn_hid2emb d) x) [[1, 1]])
                      (sqrt 0.5)) [[1, 2]])"
    "attended_combined = tensor_mul
                           (map2 vadd x
                              (Linear_forward (dec_attn_emb2hid d) (matmul attention [[3, 4]])))
                           (sqrt 0.5)"
    by blast+
  from th res' obtain padding cv' a c2 where db:
    "decoder_padding d 3 = Inr padding"
    "Conv1d_forward conv'
       (padding @ Dropout_forward (dec_dropout d) (dec_training d) (r (0 + 1)) x) = Inr cv'"
    "calculate_attention d [[1, 1]] (map glu cv') [[1, 2]] [[3, 4]] = Inr (a, c2)"
    "Decoder_blocks d r 3 (0 + 1) [[1, 1]] [[1, 2]] [[3, 4]] []
       (tensor_mul
          (map2 vadd c2 (Dropout_forward (dec_dropout d) (dec_training d) (r (0 + 1)) x))
          (sqrt 0.5))
       (Some (tensor_mul
                (map2 vadd c2 (Dropout_forward (dec_dropout d) (dec_training d) (r (0 + 1)) x))
                (sqrt 0.5), a)) = Inr res'"
    by blast
  from db(4) have resv':
    "res' = Some (tensor_mul
                    (map2 vadd c2 (Dropout_forward (dec_dropout d) (dec_training d) (r (0 + 1)) x))
                    (sqrt 0.5), a)"
    by simp
  from e0 d0 sc res cv(1) resv el te att at res' db(1-3) resv' show ?thesis
    unfolding r1 unfolding e_def d_def r_def x_def by blast
qed

theorem position_lookup_in_range_witness:
  "\<exists>e0 d0 conved combined tok_embedded y out attention tok_embedded' conved'.
     Encoder_init 7 128 64 10 3 (99 / 100) default_max_length (\<lambda>name i j k. 1 / 1000) = Inr e0 \<and>
     Decoder_init 7 128 64 10 3 (99 / 100) 1 default_max_length (\<lambda>name i j k. 1 / 1000) = Inr d0 \<and>
     length (replicate 100 (2 :: int)) \<le> default_max_length \<and>
     int 99 < int default_max_length \<and>
     Embedding_forward (enc_pos_embedding (e0\<lparr>enc_training := False\<rparr>))
       (map int [0..<length (replicate 100 (2 :: int))])
       = Inr (take (length (replicate 100 (2 :: int)))
                (enc_pos_embedding (e0\<lparr>enc_training := False\<rparr>))) \<and>
     Encoder_element (e0\<lparr>enc_training := False\<rparr>) (\<lambda>n t c. True) (replicate 100 2)
       \<noteq> Inl IndexError \<and>
     Encoder_element (e0\<lparr>enc_training := False\<rparr>) (\<lambda>n t c. True) (replicate 100 2)
       = Inr (conved, combined) \<and>
     Embedding_forward (enc_tok_embedding (e0\<lparr>enc_training := False\<rparr>)) (replicate 100 2)
       = Inr tok_embedded \<and>
     Encoder_blocks (e0\<lparr>enc_training := False\<rparr>) (\<lambda>n t c. True) 0
       (enc_convs (e0\<lparr>enc_training := False\<rparr>))
       (Linear_forward (enc_emb2hid (e0\<lparr>enc_training := False\<rparr>))
          (Dropout_forward (enc_dropout (e0\<lparr>enc_training := False\<rparr>))
             (enc_training (e0\<lparr>enc_training := False\<rparr>)) (\<lambda>t c. True)
             (map2 vadd tok_embedded
                (take (length (replicate 100 (2 :: int)))
                   (enc_pos_embedding (e0\<lparr>enc_training := False\<rparr>)))))) None
       = Inr (Some y) \<and>
     conved = Linear_forward (enc_hid2emb (e0\<lparr>enc_training := False\<rparr>)) y \<and>
     default_max_length < length (replicate 101 (2 :: int)) \<and>
     Encoder_element (e0\<lparr>enc_training := False\<rparr>) (\<lambda>n t c. True) (replicate 101 2)
       = Inl IndexError \<and>
     Embedding_forward (dec_pos_embedding (d0\<lparr>dec_training := False\<rparr>))
       (map int [0..<length (replicate 100 (2 :: int))])
       = Inr (take (length (replicate 100 (2 :: int)))
                (dec_pos_embedding (d0\<lparr>dec_training := False\<rparr>))) \<and>
     Decoder_element (d0\<lparr>dec_training := False\<rparr>) (\<lambda>n t c. True) (replicate 100 2)
       (replicate 3 (replicate 128 (1 / 1000))) (replicate 3 (replicate 128 (1 / 1000)))
       \<noteq> Inl IndexError \<and>
     Decoder_element (d0\<lparr>dec_training := False\<rparr>) (\<lambda>n t c. True) (replicate 100 2)
       (replicate 3 (replicate 128 (1 / 1000))) (replicate 3 (replicate 128 (1 / 1000)))
       = Inr (out, attention) \<and>
     Embedding_forward (dec_tok_embedding (d0\<lparr>dec_training := False\<rparr>)) (replicate 100 2)
       = Inr tok_embedded' \<and>
     Decoder_blocks (d0\<lparr>dec_training := False\<rparr>) (\<lambda>n t c. True)
       (out_features (dec_emb2hid (d0\<lparr>dec_training := False\<rparr>))) 0
       (Dropout_forward (dec_dropout (d0\<lparr>dec_training := False\<rparr>))
          (dec_training (d0\<lparr>dec_training := False\<rparr>)) (\<lambda>t c. True)
          (map2 vadd tok_embedded'
             (take (length (replicate 100 (2 :: int)))
                (dec_pos_embedding (d0\<lparr>dec_training := False\<rparr>)))))
       (replicate 3 (replicate 128 (1 / 1000))) (replicate 3 (replicate 128 (1 / 1000)))
       (dec_convs (d0\<lparr>dec_training := False\<rparr>))
       (Linear_forward (dec_emb2hid (d0\<lparr>dec_training := False\<rparr>))
          (Dropout_forward (dec_dropout (d0\<lparr>dec_training := False\<rparr>))
             (dec_training (d0\<lparr>dec_training := False\<rparr>)) (\<lambda>t c. True)
             (map2 vadd tok_embedded'
                (take (length (replicate 100 (2 :: int)))
                   (dec_pos_embedding (d0\<lparr>dec_training := False\<rparr>)))))) None
       = Inr (Some (conved', attention)) \<and>
     Decoder_element (d0\<lparr>dec_training := False\<rparr>) (\<lambda>n t c. True) (replicate 101 2)
       (replicate 3 (replicate 128 (1 / 1000))) (replicate 3 (replicate 128 (1 / 1000)))
       = Inl IndexError"
proof -
  define r :: rng where "r = (\<lambda>n t c. True)"
  define short :: "int list" where "short = replicate 100 2"
  define long :: "int list" where "long = replicate 101 2"
  define ec :: seq where "ec = replicate 3 (replicate 128 (1 / 1000))"
  obtain e0 where
    e0: "Encoder_init 7 128 64 10 3 (99 / 100) default_max_length (\<lambda>name i j k. 1 / 1000) = Inr e0"
    using Encoder_init_total[of 3 "99 / 100" 7 128 64 10 default_max_length
        "\<lambda>name i j k. 1 / 1000"]
    by auto
  obtain d0 where
    d0: "Decoder_init 7 128 64 10 3 (99 / 100) 1 default_max_length (\<lambda>name i j k. 1 / 1000)
           = Inr d0"
    using Decoder_init_total[of 3 "99 / 100" 7 128 64 10 1 default_max_length
        "\<lambda>name i j k. 1 / 1000"]
    by auto
  define e where "e = e0\<lparr>enc_training := False\<rparr>"
  define d where "d = d0\<lparr>dec_training := False\<rparr>"
  have r0: "r 0 = (\<lambda>t c. True)" by (simp add: r_def)
  have ls: "length short = 100" "length long = 101" by (simp_all add: short_def long_def)
  have sh: "length short \<le> default_max_length" "default_max_length < length long"
    "int 99 < int default_max_length"
    by (simp_all add: ls default_max_length_def)
  have toks: "\<forall>t\<in>set short. 0 \<le> t \<and> t < int 7"
    by (simp add: short_def)
  \<comment> \<open>the two forward passes on the sequence of length 100 return\<close>
  have "\<forall>s\<in>set [short]. length s = 100 \<and> (\<forall>tok\<in>set s. 0 \<le> tok \<and> tok < int 7)"
    using toks by (simp add: ls)
  from Encoder_init_forward_shape[OF e0 _ this, of False "\<lambda>b. r"]
  obtain cs cbs where fw: "Encoder_forward e (\<lambda>b. r) [short] = Inr (cs, cbs)"
    unfolding e_def by (auto simp: default_max_length_def)
  from Encoder_forward_Inr(3)[OF fw, of 0]
  have el: "Encoder_element e r short = Inr (cs ! 0, cbs ! 0)" by simp
  have "\<forall>s\<in>set [short]. s \<noteq> [] \<and> length s \<le> default_max_length \<and>
          (\<forall>tok\<in>set s. 0 \<le> tok \<and> tok < int 7)"
    using toks sh(1) ls by auto
  from Decoder_init_forward_total[OF d0 _ this, of "[ec]" "[ec]" False "\<lambda>b. r"]
  obtain os as where dfw: "Decoder_forward d (\<lambda>b. r) [short] [ec] [ec] = Inr (os, as)"
    unfolding d_def by auto
  from Decoder_forward_Inr(5)[OF dfw, of 0]
  have dl: "Decoder_element d r short ec ec = Inr (os ! 0, as ! 0)" by simp
  \<comment> \<open>the theorem on the two lengths\<close>
  note s = position_lookup_in_range[OF e0 d0 e_def d_def, of short r short r ec ec]
  note l = position_lookup_in_range[OF e0 d0 e_def d_def, of long r long r ec ec]
  from s sh(1) toks have a:
    "Embedding_forward (enc_pos_embedding e) (map int [0..<length short])
       = Inr (take (length short) (enc_pos_embedding e))"
    "Encoder_element e r short \<noteq> Inl IndexError"
    "Embedding_forward (dec_pos_embedding d) (map int [0..<length short])
       = Inr (take (length short) (dec_pos_embedding d))"
    "Decoder_element d r short ec ec \<noteq> Inl IndexError"
    by blast+
  from s el obtain tok_embedded y where b:
    "Embedding_forward (enc_tok_embedding e) short = Inr tok_embedded"
    "Encoder_blocks e r 0 (enc_convs e)
       (Linear_forward (enc_emb2hid e)
          (Dropout_forward (enc_dropout e) (enc_training e) (r 0)
             (map2 vadd tok_embedded (take (length short) (enc_pos_embedding e))))) None
       = Inr (Some y)"
    "cs ! 0 = Linear_forward (enc_hid2emb e) y"
    by blast
  from s dl obtain tok_embedded' conved' where c:
    "Embedding_forward (dec_tok_embedding d) short = Inr tok_embedded'"
    "Decoder_blocks d r (out_features (dec_emb2hid d)) 0
       (Dropout_forward (dec_dropout d) (dec_training d) (r 0)
          (map2 vadd tok_embedded' (take (length short) (dec_pos_embedding d))))
       ec ec (dec_convs d)
       (Linear_forward (dec_emb2hid d)
          (Dropout_forward (dec_dropout d) (dec_training d) (r 0)
             (map2 vadd tok_embedded' (take (length short) (dec_pos_embedding d))))) None
       = Inr (Some (conved', as ! 0))"
    by blast
  from l sh(2) have q: "Encoder_element e r long = Inl IndexError"
    "Decoder_element d r long ec ec = Inl IndexError"
    by blast+
  from e0 d0 sh a el b dl c q show ?thesis
    unfolding r0 unfolding e_def d_def r_def short_def long_def ec_def by blast
qed

subsection \<open>Evaluation on the tiny model\<close>

lemma Decoder_blocks_length:
  assumes "Decoder_blocks d r h i emb ec ecb convs x st = Inr (Some (y, a))"
    and "\<forall>y0 a0. st = Some (y0, a0) \<longrightarrow> length y0 = length x"
  shows "length y = length x"
  using assms
proof (induction convs arbitrary: x st i)
  case Nil
  then show ?case by simp
next
  case (Cons conv convs)
  let ?x1 = "Dropout_forward (dec_dropout d) (dec_training d) (r (i + 1)) x"
  from Cons.prems(1) obtain attention conved2 s where
    s: "tensor_add conved2 ?x1 = Inr s"
    and rest: "Decoder_blocks d r h (i + 1) emb ec ecb convs (tensor_mul s (dec_scale d))
                 (Some (tensor_mul s (dec_scale d), attention)) = Inr (Some (y, a))"
    by (auto simp: Let_def split: sum.splits prod.splits)
  from s have ls: "length (tensor_mul s (dec_scale d)) = length x"
    by (auto simp: tensor_add_Inr_iff)
  from Cons.IH[OF rest] ls show ?case by simp
qed

lemma Decoder_element_output:
  assumes "Decoder_element d r trg ec ecb = Inr (output, attention)"
  shows "\<exists>conved. length conved = length trg \<and>
           output = Linear_forward (dec_fc_out d)
                      (Dropout_forward (dec_dropout d) (dec_training d)
                         (r (length (dec_convs d) + 1))
                         (Linear_forward (dec_hid2emb d) conved))"
proof -
  let ?pos = "map int [0..<length trg]"
  from assms obtain tok where tok: "Embedding_forward (dec_tok_embedding d) trg = Inr tok"
    by (simp add: Decoder_element_def Let_def split: sum.splits)
  from assms tok obtain pe where pe: "Embedding_forward (dec_pos_embedding d) ?pos = Inr pe"
    by (simp add: Decoder_element_def Let_def split: sum.splits)
  from assms tok pe obtain s where s: "tensor_add tok pe = Inr s"
    by (simp add: Decoder_element_def Let_def split: sum.splits)
  let ?emb = "Dropout_forward (dec_dropout d) (dec_training d) (r 0) s"
  let ?ci = "Linear_forward (dec_emb2hid d) ?emb"
  from assms tok pe s obtain conved where
    blocks: "Decoder_blocks d r (out_features (dec_emb2hid d)) 0 ?emb ec ecb (dec_convs d) ?ci None
               = Inr (Some (conved, attention))"
    by (auto simp: Decoder_element_def Let_def split: sum.splits option.splits prod.splits)
  from assms tok pe s blocks have out:
    "output = Linear_forward (dec_fc_out d)
                (Dropout_forward (dec_dropout d) (dec_training d) (r (length (dec_convs d) + 1))
                   (Linear_forward (dec_hid2emb d) conved))"
    by (simp add: Decoder_element_def Let_def)
  have ls: "length s = length trg"
    using s tok by (auto simp: tensor_add_Inr_iff Embedding_forward_Inr_iff)
  from Decoder_blocks_length[OF blocks] ls have "length conved = length trg" by simp
  with out show ?thesis by blast
qed

lemma Seq2Seq_forward_Inr:
  assumes "Seq2Seq_forward m r src trg = Inr (output, attention)"
  shows "length output = length trg"
    and "b < length trg \<Longrightarrow>
           \<exists>conved. length conved = length (trg ! b) \<and>
             output ! b = Linear_forward (dec_fc_out (decoder m))
                (Dropout_forward (dec_dropout (decoder m)) (dec_training (decoder m))
                   (snd r b (length (dec_convs (decoder m)) + 1))
                   (Linear_forward (dec_hid2emb (decoder m)) conved))"
proof -
  from assms obtain ec ecb where
    dec: "Decoder_forward (decoder m) (snd r) trg ec ecb = Inr (output, attention)"
    by (auto simp: Seq2Seq_forward_def split: sum.splits)
  note d = Decoder_forward_Inr[OF dec]
  show "length output = length trg" by (rule d(3))
  assume "b < length trg"
  from Decoder_element_output[OF d(5)[OF this]]
  show "\<exists>conved. length conved = length (trg ! b) \<and>
             output ! b = Linear_forward (dec_fc_out (decoder m))
                (Dropout_forward (dec_dropout (decoder m)) (dec_training (decoder m))
                   (snd r b (length (dec_convs (decoder m)) + 1))
                   (Linear_forward (dec_hid2emb (decoder m)) conved))" .
qed

lemma dot_zero: "dot (replicate n 0) x = 0"
proof (induction n arbitrary: x)
  case 0
  show ?case by (simp add: dot_def)
next
  case (Suc n)
  show ?case
  proof (cases x)
    case Nil
    then show ?thesis by (simp add: dot_def)
  next
    case (Cons a y)
    with Suc[of y] show ?thesis by (simp add: dot_def)
  qed
qed

lemma dot_single_zero: "dot [0] x = 0"
  using dot_zero[of 1 x] by simp

lemma evaluate_single:
  "evaluate m r [b] crit =
     (case batch_loss m crit (r 0) b of Inl err \<Rightarrow> Inl err | Inr loss \<Rightarrow> Inr loss)"
  by (simp add: evaluate_def split: sum.splits)

lemma upt_5: "[0..<5] = [0, 1, 2, 3, 4]"
  by (simp add: upt_rec)

lemma tiny_hid2emb:
  "Linear_init tiny_init Hid2emb_weight Hid2emb_bias 1 1 =
     \<lparr>in_features = 1, out_features = 1, lin_weight = [[0]], lin_bias = [1]\<rparr>"
  by (simp add: Linear_init_def tiny_init_def)

lemma tiny_fc_out:
  "Linear_init tiny_init Fc_out_weight Fc_out_bias 1 5 =
     \<lparr>in_features = 1, out_features = 5, lin_weight = [[0], [0], [0], [1], [0]],
      lin_bias = [0, 0, 0, 0, 0]\<rparr>"
  by (simp add: Linear_init_def tiny_init_def upt_5)

lemma Linear_forward_constant:
  assumes "out_features l = 1" "lin_weight l = [[0]]" "lin_bias l = [c]"
  shows "Linear_forward l xs = replicate (length xs) [c]"
  using assms by (simp add: Linear_forward_def dot_single_zero map_replicate_const)

lemma Linear_forward_token_3:
  assumes "out_features l = 5" "lin_weight l = [[0], [0], [0], [w], [0]]"
    "lin_bias l = [0, 0, 0, c, 0]"
  shows "Linear_forward l [[v]] = [[0, 0, 0, w * v + c, 0]]"
  using assms by (simp add: Linear_forward_def upt_5 dot_def)

lemma softmax_token_3:
  "softmax [0, 0, 0, v, 0] ! 3 = exp v / (4 + exp v)"
  by (simp add: softmax_def numeral_3_eq_3)

lemma CrossEntropyLoss_single:
  assumes "t \<noteq> ignore_index" "0 \<le> t" "t < int (length x)"
  shows "CrossEntropyLoss ignore_index [x] [t] = Inr (- ln (softmax x ! nat t))"
  using assms by (simp add: CrossEntropyLoss_def)

lemma softmax_token_4:
  "softmax [0, 0, 0, v, 0] ! 4 = 1 / (4 + exp v)"
proof -
  have "[0, 0, 0, v, 0 :: real] ! 4 = 0"
    by (simp add: eval_nat_numeral)
  moreover have "(4::nat) < length [0, 0, 0, v, 0 :: real]" by simp
  ultimately show ?thesis
    unfolding softmax_def by (simp del: nth_Cons_numeral add: nth_map)
qed

text \<open>
  The tiny model with any \<open>fc_out\<close> that has five outputs and reads only token 3: the
  forward pass on the source [start, end] and the decoder input [start].
\<close>

lemma tiny_forward:
  assumes e0: "Encoder_init 5 1 1 1 1 (1 / 2) 4 tiny_init = Inr e0"
    and d0: "Decoder_init 5 1 1 1 1 (1 / 2) 1 4 tiny_init = Inr d0"
    and m: "encoder m = e0\<lparr>enc_training := True\<rparr>"
           "decoder m = d0\<lparr>dec_training := True, dec_fc_out := l\<rparr>"
    and l: "out_features l = 5" "lin_weight l = [[0], [0], [0], [w], [0]]"
           "lin_bias l = [0, 0, 0, c, 0]"
  shows "\<exists>attention.
           Seq2Seq_forward m r [[2, 3]] [[2]] =
             Inr ([[[0, 0, 0, w * (if snd r 0 2 0 0 then 2 else 0) + c, 0]]], attention)"
proof -
  let ?d = "decoder m"
  note f = Decoder_init_Inr[OF d0]
  have s: "\<forall>s\<in>set [[2, 3 :: int]]. length s = 2 \<and> (\<forall>tok\<in>set s. 0 \<le> tok \<and> tok < int 5)"
    by simp
  from Encoder_init_forward_shape[OF e0 _ s, of True "fst r"]
  obtain ec ecb where enc:
    "Encoder_forward (encoder m) (fst r) [[2, 3]] = Inr (ec, ecb)"
    "length ec = length [[2 :: int]]" "length ecb = length [[2 :: int]]"
    unfolding m(1) by auto
  have tok: "\<forall>s\<in>set [[2 :: int]]. \<forall>t\<in>set s. 0 \<le> t \<and> t < int (length (dec_tok_embedding ?d))"
    by (simp add: m(2) f(4) Embedding_init_shape)
  have pos: "\<forall>s\<in>set [[2 :: int]]. s \<noteq> [] \<and> length s \<le> length (dec_pos_embedding ?d)"
    by (simp add: m(2) f(5) Embedding_init_shape)
  have c1: "dec_convs ?d \<noteq> []" using f(9) by (auto simp: m(2))
  then obtain cv where "cv \<in> set (dec_convs d0)"
    by (cases "dec_convs d0") (auto simp: m(2))
  note g = f(10)[OF this]
  have c2: "\<forall>c\<in>set (dec_convs ?d). conv_padding c = 0 \<and>
              conv_kernel_size c = nat (dec_kernel_size ?d)"
    using f(10) f(1) by (simp add: m(2))
  have k: "1 \<le> dec_kernel_size ?d" by (simp add: m(2) f(1))
  from Decoder_forward_total[OF tok pos c1 c2 k enc(2,3), of "snd r"]
  obtain out att where dec: "Decoder_forward ?d (snd r) [[2]] ec ecb = Inr (out, att)"
    by blast
  with enc(1) have run: "Seq2Seq_forward m r [[2, 3]] [[2]] = Inr (out, att)"
    by (simp add: Seq2Seq_forward_def)
  from Seq2Seq_forward_Inr(1)[OF run] Seq2Seq_forward_Inr(2)[OF run, of 0]
  obtain conved where c: "length out = 1" "length conved = 1"
    "out ! 0 = Linear_forward (dec_fc_out ?d)
                (Dropout_forward (dec_dropout ?d) (dec_training ?d)
                   (snd r 0 (length (dec_convs ?d) + 1))
                   (Linear_forward (dec_hid2emb ?d) conved))"
    by auto
  have "Linear_forward (dec_hid2emb ?d) conved = replicate (length conved) [1]"
    by (rule Linear_forward_constant) (simp_all add: m(2) f(7) tiny_hid2emb del: One_nat_def)
  with c(2) have h: "Linear_forward (dec_hid2emb ?d) conved = [[1]]"
    by simp
  have fc: "Linear_forward (dec_fc_out ?d) [[v]] = [[0, 0, 0, w * v + c, 0]]" for v
    by (rule Linear_forward_token_3) (simp_all add: m(2) l)
  have dp: "dec_dropout ?d = 1 / 2" "dec_training ?d = True" "length (dec_convs ?d) + 1 = 2"
    by (simp_all add: m(2) f(9,11))
  have dr: "Dropout_forward (1 / 2) True msk [[1]] = [[if msk 0 0 then 2 else 0]]" for msk
    by (simp add: Dropout_forward_def dropout_elem_def)
  have "out ! 0 = [[0, 0, 0, w * (if snd r 0 2 0 0 then 2 else 0) + c, 0]]"
    unfolding c(3) h dp dr fc by simp
  moreover from c(1) have "out = [out ! 0]"
    by (cases out) auto
  ultimately have "out = [[[0, 0, 0, w * (if snd r 0 2 0 0 then 2 else 0) + c, 0]]]" by simp
  with run show ?thesis by blast
qed

lemma tiny_batch_loss:
  assumes e0: "Encoder_init 5 1 1 1 1 (1 / 2) 4 tiny_init = Inr e0"
    and d0: "Decoder_init 5 1 1 1 1 (1 / 2) 1 4 tiny_init = Inr d0"
    and m: "encoder m = e0\<lparr>enc_training := True\<rparr>"
           "decoder m = d0\<lparr>dec_training := True, dec_fc_out := l\<rparr>"
    and l: "out_features l = 5" "lin_weight l = [[0], [0], [0], [w], [0]]"
           "lin_bias l = [0, 0, 0, c, 0]"
    and x: "x = w * (if snd r 0 2 0 0 then 2 else 0) + c"
  shows "batch_loss m (CrossEntropyLoss 1) r tiny_batch = Inr (- ln (exp x / (4 + exp x)))"
    and "batch_loss m (CrossEntropyLoss 1) r held_out_batch = Inr (- ln (1 / (4 + exp x)))"
proof -
  from tiny_forward[OF e0 d0 m l, of r] obtain attention where
    run: "Seq2Seq_forward m r [[2, 3]] [[2]] = Inr ([[[0, 0, 0, x, 0]]], attention)"
    unfolding x by blast
  have "batch_loss m (CrossEntropyLoss 1) r tiny_batch = Inr (- ln (softmax [0, 0, 0, x, 0] ! nat 3))"
    by (simp add: batch_loss_def tiny_batch_def run CrossEntropyLoss_single)
  then show "batch_loss m (CrossEntropyLoss 1) r tiny_batch = Inr (- ln (exp x / (4 + exp x)))"
    by (simp add: softmax_token_3 numeral_3_eq_3[symmetric] del: One_nat_def)
  have "batch_loss m (CrossEntropyLoss 1) r held_out_batch
          = Inr (- ln (softmax [0, 0, 0, x, 0] ! nat 4))"
    by (simp add: batch_loss_def held_out_batch_def run CrossEntropyLoss_single)
  moreover have "nat 4 = (4::nat)" by simp
  ultimately show "batch_loss m (CrossEntropyLoss 1) r held_out_batch
                     = Inr (- ln (1 / (4 + exp x)))"
    by (simp only: softmax_token_4)
qed

lemma tiny_evaluate:
  assumes e0: "Encoder_init 5 1 1 1 1 (1 / 2) 4 tiny_init = Inr e0"
    and d0: "Decoder_init 5 1 1 1 1 (1 / 2) 1 4 tiny_init = Inr d0"
  shows "evaluate (Module_train \<lparr>encoder = e0, decoder = d0\<rparr>) (\<lambda>i. r) [tiny_batch]
           (CrossEntropyLoss 1) =
         Inr (- ln (exp (if snd r 0 2 0 0 then 2 else 0) /
                    (4 + exp (if snd r 0 2 0 0 then 2 else 0))))"
proof -
  let ?m = "Module_train \<lparr>encoder = e0, decoder = d0\<rparr>"
  have m: "encoder ?m = e0\<lparr>enc_training := True\<rparr>"
    "decoder ?m = d0\<lparr>dec_training := True, dec_fc_out := dec_fc_out d0\<rparr>"
    by (simp_all add: Module_train_def)
  have l: "out_features (dec_fc_out d0) = 5"
    "lin_weight (dec_fc_out d0) = [[0], [0], [0], [1], [0]]"
    "lin_bias (dec_fc_out d0) = [0, 0, 0, 0, 0]"
    by (simp_all add: Decoder_init_Inr(8)[OF d0] tiny_fc_out del: One_nat_def)
  have x: "(if snd r 0 2 0 0 then 2 else 0) = 1 * (if snd r 0 2 0 0 then 2 else 0) + (0::real)"
    by simp
  from tiny_batch_loss(1)[OF e0 d0 m l x] show ?thesis
    by (simp add: evaluate_single)
qed

text \<open>
  Claim C5, at a concrete input. \<open>evaluate\<close> leaves the module's training flag as it
  finds it, and \<open>train\<close> has set it. On the tiny model after \<open>model.train()\<close>, with the
  same parameters and the same batch, the loss that \<open>evaluate\<close> returns is
  -ln (exp 2 / (4 + exp 2)) when dropout keeps every entry and -ln (1 / 5) when it zeroes
  every entry: dropout is applied during evaluation.
\<close>

theorem evaluate_applies_dropout:
  "\<exists>e0 d0 loss loss'.
     Encoder_init 5 1 1 1 1 (1 / 2) 4 tiny_init = Inr e0 \<and>
     Decoder_init 5 1 1 1 1 (1 / 2) 1 4 tiny_init = Inr d0 \<and>
     evaluate (Module_train \<lparr>encoder = e0, decoder = d0\<rparr>) (\<lambda>i. keep_all) [tiny_batch]
       (CrossEntropyLoss 1) = Inr loss \<and>
     evaluate (Module_train \<lparr>encoder = e0, decoder = d0\<rparr>) (\<lambda>i. drop_all) [tiny_batch]
       (CrossEntropyLoss 1) = Inr loss' \<and>
     loss = - ln (exp 2 / (4 + exp 2)) \<and> loss' = - ln (1 / 5) \<and> loss \<noteq> loss'"
proof -
  obtain e0 where e0: "Encoder_init 5 1 1 1 1 (1 / 2) 4 tiny_init = Inr e0"
    using Encoder_init_total[of 1 "1 / 2" 5 1 1 1 4 tiny_init] by auto
  obtain d0 where d0: "Decoder_init 5 1 1 1 1 (1 / 2) 1 4 tiny_init = Inr d0"
    using Decoder_init_total[of 1 "1 / 2" 5 1 1 1 1 4 tiny_init] by auto
  have k: "evaluate (Module_train \<lparr>encoder = e0, decoder = d0\<rparr>) (\<lambda>i. keep_all) [tiny_batch]
             (CrossEntropyLoss 1) = Inr (- ln (exp 2 / (4 + exp 2)))"
    using tiny_evaluate[OF e0 d0, of keep_all] by (simp add: keep_all_def)
  have dr: "evaluate (Module_train \<lparr>encoder = e0, decoder = d0\<rparr>) (\<lambda>i. drop_all) [tiny_batch]
             (CrossEntropyLoss 1) = Inr (- ln (1 / 5))"
    using tiny_evaluate[OF e0 d0, of drop_all] by (simp add: drop_all_def)
  have ne: "exp (2::real) / (4 + exp 2) \<noteq> 1 / 5"
  proof
    assume "exp (2::real) / (4 + exp 2) = 1 / 5"
    moreover have "0 < 4 + exp (2::real)" by (simp add: add_pos_pos)
    ultimately have "5 * exp (2::real) = 4 + exp 2" by (simp add: field_simps)
    then have "exp (2::real) = 1" by simp
    then show False by simp
  qed
  have p1: "0 < exp (2::real) / (4 + exp 2)"
    by (simp add: add_pos_pos)
  have p2: "(0::real) < 1 / 5" by simp
  have "- ln (exp 2 / (4 + exp 2)) \<noteq> - ln (1 / (5::real))"
  proof
    assume "- ln (exp 2 / (4 + exp 2)) = - ln (1 / (5::real))"
    then have "ln (exp 2 / (4 + exp 2)) = ln (1 / (5::real))" by (simp only: neg_equal_iff_equal)
    with ln_inj_iff[OF p1 p2] have "exp (2::real) / (4 + exp 2) = 1 / 5" by blast
    with ne show False by (simp only:)
  qed
  with e0 d0 k dr show ?thesis by blast
qed

subsection \<open>The epoch loop on the tiny model\<close>

lemma train_single:
  assumes "batch_loss (Module_train m) crit (r 0) b = Inr loss"
    and "upd opt (Module_train m) b (r 0) = (opt1, m1)"
  shows "train m opt upd r [b] crit = Inr (m1, opt1, loss)"
  using assms by (simp add: train_def)

lemma ratio_bounds:
  fixes e :: real
  assumes "1 < e"
  shows "1 / 5 < e / (4 + e)" "1 / (4 + e) < 1 / 5"
proof -
  from assms have p: "0 < 4 + e" by linarith
  have "(1 / 5 < e / (4 + e)) = (1 / 5 * (4 + e) < e)"
    by (rule pos_less_divide_eq[OF p])
  moreover have "1 / 5 * (4 + e) < e" using assms by argo
  ultimately show "1 / 5 < e / (4 + e)" by blast
  have "(1 / (4 + e) < 1 / 5) = (1 < 1 / 5 * (4 + e))"
    by (rule pos_divide_less_eq[OF p])
  moreover have "1 < 1 / 5 * (4 + e)" using assms by argo
  ultimately show "1 / (4 + e) < 1 / 5" by blast
qed

lemma tiny_loss_improves: "- ln (exp 1 / (4 + exp 1)) < - ln (exp 0 / (4 + exp (0::real)))"
proof -
  have lt: "1 / 5 < exp (1::real) / (4 + exp 1)"
    by (rule ratio_bounds) simp
  have a: "(0::real) < 1 / 5" by simp
  have b: "0 < exp (1::real) / (4 + exp 1)" by (simp add: add_pos_pos)
  from ln_less_cancel_iff[OF a b] lt have "ln (1 / 5) < ln (exp (1::real) / (4 + exp 1))"
    by blast
  moreover have "exp 0 / (4 + exp (0::real)) = 1 / 5" by simp
  ultimately show ?thesis by (simp only: neg_less_iff_less)
qed

lemma held_out_loss_worsens: "- ln (1 / (4 + exp (0::real))) < - ln (1 / (4 + exp (1::real)))"
proof -
  have lt: "1 / (4 + exp (1::real)) < 1 / 5"
    by (rule ratio_bounds) simp
  have a: "(0::real) < 1 / 5" by simp
  have b: "0 < 1 / (4 + exp (1::real))" by (simp add: add_pos_pos)
  from ln_less_cancel_iff[OF b a] lt have "ln (1 / (4 + exp (1::real))) < ln (1 / 5)"
    by blast
  moreover have "1 / (4 + exp (0::real)) = 1 / 5" by simp
  ultimately show ?thesis by (simp only: neg_less_iff_less)
qed

text \<open>
  Claim C6, at a concrete input. The epoch loop compares and stores the loss that
  \<open>evaluate\<close> returns on \<open>train_iterator\<close>; \<open>valid_iterator\<close> is never read. Two epochs of
  the tiny model, trained on the pair that ends in token 3 by the optimizer that moves
  the prediction towards token 3, with held-out data that ends in token 4: the iteration
  of epoch 1 writes the checkpoint, and the parameters restored after training are those
  of epoch 1, although the loss on the held-out data is higher after epoch 1 than after
  epoch 0.
\<close>

theorem checkpoint_follows_training_data:
  "\<exists>e0 d0 st1 st v0 v1.
     Encoder_init 5 1 1 1 1 (1 / 2) 4 tiny_init = Inr e0 \<and>
     Decoder_init 5 1 1 1 1 (1 / 2) 1 4 tiny_init = Inr d0 \<and>
     epoch_loop tiny_update (CrossEntropyLoss 1) (\<lambda>epoch ev i. keep_all)
       [tiny_batch] [held_out_batch] [0]
       \<lparr>run_model = \<lparr>encoder = e0, decoder = d0\<rparr>, run_optimizer = 0, best_valid_loss = None,
        checkpoint = None, written = [], printed = []\<rparr> = Inr st1 \<and>
     training_run \<lparr>encoder = e0, decoder = d0\<rparr> 0 tiny_update (CrossEntropyLoss 1)
       (\<lambda>epoch ev i. keep_all) [tiny_batch] [held_out_batch] 2 = Inr st \<and>
     written st1 = [0] \<and> written st = [0, 1] \<and> checkpoint st = Some (run_model st) \<and>
     evaluate (run_model st1) (\<lambda>i. keep_all) [held_out_batch] (CrossEntropyLoss 1) = Inr v0 \<and>
     evaluate (run_model st) (\<lambda>i. keep_all) [held_out_batch] (CrossEntropyLoss 1) = Inr v1 \<and>
     v0 < v1"
proof -
  obtain e0 where e0: "Encoder_init 5 1 1 1 1 (1 / 2) 4 tiny_init = Inr e0"
    using Encoder_init_total[of 1 "1 / 2" 5 1 1 1 4 tiny_init] by auto
  obtain d0 where d0: "Decoder_init 5 1 1 1 1 (1 / 2) 1 4 tiny_init = Inr d0"
    using Decoder_init_total[of 1 "1 / 2" 5 1 1 1 1 4 tiny_init] by auto
  define crit where "crit = CrossEntropyLoss 1"
  define R :: "nat \<Rightarrow> bool \<Rightarrow> nat \<Rightarrow> batch_rng \<times> batch_rng" where "R = (\<lambda>epoch ev i. keep_all)"
  define fc :: "real \<Rightarrow> Linear" where
    "fc c = \<lparr>in_features = 1, out_features = 5, lin_weight = [[0], [0], [0], [0], [0]],
             lin_bias = [0, 0, 0, c, 0]\<rparr>" for c
  define M :: "real \<Rightarrow> Seq2Seq" where
    "M c = \<lparr>encoder = e0\<lparr>enc_training := True\<rparr>,
            decoder = d0\<lparr>dec_training := True, dec_fc_out := fc c\<rparr>\<rparr>" for c
  define m0 where "m0 = \<lparr>encoder = e0, decoder = d0\<rparr>"
  define st0 :: "nat run" where
    "st0 = \<lparr>run_model = m0, run_optimizer = 0, best_valid_loss = None,
            checkpoint = None, written = [], printed = []\<rparr>"
  \<comment> \<open>the model as the optimizer leaves it\<close>
  have Mm: "encoder (M c) = e0\<lparr>enc_training := True\<rparr>"
    "decoder (M c) = d0\<lparr>dec_training := True, dec_fc_out := fc c\<rparr>" for c
    by (simp_all add: M_def)
  have fcl: "out_features (fc c) = 5" "lin_weight (fc c) = [[0], [0], [0], [0], [0]]"
    "lin_bias (fc c) = [0, 0, 0, c, 0]" for c
    by (simp_all add: fc_def)
  have lossM: "batch_loss (M c) crit keep_all tiny_batch = Inr (- ln (exp c / (4 + exp c)))"
    "batch_loss (M c) crit keep_all held_out_batch = Inr (- ln (1 / (4 + exp c)))" for c
    unfolding crit_def
    by (rule tiny_batch_loss[OF e0 d0 Mm fcl]; simp)+
  have evalM: "evaluate (M c) (\<lambda>i. keep_all) [tiny_batch] crit
                 = Inr (- ln (exp c / (4 + exp c)))"
    "evaluate (M c) (\<lambda>i. keep_all) [held_out_batch] crit = Inr (- ln (1 / (4 + exp c)))" for c
    by (simp_all add: evaluate_single lossM)
  have trainM: "Module_train (M c) = M c" for c
    by (simp add: Module_train_def M_def)
  have updM: "tiny_update n (M c) b r = (n + 1, M (real n))" for n c b r
    by (simp add: tiny_update_def M_def fc_def)
  \<comment> \<open>the first training step, from the constructed model\<close>
  have m0t: "encoder (Module_train m0) = e0\<lparr>enc_training := True\<rparr>"
    "decoder (Module_train m0) = d0\<lparr>dec_training := True, dec_fc_out := dec_fc_out d0\<rparr>"
    by (simp_all add: Module_train_def m0_def)
  have l0: "out_features (dec_fc_out d0) = 5"
    "lin_weight (dec_fc_out d0) = [[0], [0], [0], [1], [0]]"
    "lin_bias (dec_fc_out d0) = [0, 0, 0, 0, 0]"
    by (simp_all add: Decoder_init_Inr(8)[OF d0] tiny_fc_out del: One_nat_def)
  obtain tl0 where loss0: "batch_loss (Module_train m0) crit keep_all tiny_batch = Inr tl0"
    unfolding crit_def using tiny_batch_loss(1)[OF e0 d0 m0t l0 refl, of keep_all] by blast
  have upd0: "tiny_update 0 (Module_train m0) tiny_batch keep_all = (1, M 0)"
    by (simp add: tiny_update_def Module_train_def m0_def M_def fc_def)
  have train0: "train m0 0 tiny_update (R 0 False) [tiny_batch] crit = Inr (M 0, 1, tl0)"
    by (rule train_single) (simp_all add: R_def loss0 upd0)
  have train1: "train (M 0) 1 tiny_update (R 1 False) [tiny_batch] crit
                  = Inr (M 1, 2, - ln (exp 0 / (4 + exp 0)))"
    by (rule train_single) (simp_all only: R_def trainM lossM updM, simp_all)
  \<comment> \<open>the two epochs\<close>
  define st1 :: "nat run" where
    "st1 = \<lparr>run_model = M 0, run_optimizer = 1,
            best_valid_loss = Some (- ln (exp 0 / (4 + exp 0))),
            checkpoint = Some (M 0), written = [0],
            printed = [(tl0, - ln (exp 0 / (4 + exp 0)))]\<rparr>"
  define st2 :: "nat run" where
    "st2 = \<lparr>run_model = M 1, run_optimizer = 2,
            best_valid_loss = Some (- ln (exp 1 / (4 + exp 1))),
            checkpoint = Some (M 1), written = [0, 1],
            printed = [(tl0, - ln (exp 0 / (4 + exp 0))),
                       (- ln (exp 0 / (4 + exp 0)), - ln (exp 1 / (4 + exp 1)))]\<rparr>"
  have ev0: "evaluate (M 0) (R 0 True) [tiny_batch] crit = Inr (- ln (exp 0 / (4 + exp 0)))"
    unfolding R_def by (rule evalM(1))
  have ev1: "evaluate (M 1) (R 1 True) [tiny_batch] crit = Inr (- ln (exp 1 / (4 + exp 1)))"
    unfolding R_def by (rule evalM(1))
  have step0: "epoch_step tiny_update crit R [tiny_batch] [held_out_batch] 0 st0 = Inr st1"
    unfolding epoch_step_def st0_def st1_def
    by (simp only: run.simps train0 ev0 sum.case prod.case Let_def less_best_def option.case
        if_True append_Nil)
  have lb: "less_best (- ln (exp 1 / (4 + exp 1))) (Some (- ln (exp 0 / (4 + exp (0::real)))))"
    unfolding less_best_def option.case by (rule tiny_loss_improves)
  have step1: "epoch_step tiny_update crit R [tiny_batch] [held_out_batch] 1 st1 = Inr st2"
    unfolding epoch_step_def st1_def st2_def
    by (simp only: run.simps train1 ev1 sum.case prod.case Let_def lb if_True)
       simp
  have loop1: "epoch_loop tiny_update crit R [tiny_batch] [held_out_batch] [0] st0 = Inr st1"
    by (simp add: step0)
  have "[0..<2] = [0, 1]" by (simp add: upt_rec)
  then have loop2: "epoch_loop tiny_update crit R [tiny_batch] [held_out_batch] [0..<2] st0
                      = Inr st2"
    by (simp only: epoch_loop.simps step0 step1 sum.case)
  have load: "load_state_dict (M 1) (M 1) = M 1"
    by (simp add: load_state_dict_def M_def)
  have run: "training_run m0 0 tiny_update crit R [tiny_batch] [held_out_batch] 2 = Inr st2"
    unfolding training_run_def st0_def[symmetric] loop2
    by (simp add: st2_def load)
  have facts: "written st1 = [0]" "written st2 = [0, 1]" "checkpoint st2 = Some (run_model st2)"
    "run_model st1 = M 0" "run_model st2 = M 1"
    by (simp_all add: st1_def st2_def)
  have v: "evaluate (run_model st1) (\<lambda>i. keep_all) [held_out_batch] crit
             = Inr (- ln (1 / (4 + exp 0)))"
    "evaluate (run_model st2) (\<lambda>i. keep_all) [held_out_batch] crit
             = Inr (- ln (1 / (4 + exp 1)))"
    unfolding facts by (rule evalM(2))+
  from e0 d0 loop1 run facts(1-3) v held_out_loss_worsens show ?thesis
    unfolding crit_def R_def m0_def st0_def by blast
qed

subsection \<open>Evaluation mode\<close>

text \<open>
  What \<open>model.eval()\<close> would give: with the training flag of both modules off, no
  forward pass and no loss depends on the random draws offered to dropout.
\<close>

lemma Encoder_blocks_eval:
  assumes "\<not> enc_training e"
  shows "Encoder_blocks e r i convs x st = Encoder_blocks e r' i' convs x st"
proof (induction convs arbitrary: x st i i')
  case Nil
  show ?case by simp
next
  case (Cons conv convs)
  show ?case
    unfolding Encoder_blocks.simps Dropout_forward_eval[OF assms] Let_def
      Cons.IH[of "i + 1" _ _ "i' + 1"] ..
qed

lemma Encoder_element_eval:
  assumes "\<not> enc_training e"
  shows "Encoder_element e r src = Encoder_element e r' src"
proof -
  have b: "Encoder_blocks e r 0 (enc_convs e) x None = Encoder_blocks e r' 0 (enc_convs e) x None"
    for x
    by (rule Encoder_blocks_eval[OF assms])
  show ?thesis
    unfolding Encoder_element_def Dropout_forward_eval[OF assms] b ..
qed

lemma Encoder_forward_eval:
  assumes "\<not> enc_training e"
  shows "Encoder_forward e r src = Encoder_forward e r' src"
proof -
  have b: "Encoder_element e (r b) s = Encoder_element e (r' b) s" for b s
    by (rule Encoder_element_eval[OF assms])
  show ?thesis
    unfolding Encoder_forward_def b ..
qed

lemma Decoder_blocks_eval:
  assumes "\<not> dec_training d"
  shows "Decoder_blocks d r h i emb ec ecb convs x st = Decoder_blocks d r' h i' emb ec ecb convs x st"
proof (induction convs arbitrary: x st i i')
  case Nil
  show ?case by simp
next
  case (Cons conv convs)
  show ?case
    unfolding Decoder_blocks.simps Dropout_forward_eval[OF assms] Let_def
      Cons.IH[of "i + 1" _ _ "i' + 1"] ..
qed

lemma Decoder_element_eval:
  assumes "\<not> dec_training d"
  shows "Decoder_element d r trg ec ecb = Decoder_element d r' trg ec ecb"
proof -
  have b: "Decoder_blocks d r h 0 emb ec ecb (dec_convs d) x None =
           Decoder_blocks d r' h 0 emb ec ecb (dec_convs d) x None" for h emb x
    by (rule Decoder_blocks_eval[OF assms])
  show ?thesis
    unfolding Decoder_element_def Dropout_forward_eval[OF assms] b ..
qed

lemma Decoder_forward_eval:
  assumes "\<not> dec_training d"
  shows "Decoder_forward d r trg ec ecb = Decoder_forward d r' trg ec ecb"
proof -
  have b: "Decoder_element d (r b) s x y = Decoder_element d (r' b) s x y" for b s x y
    by (rule Decoder_element_eval[OF assms])
  show ?thesis
    unfolding Decoder_forward_def b ..
qed

lemma Seq2Seq_forward_eval:
  assumes "\<not> enc_training (encoder m)" "\<not> dec_training (decoder m)"
  shows "Seq2Seq_forward m r src trg = Seq2Seq_forward m r' src trg"
proof -
  have e: "Encoder_forward (encoder m) (fst r) src = Encoder_forward (encoder m) (fst r') src"
    by (rule Encoder_forward_eval[OF assms(1)])
  have d: "Decoder_forward (decoder m) (snd r) trg x y =
           Decoder_forward (decoder m) (snd r') trg x y" for x y
    by (rule Decoder_forward_eval[OF assms(2)])
  show ?thesis
    unfolding Seq2Seq_forward_def e d ..
qed

lemma evaluate_loop_eval:
  assumes "\<not> enc_training (encoder m)" "\<not> dec_training (decoder m)"
  shows "evaluate_loop m crit r i bs acc = evaluate_loop m crit r' i' bs acc"
proof (induction bs arbitrary: i i' acc)
  case Nil
  show ?case by simp
next
  case (Cons b bs)
  have l: "batch_loss m crit (r i) b = batch_loss m crit (r' i') b"
    unfolding batch_loss_def Seq2Seq_forward_eval[OF assms, of "r i" _ _ "r' i'"] ..
  show ?case
    unfolding evaluate_loop.simps l Cons.IH[of "i + 1" _ "i' + 1"] ..
qed

lemma evaluate_eval_mode_deterministic:
  assumes "\<not> enc_training (encoder m)" "\<not> dec_training (decoder m)"
  shows "evaluate m r iterator crit = evaluate m r' iterator crit"
  unfolding evaluate_def evaluate_loop_eval[OF assms, of _ r 0 _ _ r' 0] ..

subsection \<open>The attention in 32-bit floats\<close>

lemma softmax_float32_length [simp]: "length (softmax_float32 xs) = length xs"
  by (simp add: softmax_float32_def Let_def)






























end
